(* ===== verification/Rust_Prelude.thy ===== *)
theory Rust_Prelude
  imports Main "HOL-Library.Word" "HOL-Library.Sublist"
begin

text \<open>
  The part of Rust's standard library that the modelled code uses, and the generic facts the
  component theories share.

  A Rust \<open>str\<close> is its UTF-8 byte sequence, here a \<open>string\<close> whose characters are bytes, so
  \<open>len()\<close> is \<open>length\<close> and byte offsets are list indices. Operations that Rust defines on
  characters (trimming, iterating) are written on the bytes of their encodings: an ASCII test on
  a character is the same test on its one byte, and every other character is copied byte by
  byte. Unsigned machine integers are \<open>nat\<close> with the saturation written out, or words where
  wrap-around matters.
\<close>

named_theorems str_simps \<open>rewrite rules for the string operations\<close>
named_theorems opt_simps \<open>rewrite rules for option-valued operations\<close>

section \<open>Prefixes, suffixes, path separators\<close>

type_synonym str = string

fun starts_with :: "'a list \<Rightarrow> 'a list \<Rightarrow> bool" where
  "starts_with s [] = True"
| "starts_with [] (p # ps) = False"
| "starts_with (c # s) (p # ps) = (c = p \<and> starts_with s ps)"

definition strip_prefix :: "'a list \<Rightarrow> 'a list \<Rightarrow> 'a list option" where
  "strip_prefix s p = (if starts_with s p then Some (drop (length p) s) else None)"

definition ends_with :: "'a list \<Rightarrow> 'a list \<Rightarrow> bool" where
  "ends_with s p = starts_with (rev s) (rev p)"

definition strip_suffix :: "'a list \<Rightarrow> 'a list \<Rightarrow> 'a list option" where
  "strip_suffix s p = (if ends_with s p then Some (take (length s - length p) s) else None)"

text \<open>\<open>str::contains\<close> for a substring.\<close>

fun contains_str :: "'a list \<Rightarrow> 'a list \<Rightarrow> bool" where
  "contains_str [] p = (p = [])"
| "contains_str (c # s) p = (starts_with (c # s) p \<or> contains_str s p)"

text \<open>\<open>str::find\<close> for one ASCII character: the byte offset of its first occurrence.\<close>

fun find_char :: "string \<Rightarrow> char \<Rightarrow> nat option" where
  "find_char [] c = None"
| "find_char (x # s) c = (if x = c then Some 0 else map_option Suc (find_char s c))"

text \<open>\<open>str::split_once\<close>, \<open>str::rsplit_once\<close> for one ASCII character, and \<open>str::trim_matches\<close>.\<close>

definition split_once :: "string \<Rightarrow> char \<Rightarrow> (string \<times> string) option" where
  "split_once s c = map_option (\<lambda>i. (take i s, drop (Suc i) s)) (find_char s c)"

definition rsplit_once :: "string \<Rightarrow> char \<Rightarrow> (string \<times> string) option" where
  "rsplit_once s c =
     map_option (\<lambda>i. (take (length s - Suc i) s, drop (length s - i) s)) (find_char (rev s) c)"

definition trim_matches :: "(char \<Rightarrow> bool) \<Rightarrow> string \<Rightarrow> string" where
  "trim_matches f s = rev (dropWhile f (rev (dropWhile f s)))"

text \<open>\<open>s.rsplit(['/', '\\']).next()\<close>: what follows the last path separator; never \<open>None\<close>.\<close>

abbreviation backslash :: char where
  "backslash \<equiv> CHR 0x5C"

abbreviation newline :: char where
  "newline \<equiv> CHR 0x0A"

definition is_path_sep :: "char \<Rightarrow> bool" where
  "is_path_sep c = (c = CHR ''/'' \<or> c = backslash)"

definition basename :: "string \<Rightarrow> string" where
  "basename s = rev (takeWhile (\<lambda>c. \<not> is_path_sep c) (rev s))"

text \<open>\<open>[String]::join(sep)\<close>.\<close>

fun join :: "string \<Rightarrow> string list \<Rightarrow> string" where
  "join sep [] = []"
| "join sep [w] = w"
| "join sep (w # v # ws) = w @ sep @ join sep (v # ws)"

text \<open>\<open>str::replace\<close>: scan left to right, non-overlapping, never rescanning the output. The
  pattern is never empty in the modelled code; an empty one leaves the text unchanged here.\<close>

function replace :: "'a list \<Rightarrow> 'a list \<Rightarrow> 'a list \<Rightarrow> 'a list" where
  "replace [] p r = []"
| "replace (c # s) p r =
     (if p \<noteq> [] \<and> starts_with (c # s) p
      then r @ replace (drop (length p) (c # s)) p r
      else c # replace s p r)"
  by pat_completeness auto
termination
  by (relation "measure (\<lambda>(s, p, r). length s)") (auto simp: neq_Nil_conv)

section \<open>Characters\<close>

abbreviation byte :: "char \<Rightarrow> nat" where
  "byte c \<equiv> of_char c"

definition is_ascii_digit :: "char \<Rightarrow> bool" where
  "is_ascii_digit c = (48 \<le> byte c \<and> byte c \<le> 57)"

definition is_ascii_upper :: "char \<Rightarrow> bool" where
  "is_ascii_upper c = (65 \<le> byte c \<and> byte c \<le> 90)"

definition is_ascii_lower :: "char \<Rightarrow> bool" where
  "is_ascii_lower c = (97 \<le> byte c \<and> byte c \<le> 122)"

definition is_ascii_alphabetic :: "char \<Rightarrow> bool" where
  "is_ascii_alphabetic c = (is_ascii_upper c \<or> is_ascii_lower c)"

definition is_ascii_alphanumeric :: "char \<Rightarrow> bool" where
  "is_ascii_alphanumeric c = (is_ascii_alphabetic c \<or> is_ascii_digit c)"

definition to_ascii_lowercase_char :: "char \<Rightarrow> char" where
  "to_ascii_lowercase_char c = (if is_ascii_upper c then char_of (byte c + 32) else c)"

definition to_ascii_lowercase :: "string \<Rightarrow> string" where
  "to_ascii_lowercase s = map to_ascii_lowercase_char s"

definition eq_ignore_ascii_case :: "string \<Rightarrow> string \<Rightarrow> bool" where
  "eq_ignore_ascii_case a b = (to_ascii_lowercase a = to_ascii_lowercase b)"

text \<open>A byte that continues a multi-byte character, and \<open>str::is_char_boundary\<close>.\<close>

definition is_continuation :: "char \<Rightarrow> bool" where
  "is_continuation c = (128 \<le> byte c \<and> byte c < 192)"

definition is_char_boundary :: "string \<Rightarrow> nat \<Rightarrow> bool" where
  "is_char_boundary s i =
     (i = 0 \<or> i = length s \<or> (i < length s \<and> \<not> is_continuation (s ! i)))"

text \<open>\<open>s.get(..i)\<close>, \<open>s.get(i..)\<close> and \<open>s.get(i..j)\<close>: \<open>None\<close> out of range or off a
  character boundary.\<close>

definition get_to :: "string \<Rightarrow> nat \<Rightarrow> string option" where
  "get_to s i = (if i \<le> length s \<and> is_char_boundary s i then Some (take i s) else None)"

definition get_from :: "string \<Rightarrow> nat \<Rightarrow> string option" where
  "get_from s i = (if i \<le> length s \<and> is_char_boundary s i then Some (drop i s) else None)"

definition get_range :: "string \<Rightarrow> nat \<Rightarrow> nat \<Rightarrow> string option" where
  "get_range s i j =
     (if i \<le> j \<and> j \<le> length s \<and> is_char_boundary s i \<and> is_char_boundary s j
      then Some (take (j - i) (drop i s)) else None)"

text \<open>\<open>slice.get(i)\<close> on a vector.\<close>

definition nth_opt :: "'a list \<Rightarrow> nat \<Rightarrow> 'a option" where
  "nth_opt xs i = (if i < length xs then Some (xs ! i) else None)"

section \<open>Whitespace and trimming\<close>

text \<open>
  \<open>char::is_whitespace\<close> is Unicode's White\_Space: U+0009 to U+000D, U+0020, U+0085, U+00A0,
  U+1680, U+2000 to U+200A, U+2028, U+2029, U+202F, U+205F and U+3000. \<open>ws_len\<close> is the length of
  the whitespace character a byte sequence starts with, 0 when it starts with none;
  \<open>ws_len_rev\<close> reads the reversed sequence, for trimming at the end.
\<close>

definition is_ascii_ws :: "char \<Rightarrow> bool" where
  "is_ascii_ws c = ((9 \<le> byte c \<and> byte c \<le> 13) \<or> byte c = 32)"

definition is_ws2 :: "char \<Rightarrow> char \<Rightarrow> bool" where
  "is_ws2 a b = (byte a = 0xC2 \<and> (byte b = 0x85 \<or> byte b = 0xA0))"

definition is_ws3 :: "char \<Rightarrow> char \<Rightarrow> char \<Rightarrow> bool" where
  "is_ws3 a b c =
     ((byte a = 0xE1 \<and> byte b = 0x9A \<and> byte c = 0x80) \<or>
      (byte a = 0xE2 \<and> byte b = 0x80 \<and>
         ((0x80 \<le> byte c \<and> byte c \<le> 0x8A) \<or> byte c = 0xA8 \<or> byte c = 0xA9 \<or> byte c = 0xAF)) \<or>
      (byte a = 0xE2 \<and> byte b = 0x81 \<and> byte c = 0x9F) \<or>
      (byte a = 0xE3 \<and> byte b = 0x80 \<and> byte c = 0x80))"

fun ws_len :: "string \<Rightarrow> nat" where
  "ws_len [] = 0"
| "ws_len [a] = (if is_ascii_ws a then 1 else 0)"
| "ws_len [a, b] = (if is_ascii_ws a then 1 else if is_ws2 a b then 2 else 0)"
| "ws_len (a # b # c # s) =
     (if is_ascii_ws a then 1 else if is_ws2 a b then 2 else if is_ws3 a b c then 3 else 0)"

fun ws_len_rev :: "string \<Rightarrow> nat" where
  "ws_len_rev [] = 0"
| "ws_len_rev [a] = (if is_ascii_ws a then 1 else 0)"
| "ws_len_rev [b, a] = (if is_ascii_ws b then 1 else if is_ws2 a b then 2 else 0)"
| "ws_len_rev (c # b # a # s) =
     (if is_ascii_ws c then 1 else if is_ws2 b c then 2 else if is_ws3 a b c then 3 else 0)"

function trim_with :: "(string \<Rightarrow> nat) \<Rightarrow> string \<Rightarrow> string" where
  "trim_with w s = (if s = [] \<or> w s = 0 then s else trim_with w (drop (w s) s))"
  by pat_completeness auto
termination
  by (relation "measure (\<lambda>(w, s). length s)") auto

declare trim_with.simps [simp del]

definition trim_start :: "string \<Rightarrow> string" where
  "trim_start s = trim_with ws_len s"

definition trim_end :: "string \<Rightarrow> string" where
  "trim_end s = rev (trim_with ws_len_rev (rev s))"

definition trim :: "string \<Rightarrow> string" where
  "trim s = trim_end (trim_start s)"

text \<open>\<open>str::trim_end_matches(c)\<close> for one ASCII character.\<close>

definition trim_end_char :: "string \<Rightarrow> char \<Rightarrow> string" where
  "trim_end_char s c = rev (dropWhile (\<lambda>x. x = c) (rev s))"

text \<open>\<open>s.contains(char::is_whitespace)\<close>.\<close>

fun contains_ws :: "string \<Rightarrow> bool" where
  "contains_ws [] = False"
| "contains_ws (c # s) = (0 < ws_len (c # s) \<or> contains_ws s)"

section \<open>Unsigned integers with saturation\<close>

definition u64_max :: nat where
  "u64_max = 18446744073709551615"

definition sat_mul :: "nat \<Rightarrow> nat \<Rightarrow> nat" where
  "sat_mul a b = min (a * b) u64_max"

definition sat_add :: "nat \<Rightarrow> nat \<Rightarrow> nat" where
  "sat_add a b = min (a + b) u64_max"

definition u16_max :: nat where
  "u16_max = 65535"

text \<open>
  \<open>FromStr\<close> for the unsigned integer types: an optional \<open>+\<close>, at least one digit, nothing else,
  and a value that fits.
\<close>

definition parse_unsigned :: "nat \<Rightarrow> string \<Rightarrow> nat option" where
  "parse_unsigned bound s =
     (let ds = (case s of c # cs \<Rightarrow> if c = CHR ''+'' then cs else s | [] \<Rightarrow> [])
      in if ds = [] \<or> \<not> list_all is_ascii_digit ds then None
         else let v = foldl (\<lambda>n c. 10 * n + (byte c - 48)) 0 ds
              in if v \<le> bound then Some v else None)"

text \<open>\<open>usize\<close> in decimal.\<close>

fun decimal :: "nat \<Rightarrow> string" where
  "decimal n = (if n < 10 then [char_of (48 + n)] else decimal (n div 10) @ [char_of (48 + n mod 10)])"

declare decimal.simps [simp del]

text \<open>\<open>{n:x}\<close>: lower-case hexadecimal without leading zeros.\<close>

definition hex_digit :: "nat \<Rightarrow> char" where
  "hex_digit d = (if d < 10 then char_of (48 + d) else char_of (87 + d))"

fun hex :: "nat \<Rightarrow> string" where
  "hex n = (if n < 16 then [hex_digit n] else hex (n div 16) @ [hex_digit (n mod 16)])"

declare hex.simps [simp del]

text \<open>\<open>saturating_sub\<close> is subtraction on \<open>nat\<close>.\<close>

section \<open>JSON values\<close>

text \<open>\<open>serde_json::Value\<close>; a number keeps its text, an object its entries in order.\<close>

datatype json =
  JNull | JBool bool | JNumber string | JString string | JArray "json list"
| JObject "(string \<times> json) list"

section \<open>Facts about the string operations\<close>

lemma lowercase_char_idem [simp]: "to_ascii_lowercase_char (to_ascii_lowercase_char c) = to_ascii_lowercase_char c"
  by (auto simp: to_ascii_lowercase_char_def is_ascii_upper_def)

lemma lowercase_char_other:
  "\<not> is_ascii_lower d \<Longrightarrow> \<not> is_ascii_upper d \<Longrightarrow> to_ascii_lowercase_char c = d \<longleftrightarrow> c = d"
  by (auto simp: to_ascii_lowercase_char_def is_ascii_upper_def is_ascii_lower_def)

lemma lowercase_idem [simp]: "to_ascii_lowercase (to_ascii_lowercase s) = to_ascii_lowercase s"
  by (simp add: to_ascii_lowercase_def)

lemma find_char_append: "c \<notin> set a \<Longrightarrow> find_char (a @ c # b) c = Some (length a)"
  by (induction a) auto

lemma split_once_append: "c \<notin> set a \<Longrightarrow> split_once (a @ c # b) c = Some (a, b)"
  by (simp add: split_once_def find_char_append)

lemma rsplit_once_append: "c \<notin> set b \<Longrightarrow> rsplit_once (a @ c # b) c = Some (a, b)"
  using find_char_append [of c "rev b" "rev a"] by (simp add: rsplit_once_def)

lemma starts_with_prefix: "starts_with s p \<longleftrightarrow> prefix p s"
  by (induction s p rule: starts_with.induct) auto

lemma starts_with_append [simp]: "starts_with (p @ s) p"
  by (simp add: starts_with_prefix)

lemma starts_with_refl [simp]: "starts_with s s"
  by (simp add: starts_with_prefix)

lemma starts_with_iff_append: "starts_with s p \<longleftrightarrow> (\<exists>t. s = p @ t)"
  by (auto simp: starts_with_prefix prefix_def)

lemma ends_with_suffix: "ends_with s p \<longleftrightarrow> suffix p s"
  by (simp add: ends_with_def starts_with_prefix suffix_to_prefix)

lemma strip_prefix_eq_Some [opt_simps]: "strip_prefix s p = Some r \<longleftrightarrow> s = p @ r"
  by (auto simp: strip_prefix_def starts_with_iff_append)

lemma strip_prefix_eq_None [opt_simps]: "strip_prefix s p = None \<longleftrightarrow> \<not> starts_with s p"
  by (simp add: strip_prefix_def)

lemma strip_suffix_eq_Some [opt_simps]: "strip_suffix s p = Some r \<longleftrightarrow> s = r @ p"
  by (auto simp: strip_suffix_def ends_with_suffix suffix_def)

lemma strip_suffix_eq_None [opt_simps]: "strip_suffix s p = None \<longleftrightarrow> \<not> ends_with s p"
  by (simp add: strip_suffix_def)

lemma nth_opt_eq_Some [opt_simps]: "nth_opt xs i = Some x \<longleftrightarrow> i < length xs \<and> xs ! i = x"
  by (auto simp: nth_opt_def)

lemma nth_opt_eq_None [opt_simps]: "nth_opt xs i = None \<longleftrightarrow> length xs \<le> i"
  by (auto simp: nth_opt_def)

lemma find_char_Some: "find_char s c = Some i \<Longrightarrow> i < length s \<and> s ! i = c"
  by (induction s arbitrary: i) (auto split: if_splits)

lemma trim_with_suffix: "suffix (trim_with w s) s"
proof (induction w s rule: trim_with.induct)
  case (1 w s)
  show ?case
  proof (cases "s = [] \<or> w s = 0")
    case True
    then show ?thesis by (simp add: trim_with.simps [of w s])
  next
    case False
    then have "suffix (trim_with w (drop (w s) s)) (drop (w s) s)" by (rule "1.IH")
    then have "suffix (trim_with w (drop (w s) s)) s"
      by (meson suffix_drop suffix_order.trans)
    with False show ?thesis by (simp add: trim_with.simps [of w s])
  qed
qed

lemma length_trim_with: "length (trim_with w s) \<le> length s"
  by (rule suffix_length_le [OF trim_with_suffix])

lemma trim_with_fixed: "trim_with w s = [] \<or> w (trim_with w s) = 0"
proof (induction w s rule: trim_with.induct)
  case (1 w s)
  then show ?case
    by (cases "s = [] \<or> w s = 0") (simp_all add: trim_with.simps [of w s])
qed

lemma trim_with_idem [simp]: "trim_with w (trim_with w s) = trim_with w s"
proof -
  have "trim_with w s = [] \<or> w (trim_with w s) = 0" by (rule trim_with_fixed)
  then show ?thesis by (simp add: trim_with.simps [of w "trim_with w s"])
qed

lemma trim_start_idem [simp]: "trim_start (trim_start s) = trim_start s"
  by (simp add: trim_start_def)

lemma trim_end_idem [simp]: "trim_end (trim_end s) = trim_end s"
  by (simp add: trim_end_def)

lemma length_trim_start: "length (trim_start s) \<le> length s"
  by (simp add: trim_start_def length_trim_with)

lemma length_trim_end: "length (trim_end s) \<le> length s"
proof -
  have "length (trim_with ws_len_rev (rev s)) \<le> length (rev s)" by (rule length_trim_with)
  then show ?thesis by (simp add: trim_end_def)
qed

lemma trim_Nil [simp]: "trim [] = []" "trim_start [] = []" "trim_end [] = []"
  by (simp_all add: trim_def trim_start_def trim_end_def trim_with.simps)

lemma contains_str_iff: "contains_str s p \<longleftrightarrow> (\<exists>a b. s = a @ p @ b)"
proof (induction s)
  case Nil
  then show ?case by auto
next
  case (Cons c s)
  show ?case
  proof
    assume "contains_str (c # s) p"
    then consider "starts_with (c # s) p" | "contains_str s p" by auto
    then show "\<exists>a b. c # s = a @ p @ b"
    proof cases
      case 1
      then obtain t where "c # s = [] @ p @ t" by (auto simp: starts_with_iff_append)
      then show ?thesis by blast
    next
      case 2
      then obtain a b where "c # s = (c # a) @ p @ b" using Cons.IH by auto
      then show ?thesis by blast
    qed
  next
    assume "\<exists>a b. c # s = a @ p @ b"
    then obtain a b where ab: "c # s = a @ p @ b" by blast
    then show "contains_str (c # s) p"
    proof (cases a)
      case Nil
      with ab have "starts_with (c # s) p" by (auto simp: starts_with_iff_append)
      then show ?thesis by simp
    next
      case (Cons x xs)
      with ab have "s = xs @ p @ b" by simp
      with Cons.IH show ?thesis by auto
    qed
  qed
qed

lemma sat_mul_le [simp]: "sat_mul a b \<le> u64_max"
  by (simp add: sat_mul_def)

lemma sat_add_le [simp]: "sat_add a b \<le> u64_max"
  by (simp add: sat_add_def)

lemma sat_mul_mono: "a \<le> a' \<Longrightarrow> sat_mul a b \<le> sat_mul a' b"
  by (simp add: sat_mul_def min.coboundedI1)

lemma ws_len_ascii: "byte c < 128 \<Longrightarrow> \<not> is_ascii_ws c \<Longrightarrow> ws_len (c # s) = 0"
  by (cases s rule: list.exhaust; cases "tl s") (auto simp: is_ws2_def is_ws3_def)

lemma ws_len_rev_ascii: "byte c < 128 \<Longrightarrow> \<not> is_ascii_ws c \<Longrightarrow> ws_len_rev (c # s) = 0"
  by (cases s rule: list.exhaust; cases "tl s") (auto simp: is_ws2_def is_ws3_def)

text \<open>A text that starts and ends with a visible ASCII character is already trimmed.\<close>

lemma trim_visible:
  assumes "s \<noteq> []" and "byte (hd s) < 128" and "\<not> is_ascii_ws (hd s)"
    and "byte (last s) < 128" and "\<not> is_ascii_ws (last s)"
  shows "trim s = s"
proof -
  have "ws_len s = 0" using assms(1-3) by (cases s) (simp_all add: ws_len_ascii)
  then have 1: "trim_start s = s" by (simp add: trim_start_def trim_with.simps [of ws_len s])
  obtain t where "rev s = last s # t" using assms(1) by (cases "rev s") (auto simp: rev_eq_Cons_iff)
  then have "ws_len_rev (rev s) = 0" by (simp only: ws_len_rev_ascii [OF assms(4,5)])
  then have "trim_end s = s" by (simp add: trim_end_def trim_with.simps [of ws_len_rev "rev s"])
  with 1 show ?thesis by (simp add: trim_def)
qed

lemma ws_len_eq_0:
  "ws_len (a # s) = 0 \<longleftrightarrow>
     \<not> is_ascii_ws a \<and> (\<forall>b t. s = b # t \<longrightarrow> \<not> is_ws2 a b) \<and>
     (\<forall>b c t. s = b # c # t \<longrightarrow> \<not> is_ws3 a b c)"
  by (cases s; cases "tl s") auto

lemma ws_len_rev_eq_0:
  "ws_len_rev (c # s) = 0 \<longleftrightarrow>
     \<not> is_ascii_ws c \<and> (\<forall>b t. s = b # t \<longrightarrow> \<not> is_ws2 b c) \<and>
     (\<forall>b a t. s = b # a # t \<longrightarrow> \<not> is_ws3 a b c)"
  by (cases s; cases "tl s") auto

lemma trim_with_eq_self: "trim_with w s = s \<longleftrightarrow> s = [] \<or> w s = 0"
  using trim_with_fixed [of w s] by (auto simp: trim_with.simps [of w s])

lemma trim_eq_self: "trim s = s \<longleftrightarrow> s = [] \<or> (ws_len s = 0 \<and> ws_len_rev (rev s) = 0)"
proof -
  have "trim_start s = s" if "trim s = s"
  proof -
    have "length s \<le> length (trim_start s)"
      using length_trim_end [of "trim_start s"] that by (simp add: trim_def)
    moreover have "suffix (trim_start s) s" by (simp add: trim_start_def trim_with_suffix)
    ultimately show ?thesis by (metis suffix_length_le suffix_def append_eq_conv_conj
          le_antisym length_append self_append_conv2 add_cancel_left_left length_0_conv)
  qed
  then have "trim s = s \<longleftrightarrow> trim_start s = s \<and> trim_end s = s" by (auto simp: trim_def)
  also have "trim_end s = s \<longleftrightarrow> trim_with ws_len_rev (rev s) = rev s"
    by (metis rev_rev_ident trim_end_def)
  finally show ?thesis by (auto simp: trim_start_def trim_with_eq_self)
qed

end
