(* ===== verification/Float64.thy ===== *)
theory Float64
  imports Rust_Prelude Complex_Main
begin

text \<open>
  The one floating-point operation the modelled code decides on: the quotient of two counters,
  \<open>a as f64 / b as f64\<close>, for \<open>a \<le> b\<close> and both below \<open>2 ^ 53\<close>, where the conversions are exact.
  IEEE 754 rounds the exact quotient to the nearest value with a 53-bit mantissa, ties to even.
  A value is a pair \<open>(m, e)\<close> standing for \<open>m / 2 ^ e\<close>.
\<close>

text \<open>The shift that brings a quotient in (0, 1] up to at least 1.\<close>

function norm_shift :: "nat \<Rightarrow> nat \<Rightarrow> nat" where
  "norm_shift a b = (if a = 0 \<or> b \<le> a then 0 else Suc (norm_shift (2 * a) b))"
  by pat_completeness auto
termination
  by (relation "measure (\<lambda>(a, b). b - a)") auto

declare norm_shift.simps [simp del]

definition div_half_even :: "nat \<Rightarrow> nat \<Rightarrow> nat" where
  "div_half_even n d =
     (let q = n div d; r = n mod d
      in if d < 2 * r \<or> (2 * r = d \<and> odd q) then Suc q else q)"

definition f64_ratio :: "nat \<Rightarrow> nat \<Rightarrow> nat \<times> nat" where
  "f64_ratio a b =
     (if a = 0 \<or> b = 0 then (0, 0)
      else let e = 52 + norm_shift a b in (div_half_even (a * 2 ^ e) b, e))"

definition f64_val :: "nat \<times> nat \<Rightarrow> rat" where
  "f64_val x = of_nat (fst x) / 2 ^ snd x"

section \<open>The rounding is right where the code compares\<close>

lemma norm_shift_lower: "0 < a \<Longrightarrow> b \<le> a * 2 ^ norm_shift a b"
proof (induction a b rule: norm_shift.induct)
  case (1 a b)
  show ?case
  proof (cases "b \<le> a")
    case True
    then show ?thesis by (simp add: norm_shift.simps [of a b])
  next
    case False
    with 1 have "b \<le> 2 * a * 2 ^ norm_shift (2 * a) b" by simp
    with False "1.prems" show ?thesis
      by (simp add: norm_shift.simps [of a b] ac_simps)
  qed
qed

lemma norm_shift_upper: "0 < a \<Longrightarrow> a \<le> b \<Longrightarrow> a * 2 ^ norm_shift a b < 2 * b"
proof (induction a b rule: norm_shift.induct)
  case (1 a b)
  show ?case
  proof (cases "b \<le> a")
    case True
    then have "norm_shift a b = 0" by (simp add: norm_shift.simps [of a b])
    with "1.prems" True show ?thesis by simp
  next
    case nle: False
    show ?thesis
    proof (cases "2 * a \<le> b")
      case True
      with 1 nle have "2 * a * 2 ^ norm_shift (2 * a) b < 2 * b" by simp
      with nle "1.prems" show ?thesis by (simp add: norm_shift.simps [of a b] ac_simps)
    next
      case False
      then have "norm_shift (2 * a) b = 0" by (simp add: norm_shift.simps [of "2 * a" b])
      with nle "1.prems" show ?thesis by (simp add: norm_shift.simps [of a b])
    qed
  qed
qed

lemma div_half_even_lower: "0 < d \<Longrightarrow> m * d \<le> n \<Longrightarrow> m \<le> div_half_even n d"
  by (auto simp: div_half_even_def Let_def less_eq_div_iff_mult_less_eq intro: le_SucI)

lemma div_half_even_upper: "0 < d \<Longrightarrow> 2 * n + d < 2 * m * d \<Longrightarrow> div_half_even n d < m"
proof -
  assume d: "0 < d" and lt: "2 * n + d < 2 * m * d"
  define q r where "q = n div d" and "r = n mod d"
  have n: "n = q * d + r" and r: "r < d" using d by (simp_all add: q_def r_def)
  have lt': "2 * n + d < 2 * (m * d)" using lt by (simp add: mult.assoc)
  then have "q * d < m * d" using n by linarith
  then have qm: "q < m" by simp
  show ?thesis
  proof (cases "d < 2 * r \<or> (2 * r = d \<and> odd q)")
    case True
    then have "d \<le> 2 * r" by auto
    then have "2 * (q * d) + 2 * d < 2 * (m * d)" using lt' n by linarith
    then have "Suc q * d < m * d" by (simp add: algebra_simps)
    then have "Suc q < m" by (simp only: mult_less_cancel2)
    then show ?thesis using True by (simp add: div_half_even_def q_def r_def Let_def)
  next
    case False
    then show ?thesis using qm by (auto simp: div_half_even_def q_def r_def Let_def)
  qed
qed

text \<open>
  Comparing the rounded quotient with one half gives the exact answer for every denominator a
  window can have, although the quotient itself is rounded.
\<close>

lemma f64_ratio_half:
  assumes "0 < b" and "a \<le> b" and "b \<le> 2 ^ 40"
  shows "1 / 2 \<le> f64_val (f64_ratio a b) \<longleftrightarrow> b \<le> 2 * a"
proof (cases "a = 0")
  case True
  with assms show ?thesis by (simp add: f64_ratio_def f64_val_def)
next
  case False
  define s where "s = norm_shift a b"
  define m where "m = div_half_even (a * 2 ^ (52 + s)) b"
  have val: "f64_val (f64_ratio a b) = of_nat m / 2 ^ (52 + s)"
    using False assms(1) by (simp add: f64_ratio_def f64_val_def Let_def s_def m_def)
  have lo: "b \<le> a * 2 ^ s" using False by (simp add: s_def norm_shift_lower)
  have hi: "a * 2 ^ s < 2 * b" using False assms(2) by (simp add: s_def norm_shift_upper)
  have half: "1 / 2 \<le> (of_nat m / 2 ^ (52 + s) :: rat) \<longleftrightarrow> 2 ^ (51 + s) \<le> m"
  proof -
    have "(2 ^ (52 + s) :: rat) = 2 * 2 ^ (51 + s)" by (simp flip: power_Suc)
    then have "1 / 2 \<le> (of_nat m / 2 ^ (52 + s) :: rat) \<longleftrightarrow> (2 ^ (51 + s) :: rat) \<le> of_nat m"
      by (simp add: pos_le_divide_eq)
    also have "\<dots> \<longleftrightarrow> (of_nat (2 ^ (51 + s)) :: rat) \<le> of_nat m" by simp
    also have "\<dots> \<longleftrightarrow> 2 ^ (51 + s) \<le> m" by (simp only: of_nat_le_iff)
    finally show ?thesis .
  qed
  have "2 ^ (51 + s) \<le> m \<longleftrightarrow> b \<le> 2 * a"
  proof
    assume "b \<le> 2 * a"
    then have "2 ^ (51 + s) * b \<le> 2 ^ (51 + s) * (2 * a)" by simp
    then have "2 ^ (51 + s) * b \<le> a * 2 ^ (52 + s)" by (simp add: power_add ac_simps)
    then show "2 ^ (51 + s) \<le> m" using assms(1) by (simp add: m_def div_half_even_lower)
  next
    assume le: "2 ^ (51 + s) \<le> m"
    show "b \<le> 2 * a"
    proof (rule ccontr)
      assume "\<not> b \<le> 2 * a"
      then have ab: "2 * a + 1 \<le> b" by simp
      have "2 ^ (52 + s) * (2 * a + 1) \<le> 2 ^ (52 + s) * b" using ab by (simp only: mult_le_mono2)
      then have "2 * (a * 2 ^ (52 + s)) + 2 ^ (52 + s) \<le> 2 * 2 ^ (51 + s) * b"
        by (simp add: algebra_simps power_add)
      moreover have "b < 2 ^ (52 + s)"
      proof -
        have "(2::nat) ^ 40 < 2 ^ (52 + s)" by (rule power_strict_increasing) auto
        with assms(3) show ?thesis by linarith
      qed
      ultimately have "2 * (a * 2 ^ (52 + s)) + b < 2 * 2 ^ (51 + s) * b" by linarith
      then have "m < 2 ^ (51 + s)" using assms(1) by (simp only: m_def div_half_even_upper)
      with le show False by simp
    qed
  qed
  with val half show ?thesis by simp
qed

lemma f64_ratio_zero [simp]: "f64_val (f64_ratio 0 b) = 0"
  by (simp add: f64_ratio_def f64_val_def)

lemma f64_val_nonneg [simp]: "0 \<le> f64_val x"
  by (simp add: f64_val_def)

end
