(* ===== verification/Machines.thy ===== *)
theory Machines
  imports Rust_Prelude "HOL-Library.Multiset"
begin

text \<open>
  The contract the stateful components share: operations of a component as a step function on
  its state, with an invariant that every operation keeps. A component interprets
  \<open>invariant_machine\<close> on its own operations and gets the invariant for every sequence of calls.
\<close>

locale invariant_machine =
  fixes step :: "'s \<Rightarrow> 'e \<Rightarrow> 's"
    and inv :: "'s \<Rightarrow> bool"
  assumes step_inv: "inv s \<Longrightarrow> inv (step s e)"
begin

lemma run_inv: "inv s \<Longrightarrow> inv (foldl step s es)"
  by (induction es arbitrary: s) (simp_all add: step_inv)

lemma run_inv_prefix: "inv s \<Longrightarrow> prefix fs es \<Longrightarrow> inv (foldl step s fs)"
  by (rule run_inv)

end

text \<open>The same for a component whose invariant only some operations keep: a run of those keeps it. An invariant that
  every operation keeps is the case without a restriction.\<close>

locale guarded_machine =
  fixes step :: "'s \<Rightarrow> 'e \<Rightarrow> 's"
    and guard :: "'e \<Rightarrow> bool"
    and inv :: "'s \<Rightarrow> bool"
  assumes guarded_step_inv: "inv s \<Longrightarrow> guard e \<Longrightarrow> inv (step s e)"
begin

lemma guarded_run_inv: "inv s \<Longrightarrow> list_all guard es \<Longrightarrow> inv (foldl step s es)"
  by (induction es arbitrary: s) (simp_all add: guarded_step_inv)

end

sublocale invariant_machine \<subseteq> unrestricted: guarded_machine step "\<lambda>_. True" inv
  by unfold_locales (rule step_inv)

text \<open>A quantity that no operation changes is the same after any run.\<close>

locale frame_machine =
  fixes step :: "'s \<Rightarrow> 'e \<Rightarrow> 's"
    and view :: "'s \<Rightarrow> 'v"
  assumes step_view: "view (step s e) = view s"
begin

lemma run_view: "view (foldl step s es) = view s"
  by (induction es arbitrary: s) (simp_all add: step_view)

end

text \<open>
  Custody: a component that holds items for others neither loses nor copies them. What it holds
  after an operation and what the operation handed out are what it held before and what came in;
  summed over a run, everything that came in is still held or was handed out once.
\<close>

fun run_total :: "('s \<Rightarrow> 'e \<Rightarrow> 's) \<Rightarrow> ('s \<Rightarrow> 'e \<Rightarrow> 'x multiset) \<Rightarrow> 's \<Rightarrow> 'e list \<Rightarrow> 'x multiset" where
  "run_total step f s [] = {#}"
| "run_total step f s (e # es) = f s e + run_total step f (step s e) es"

locale custody =
  fixes step :: "'s \<Rightarrow> 'e \<Rightarrow> 's"
    and held :: "'s \<Rightarrow> 'x multiset"
    and entering :: "'s \<Rightarrow> 'e \<Rightarrow> 'x multiset"
    and leaving :: "'s \<Rightarrow> 'e \<Rightarrow> 'x multiset"
  assumes balance: "held (step s e) + leaving s e = held s + entering s e"
begin

lemma run_balance:
  "held (foldl step s es) + run_total step leaving s es = held s + run_total step entering s es"
proof (induction es arbitrary: s)
  case Nil
  then show ?case by simp
next
  case (Cons e es)
  have IH: "held (foldl step (step s e) es) + run_total step leaving (step s e) es =
      held (step s e) + run_total step entering (step s e) es"
    by (rule Cons.IH)
  have "held (foldl step s (e # es)) + run_total step leaving s (e # es) =
      (held (foldl step (step s e) es) + run_total step leaving (step s e) es) + leaving s e"
    by (simp add: ac_simps)
  also have "\<dots> = (held (step s e) + leaving s e) + run_total step entering (step s e) es"
    unfolding IH by (simp only: ac_simps)
  also have "\<dots> = held s + run_total step entering s (e # es)"
    unfolding balance by (simp only: run_total.simps ac_simps)
  finally show ?case .
qed

lemma handed_out_came_in: "held s = {#} \<Longrightarrow> run_total step leaving s es \<subseteq># run_total step entering s es"
  using run_balance [of s es] by (metis add.left_neutral mset_subset_eq_add_right)

end

lemma run_total_mono:
  "(\<And>s e. f s e \<subseteq># g s e) \<Longrightarrow> run_total step f s es \<subseteq># run_total step g s es"
  by (induction es arbitrary: s) (auto intro: subset_mset.add_mono)

lemma mset_map_filter_split:
  "mset (map f (filter P xs)) + mset (map f (filter (\<lambda>x. \<not> P x) xs)) = mset (map f xs)"
  by (induction xs) auto

end
