(* ===== verification/Circuit_Breaker.thy ===== *)
theory Circuit_Breaker
  imports Float64 Machines
begin

text \<open>
  The crate \<open>xai-circuit-breaker\<close>: the bounded sliding window of samples, the breaker's state
  machine (\<open>Closed\<close>, \<open>Open\<close>, \<open>HalfOpen\<close>), its configuration, the retry policies and the
  per-key registry.

  Times are nanoseconds on the breaker's monotonic clock, counted from the clock's origin; an
  operation that reads the clock takes the readings it makes as arguments, in the order the code
  makes them. \<open>saturating_duration_since\<close> is subtraction on \<open>nat\<close>. Here one caller runs at
  a time, so an operation is a function from the breaker to the breaker; the calls the breaker
  makes to its observer are kept in order in the field \<open>calls\<close>.
\<close>

section \<open>States and outcomes\<close>

datatype breaker_state = Closed | Open | HalfOpen

datatype outcome = Success | Failure

text \<open>\<open>BreakerOpen\<close>, the error of a refused request, carries the advertised back-off.\<close>

record breaker_open =
  retry_after :: nat

definition state_to_u8 :: "breaker_state \<Rightarrow> nat" where
  "state_to_u8 s = (case s of Closed \<Rightarrow> 0 | Open \<Rightarrow> 1 | HalfOpen \<Rightarrow> 2)"

definition state_from_u8 :: "nat \<Rightarrow> breaker_state" where
  "state_from_u8 v = (if v = 0 then Closed else if v = 1 then Open else if v = 2 then HalfOpen
     else Closed)"

section \<open>The sliding window\<close>

definition MAX_WINDOW_ENTRIES :: nat where
  "MAX_WINDOW_ENTRIES = 10000"

record sliding_window =
  entries :: "(nat \<times> bool) list"
  failures :: nat

definition window_new :: sliding_window where
  "window_new = \<lparr>entries = [], failures = 0\<rparr>"

definition window_push :: "sliding_window \<Rightarrow> bool \<Rightarrow> nat \<Rightarrow> sliding_window" where
  "window_push w is_failure now =
     (let w1 = (if MAX_WINDOW_ENTRIES \<le> length (entries w)
                then (case entries w of
                        [] \<Rightarrow> w
                      | (_, was_failure) # es \<Rightarrow>
                          w\<lparr>entries := es,
                            failures := (if was_failure then failures w - 1 else failures w)\<rparr>)
                else w)
      in w1\<lparr>entries := entries w1 @ [(now, is_failure)],
            failures := (if is_failure then failures w1 + 1 else failures w1)\<rparr>)"

fun evict_loop :: "nat \<Rightarrow> (nat \<times> bool) list \<Rightarrow> nat \<Rightarrow> (nat \<times> bool) list \<times> nat" where
  "evict_loop cutoff [] n = ([], n)"
| "evict_loop cutoff ((ts, was_failure) # es) n =
     (if ts < cutoff
      then evict_loop cutoff es (if was_failure then n - 1 else n)
      else ((ts, was_failure) # es, n))"

text \<open>\<open>checked_sub\<close> fails when the window reaches back past the clock's origin.\<close>

definition window_evict :: "sliding_window \<Rightarrow> nat \<Rightarrow> nat \<Rightarrow> sliding_window" where
  "window_evict w window now =
     (if now < window then w
      else let (es, n) = evict_loop (now - window) (entries w) (failures w)
           in w\<lparr>entries := es, failures := n\<rparr>)"

definition window_error_rate :: "sliding_window \<Rightarrow> rat" where
  "window_error_rate w =
     (if entries w = [] then 0 else f64_val (f64_ratio (failures w) (length (entries w))))"

definition window_sample_count :: "sliding_window \<Rightarrow> nat" where
  "window_sample_count w = length (entries w)"

definition window_clear :: "sliding_window \<Rightarrow> sliding_window" where
  "window_clear w = w\<lparr>entries := [], failures := 0\<rparr>"

section \<open>Configuration\<close>

definition nanos_per_sec :: nat where
  "nanos_per_sec = 1000000000"

definition nanos_per_milli :: nat where
  "nanos_per_milli = 1000000"

record breaker_config =
  window_duration :: nat
  min_samples :: nat
  error_rate_threshold :: rat
  open_duration :: nat
  half_open_max_probes :: nat
  failure_codes :: "nat set"
  enabled :: bool

definition default_failure_codes :: "nat set" where
  "default_failure_codes = {429, 500, 502, 503, 504}"

definition config_server :: breaker_config where
  "config_server =
     \<lparr>window_duration = 60 * nanos_per_sec, min_samples = 10, error_rate_threshold = 1 / 2,
      open_duration = 10 * nanos_per_sec, half_open_max_probes = 1,
      failure_codes = default_failure_codes, enabled = True\<rparr>"

definition config_client :: breaker_config where
  "config_client =
     \<lparr>window_duration = 60 * nanos_per_sec, min_samples = 5, error_rate_threshold = 1 / 2,
      open_duration = 60 * nanos_per_sec, half_open_max_probes = 1,
      failure_codes = {401}, enabled = True\<rparr>"

text \<open>The parser of \<open>f64\<close> literals is a parameter.\<close>

definition parse_bool :: "string \<Rightarrow> bool option" where
  "parse_bool s = (if s = ''true'' then Some True else if s = ''false'' then Some False else None)"

fun split_comma :: "string \<Rightarrow> string list" where
  "split_comma [] = [[]]"
| "split_comma (c # s) =
     (if c = CHR '','' then [] # split_comma s
      else case split_comma s of [] \<Rightarrow> [[c]] | w # ws \<Rightarrow> (c # w) # ws)"

definition parse_failure_codes :: "string \<Rightarrow> nat set" where
  "parse_failure_codes s =
     set (List.map_filter (\<lambda>c. parse_unsigned u16_max (trim c)) (split_comma s))"

definition lookup_or ::
  "(string \<Rightarrow> string option) \<Rightarrow> string \<Rightarrow> (string \<Rightarrow> 'a option) \<Rightarrow> 'a \<Rightarrow> 'a" where
  "lookup_or get key parse dflt =
     (case get key of
        Some v \<Rightarrow> (case parse v of Some x \<Rightarrow> x | None \<Rightarrow> dflt)
      | None \<Rightarrow> dflt)"

definition from_lookup_with_prefix ::
  "(string \<Rightarrow> rat option) \<Rightarrow> string \<Rightarrow> (string \<Rightarrow> string option) \<Rightarrow> breaker_config" where
  "from_lookup_with_prefix parse_f64 pfx get =
     (let codes = (case get (pfx @ ''FAILURE_CODES'') of
                     Some raw \<Rightarrow>
                       (let cs = parse_failure_codes raw
                        in if cs = {} then default_failure_codes else cs)
                   | None \<Rightarrow> default_failure_codes);
          u64 = parse_unsigned u64_max
      in \<lparr>window_duration = lookup_or get (pfx @ ''WINDOW_SECS'') u64 60 * nanos_per_sec,
          min_samples = lookup_or get (pfx @ ''MIN_SAMPLES'') u64 10,
          error_rate_threshold = lookup_or get (pfx @ ''ERROR_RATE_THRESHOLD'') parse_f64 (1 / 2),
          open_duration = lookup_or get (pfx @ ''OPEN_DURATION_SECS'') u64 10 * nanos_per_sec,
          half_open_max_probes = max (lookup_or get (pfx @ ''HALF_OPEN_MAX_PROBES'') u64 1) 1,
          failure_codes = codes,
          enabled = lookup_or get (pfx @ ''ENABLED'') parse_bool True\<rparr>)"

definition is_failure_status :: "breaker_config \<Rightarrow> nat \<Rightarrow> bool" where
  "is_failure_status cfg status = (status \<in> failure_codes cfg)"

section \<open>The breaker\<close>

datatype observer_call =
    OnStateChange breaker_state breaker_state string
  | OnProbeAdmission bool
  | OnOutcome outcome breaker_state

text \<open>The probe counter is a \<open>usize\<close> whose \<open>fetch_add\<close> and \<open>fetch_sub\<close> wrap around.\<close>

record breaker =
  config :: breaker_config
  state :: breaker_state
  baseline :: nat
  opened_at_millis :: nat
  half_open_probes :: "64 word"
  probe_claimed_at_millis :: nat
  is_open_fast :: bool
  window :: sliding_window
  observer :: "nat option"
  calls :: "observer_call list"

definition with_clock :: "breaker_config \<Rightarrow> nat \<Rightarrow> breaker" where
  "with_clock cfg now =
     \<lparr>config = cfg\<lparr>half_open_max_probes := max (half_open_max_probes cfg) 1\<rparr>,
      state = Closed, baseline = now, opened_at_millis = 0, half_open_probes = 0,
      probe_claimed_at_millis = 0, is_open_fast = False, window = window_new,
      observer = None, calls = []\<rparr>"

text \<open>The observer is installed once: a later install is ignored.\<close>

definition with_observer :: "breaker \<Rightarrow> nat \<Rightarrow> breaker" where
  "with_observer b obs = (case observer b of None \<Rightarrow> b\<lparr>observer := Some obs\<rparr> | Some _ \<Rightarrow> b)"

definition notify :: "observer_call \<Rightarrow> breaker \<Rightarrow> breaker" where
  "notify c b = b\<lparr>calls := calls b @ [c]\<rparr>"

definition elapsed_millis :: "breaker \<Rightarrow> nat \<Rightarrow> nat" where
  "elapsed_millis b now = ((now - baseline b) div nanos_per_milli) mod 2 ^ 64"

definition trip :: "breaker \<Rightarrow> breaker_state \<Rightarrow> string \<Rightarrow> nat \<Rightarrow> breaker" where
  "trip b prev reason now =
     (let b1 = b\<lparr>state := Open, opened_at_millis := elapsed_millis b now, half_open_probes := 0,
                 is_open_fast := True\<rparr>
      in if prev \<noteq> Open then notify (OnStateChange prev Open reason) b1 else b1)"

definition close :: "breaker \<Rightarrow> breaker_state \<Rightarrow> string \<Rightarrow> breaker" where
  "close b prev reason =
     (let b1 = b\<lparr>state := Closed, window := window_clear (window b), half_open_probes := 0,
                 is_open_fast := False\<rparr>
      in if prev \<noteq> Closed then notify (OnStateChange prev Closed reason) b1 else b1)"

definition HALF_OPEN_PROBE_BACKOFF :: nat where
  "HALF_OPEN_PROBE_BACKOFF = 50 * nanos_per_milli"

definition try_half_open_probe :: "breaker \<Rightarrow> nat \<Rightarrow> breaker \<times> (breaker_open + unit)" where
  "try_half_open_probe b t =
     (let now = elapsed_millis b t;
          prev = half_open_probes b;
          b1 = b\<lparr>half_open_probes := prev + 1\<rparr>
      in if unat prev < half_open_max_probes (config b)
         then (notify (OnProbeAdmission True) (b1\<lparr>probe_claimed_at_millis := now\<rparr>), Inr ())
         else
           let b2 = b1\<lparr>half_open_probes := half_open_probes b1 - 1\<rparr>;
               lease_millis = (open_duration (config b) div nanos_per_milli) mod 2 ^ 64;
               claimed = probe_claimed_at_millis b2
           in if lease_millis \<le> now - claimed
              then (notify (OnProbeAdmission True) (b2\<lparr>probe_claimed_at_millis := now\<rparr>), Inr ())
              else (notify (OnProbeAdmission False) b2,
                    Inl \<lparr>retry_after = min HALF_OPEN_PROBE_BACKOFF (open_duration (config b))\<rparr>))"

definition cas_state :: "breaker \<Rightarrow> breaker_state \<Rightarrow> breaker_state \<Rightarrow> breaker \<times> bool" where
  "cas_state b from to = (if state b = from then (b\<lparr>state := to\<rparr>, True) else (b, False))"

text \<open>The clock is read once on entry and once more on every path past the cool-down.\<close>

definition check_open :: "breaker \<Rightarrow> nat \<Rightarrow> nat \<Rightarrow> breaker \<times> (breaker_open + unit)" where
  "check_open b t1 t2 =
     (let elapsed = (elapsed_millis b t1 - opened_at_millis b) * nanos_per_milli
      in if open_duration (config b) \<le> elapsed
         then case cas_state b Open HalfOpen of
                (b1, True) \<Rightarrow>
                  try_half_open_probe
                    (notify (OnStateChange Open HalfOpen ''open_elapsed'')
                      (b1\<lparr>is_open_fast := False\<rparr>)) t2
              | (b1, False) \<Rightarrow>
                  (case state b1 of
                     Closed \<Rightarrow> (b1, Inr ())
                   | HalfOpen \<Rightarrow> try_half_open_probe b1 t2
                   | Open \<Rightarrow>
                       (b1, Inl \<lparr>retry_after = open_duration (config b)
                          - (elapsed_millis b1 t2 - opened_at_millis b1) * nanos_per_milli\<rparr>))
         else (b, Inl \<lparr>retry_after = open_duration (config b) - elapsed\<rparr>))"

definition check :: "breaker \<Rightarrow> nat \<Rightarrow> nat \<Rightarrow> breaker \<times> (breaker_open + unit)" where
  "check b t1 t2 =
     (if \<not> enabled (config b) then (b, Inr ())
      else case state b of
             Closed \<Rightarrow> (b, Inr ())
           | Open \<Rightarrow> check_open b t1 t2
           | HalfOpen \<Rightarrow> try_half_open_probe b t1)"

definition should_trip :: "breaker_config \<Rightarrow> sliding_window \<Rightarrow> bool" where
  "should_trip cfg w =
     (min_samples cfg \<le> window_sample_count w \<and> error_rate_threshold cfg \<le> window_error_rate w)"

definition record_outcome :: "breaker \<Rightarrow> outcome \<Rightarrow> nat \<Rightarrow> nat \<Rightarrow> breaker" where
  "record_outcome b outcome now t2 =
     (if \<not> enabled (config b) then b
      else
        let is_failure = (outcome = Failure);
            prev_state = state b;
            sampled = window_evict (window_push (window b) is_failure now)
                        (window_duration (config b)) now;
            b1 = (case prev_state of
                    Closed \<Rightarrow>
                      if should_trip (config b) sampled
                      then trip (b\<lparr>window := sampled\<rparr>) prev_state ''trip'' t2
                      else b\<lparr>window := sampled\<rparr>
                  | HalfOpen \<Rightarrow>
                      if is_failure then trip b prev_state ''probe_failure'' t2
                      else close b prev_state ''probe_success''
                  | Open \<Rightarrow> b\<lparr>window := sampled\<rparr>)
        in notify (OnOutcome outcome (state b1)) b1)"

definition is_open :: "breaker \<Rightarrow> bool" where
  "is_open b = is_open_fast b"

definition breaker_error_rate :: "breaker \<Rightarrow> nat \<Rightarrow> breaker \<times> rat" where
  "breaker_error_rate b now =
     (let w = window_evict (window b) (window_duration (config b)) now
      in (b\<lparr>window := w\<rparr>, window_error_rate w))"

definition force_half_open :: "breaker \<Rightarrow> breaker" where
  "force_half_open b =
     (let prev = state b;
          b1 = b\<lparr>state := HalfOpen, is_open_fast := False, half_open_probes := 0\<rparr>
      in if prev \<noteq> HalfOpen then notify (OnStateChange prev HalfOpen ''force_half_open'') b1
         else b1)"

section \<open>Retry policies\<close>

datatype disposition = Retryable | AuthRefresh | Terminal

record retry_policy =
  retryable :: "nat list"
  auth_refresh :: "nat list"
  terminal :: "nat list"
  dflt :: disposition

definition classify :: "retry_policy \<Rightarrow> nat \<Rightarrow> disposition option" where
  "classify p status =
     (if 200 \<le> status \<and> status < 300 then None
      else if status \<in> set (auth_refresh p) then Some AuthRefresh
      else if status \<in> set (terminal p) then Some Terminal
      else if status \<in> set (retryable p) \<or> (500 \<le> status \<and> status < 600) then Some Retryable
      else Some (dflt p))"

definition should_retry :: "retry_policy \<Rightarrow> nat \<Rightarrow> bool" where
  "should_retry p status = (classify p status = Some Retryable)"

definition policy_server :: retry_policy where
  "policy_server = \<lparr>retryable = [429], auth_refresh = [], terminal = [], dflt = Terminal\<rparr>"

definition policy_edge_client :: retry_policy where
  "policy_edge_client =
     \<lparr>retryable = [429], auth_refresh = [], terminal = [525, 526], dflt = Terminal\<rparr>"

definition policy_client_storage :: retry_policy where
  "policy_client_storage =
     \<lparr>retryable = [], auth_refresh = [401], terminal = [400, 403, 404, 525, 526],
      dflt = Retryable\<rparr>"

text \<open>\<open>tonic::Code\<close> is a fixed enumeration of the gRPC status codes; the policy only compares them.\<close>

datatype code = Ok | Cancelled | Unknown | InvalidArgument | DeadlineExceeded | NotFound
  | AlreadyExists | PermissionDenied | ResourceExhausted | FailedPrecondition | Aborted
  | OutOfRange | Unimplemented | Internal | Unavailable | DataLoss | Unauthenticated

definition grpc_default :: "code list" where
  "grpc_default = [Unavailable, Unknown]"

definition grpc_permissive :: "code list" where
  "grpc_permissive = [Unavailable, Unknown, Internal, DeadlineExceeded]"

definition grpc_is_retryable :: "code list \<Rightarrow> code \<Rightarrow> bool" where
  "grpc_is_retryable p c = (c \<in> set p)"

definition grpc_classify :: "code list \<Rightarrow> code \<Rightarrow> disposition option" where
  "grpc_classify p c =
     (if c = Ok then None else if grpc_is_retryable p c then Some Retryable else Some Terminal)"

definition grpc_is_retryable_status :: "code list \<Rightarrow> code \<Rightarrow> bool \<Rightarrow> bool" where
  "grpc_is_retryable_status p c has_source =
     (grpc_is_retryable p c \<or>
      (has_source \<and> c \<in> {Internal, Cancelled, Unknown, Unavailable}))"

section \<open>The registry\<close>

text \<open>
  The map holds shared handles (\<open>Arc\<close>): an entry is the address of a breaker in \<open>store\<close>, and
  \<open>get\<close> hands out that address.
\<close>

record registry =
  reg_config :: breaker_config
  breakers :: "string \<rightharpoonup> nat"
  store :: "breaker list"

definition registry_new :: "breaker_config \<Rightarrow> registry" where
  "registry_new cfg = \<lparr>reg_config = cfg, breakers = Map.empty, store = []\<rparr>"

text \<open>\<open>now\<close> is the clock reading a freshly created breaker takes as its baseline.\<close>

definition registry_get :: "registry \<Rightarrow> string \<Rightarrow> nat \<Rightarrow> registry \<times> nat option" where
  "registry_get r key now =
     (if \<not> enabled (reg_config r) then (r, None)
      else case breakers r key of
             Some cb \<Rightarrow> (r, Some cb)
           | None \<Rightarrow>
               (let cb = length (store r)
                in (r\<lparr>breakers := (breakers r)(key \<mapsto> cb),
                      store := store r @ [with_clock (reg_config r) now]\<rparr>, Some cb)))"

section \<open>Invariants and runs\<close>

text \<open>The window's incremental failure counter agrees with its samples, and the window is bounded.\<close>

definition window_inv :: "sliding_window \<Rightarrow> bool" where
  "window_inv w = (failures w = length (filter snd (entries w)) \<and>
     length (entries w) \<le> MAX_WINDOW_ENTRIES)"

definition breaker_inv :: "breaker \<Rightarrow> bool" where
  "breaker_inv b =
     (window_inv (window b) \<and>
      (is_open_fast b \<longleftrightarrow> state b = Open) \<and>
      (state b \<noteq> HalfOpen \<longrightarrow> half_open_probes b = 0) \<and>
      unat (half_open_probes b) \<le> half_open_max_probes (config b) \<and>
      1 \<le> half_open_max_probes (config b))"

datatype breaker_op = Check nat nat | Record outcome nat nat | ErrorRate nat | Install nat

fun breaker_step :: "breaker \<Rightarrow> breaker_op \<Rightarrow> breaker" where
  "breaker_step b (Check t1 t2) = fst (check b t1 t2)"
| "breaker_step b (Record out t1 t2) = record_outcome b out t1 t2"
| "breaker_step b (ErrorRate t) = fst (breaker_error_rate b t)"
| "breaker_step b (Install obs) = with_observer b obs"

text \<open>Checks made one after another at the given clock readings, with their results.\<close>

fun check_all :: "breaker \<Rightarrow> nat list \<Rightarrow> (breaker_open + unit) list" where
  "check_all b [] = []"
| "check_all b (t # ts) = snd (check b t t) # check_all (fst (check b t t)) ts"

abbreviation admitted :: "breaker_open + unit \<Rightarrow> bool" where
  "admitted r \<equiv> r = Inr ()"

abbreviation lease_millis :: "breaker_config \<Rightarrow> nat" where
  "lease_millis cfg \<equiv> (open_duration cfg div nanos_per_milli) mod 2 ^ 64"

section \<open>The window\<close>

lemma evict_loop_eq:
  "evict_loop c es n =
     (dropWhile (\<lambda>e. fst e < c) es, n - length (filter snd (takeWhile (\<lambda>e. fst e < c) es)))"
  by (induction c es n rule: evict_loop.induct) auto

lemma count_dropWhile:
  "length (filter P (dropWhile Q xs)) = length (filter P xs) - length (filter P (takeWhile Q xs))"
proof -
  have "length (filter P xs) = length (filter P (takeWhile Q xs @ dropWhile Q xs))" by simp
  then show ?thesis by (simp only: filter_append length_append)
qed

lemma entries_window_evict:
  "entries (window_evict w d now) =
     (if now < d then entries w else dropWhile (\<lambda>e. fst e < now - d) (entries w))"
  by (simp add: window_evict_def evict_loop_eq)

lemma entries_window_push:
  "entries (window_push w f now) =
     (if MAX_WINDOW_ENTRIES \<le> length (entries w) then tl (entries w) else entries w) @ [(now, f)]"
  by (auto simp: window_push_def Let_def split: list.splits)

lemma window_inv_new [simp]: "window_inv window_new"
  by (simp add: window_inv_def window_new_def)

lemma window_inv_clear [simp]: "window_inv (window_clear w)"
  by (simp add: window_inv_def window_clear_def)

lemma window_inv_push [simp]: "window_inv w \<Longrightarrow> window_inv (window_push w f now)"
  by (auto simp: window_inv_def window_push_def Let_def MAX_WINDOW_ENTRIES_def split: list.splits)

lemma window_inv_evict [simp]: "window_inv w \<Longrightarrow> window_inv (window_evict w d now)"
  using length_dropWhile_le [of "\<lambda>e. fst e < now - d" "entries w"]
  by (auto simp: window_inv_def window_evict_def evict_loop_eq count_dropWhile)

lemma window_error_rate_inv:
  "window_inv w \<Longrightarrow> entries w \<noteq> [] \<Longrightarrow>
   window_error_rate w = f64_val (f64_ratio (length (filter snd (entries w))) (length (entries w)))"
  by (simp add: window_error_rate_def window_inv_def)

lemma window_error_rate_half:
  assumes "window_inv w" and "entries w \<noteq> []"
  shows "1 / 2 \<le> window_error_rate w \<longleftrightarrow>
    length (entries w) \<le> 2 * length (filter snd (entries w))"
proof -
  have "length (entries w) \<le> 2 ^ 40"
    using assms(1) by (simp add: window_inv_def MAX_WINDOW_ENTRIES_def)
  then have "1 / 2 \<le> f64_val (f64_ratio (length (filter snd (entries w))) (length (entries w)))
      \<longleftrightarrow> length (entries w) \<le> 2 * length (filter snd (entries w))"
    using assms(2) by (intro f64_ratio_half) auto
  then show ?thesis by (simp only: window_error_rate_inv [OF assms])
qed

lemma evicted_sorted:
  assumes "sorted (map fst es)" and "e \<in> set (dropWhile (\<lambda>e. fst e < c) es)"
  shows "c \<le> fst e"
  using assms
proof (induction es)
  case Nil
  then show ?case by simp
next
  case (Cons x xs)
  then show ?case by (cases "fst x < c") (fastforce split: if_splits)+
qed

section \<open>The breaker keeps its invariant\<close>

lemmas breaker_defs = check_def check_open_def try_half_open_probe_def cas_state_def trip_def
  close_def notify_def record_outcome_def breaker_error_rate_def with_observer_def Let_def

lemma config_step [simp]: "config (breaker_step b e) = config b"
  by (cases e) (auto simp: breaker_defs split: breaker_state.splits option.splits)

lemma baseline_step [simp]: "baseline (breaker_step b e) = baseline b"
  by (cases e) (auto simp: breaker_defs split: breaker_state.splits option.splits)

lemma unat_plus_one_le: "unat (x + 1 :: 64 word) \<le> unat x + 1"
  by (simp add: unat_word_ariths)

lemma breaker_inv_with_clock: "breaker_inv (with_clock cfg now)"
  by (simp add: breaker_inv_def with_clock_def)

lemma breaker_inv_probe:
  "breaker_inv b \<Longrightarrow> state b = HalfOpen \<Longrightarrow> breaker_inv (fst (try_half_open_probe b t))"
  using unat_plus_one_le [of "half_open_probes b"]
  by (auto simp: breaker_inv_def try_half_open_probe_def notify_def Let_def)

lemma breaker_inv_check: "breaker_inv b \<Longrightarrow> breaker_inv (fst (check b t1 t2))"
proof -
  assume inv: "breaker_inv b"
  show ?thesis
  proof (cases "state b")
    case Closed
    with inv show ?thesis by (simp add: check_def)
  next
    case HalfOpen
    with inv show ?thesis by (simp add: check_def breaker_inv_probe)
  next
    case Open
    let ?h = "notify (OnStateChange Open HalfOpen ''open_elapsed'')
                (b\<lparr>state := HalfOpen, is_open_fast := False\<rparr>)"
    have "breaker_inv ?h" "state ?h = HalfOpen"
      using inv Open by (auto simp: breaker_inv_def notify_def)
    then have "breaker_inv (fst (try_half_open_probe ?h t2))" by (rule breaker_inv_probe)
    with inv Open show ?thesis by (simp add: check_def check_open_def cas_state_def Let_def)
  qed
qed

lemma breaker_inv_record: "breaker_inv b \<Longrightarrow> breaker_inv (record_outcome b out t1 t2)"
  by (auto simp: breaker_inv_def record_outcome_def trip_def close_def notify_def Let_def
      split: breaker_state.splits)

lemma breaker_inv_error_rate: "breaker_inv b \<Longrightarrow> breaker_inv (fst (breaker_error_rate b t))"
  by (simp add: breaker_inv_def breaker_error_rate_def Let_def)

lemma breaker_inv_install: "breaker_inv b \<Longrightarrow> breaker_inv (with_observer b obs)"
  by (simp add: breaker_inv_def with_observer_def split: option.splits)

lemma breaker_step_inv: "breaker_inv b \<Longrightarrow> breaker_inv (breaker_step b e)"
  by (cases e)
    (simp_all add: breaker_inv_check breaker_inv_record breaker_inv_error_rate breaker_inv_install)

interpretation breaker: invariant_machine breaker_step breaker_inv
  by unfold_locales (rule breaker_step_inv)

interpretation breaker_cfg: frame_machine breaker_step config
  by unfold_locales simp

section \<open>Admission in the half-open state\<close>

lemma half_open_check:
  assumes "enabled (config b)" and "state b = HalfOpen"
    and "elapsed_millis b t - probe_claimed_at_millis b < lease_millis (config b)"
  shows "unat (half_open_probes b) < half_open_max_probes (config b) \<Longrightarrow>
      check b t t2 = (b\<lparr>half_open_probes := half_open_probes b + 1,
        probe_claimed_at_millis := elapsed_millis b t,
        calls := calls b @ [OnProbeAdmission True]\<rparr>, Inr ())"
    and "half_open_max_probes (config b) \<le> unat (half_open_probes b) \<Longrightarrow>
      check b t t2 = (b\<lparr>calls := calls b @ [OnProbeAdmission False]\<rparr>,
        Inl \<lparr>retry_after = min HALF_OPEN_PROBE_BACKOFF (open_duration (config b))\<rparr>)"
  using assms by (simp_all add: check_def try_half_open_probe_def notify_def Let_def)

lemma elapsed_millis_update [simp]:
  "elapsed_millis (b\<lparr>half_open_probes := x\<rparr>) t = elapsed_millis b t"
  "elapsed_millis (b\<lparr>probe_claimed_at_millis := y\<rparr>) t = elapsed_millis b t"
  "elapsed_millis (b\<lparr>calls := z\<rparr>) t = elapsed_millis b t"
  by (simp_all add: elapsed_millis_def)

lemma half_open_admissions:
  assumes "enabled (config b)" and "state b = HalfOpen"
    and "unat (half_open_probes b) \<le> half_open_max_probes (config b)"
    and "half_open_max_probes (config b) < 2 ^ 64"
    and "\<And>t c. t \<in> set ts \<Longrightarrow> c \<in> insert (probe_claimed_at_millis b) (elapsed_millis b ` set ts) \<Longrightarrow>
      elapsed_millis b t - c < lease_millis (config b)"
  shows "length (filter admitted (check_all b ts)) =
    min (length ts) (half_open_max_probes (config b) - unat (half_open_probes b))"
  using assms
proof (induction ts arbitrary: b)
  case Nil
  then show ?case by simp
next
  case (Cons t ts)
  let ?p = "half_open_probes b" and ?m = "half_open_max_probes (config b)"
  have fresh: "elapsed_millis b t - probe_claimed_at_millis b < lease_millis (config b)"
    using Cons.prems(5) by simp
  show ?case
  proof (cases "unat ?p < ?m")
    case True
    let ?b = "b\<lparr>half_open_probes := ?p + 1, probe_claimed_at_millis := elapsed_millis b t,
               calls := calls b @ [OnProbeAdmission True]\<rparr>"
    have chk: "check b t t = (?b, Inr ())"
      by (rule half_open_check(1) [OF Cons.prems(1,2) fresh True])
    have up: "unat (?p + 1) = unat ?p + 1"
      using True Cons.prems(4) by (simp add: unat_word_ariths)
    have "length (filter admitted (check_all ?b ts)) =
        min (length ts) (half_open_max_probes (config ?b) - unat (half_open_probes ?b))"
      by (rule Cons.IH) (use Cons.prems True up in auto)
    with chk up True show ?thesis by simp
  next
    case False
    then have full: "?m \<le> unat ?p" by simp
    let ?b = "b\<lparr>calls := calls b @ [OnProbeAdmission False]\<rparr>"
    have chk: "check b t t = (?b, Inl \<lparr>retry_after = min HALF_OPEN_PROBE_BACKOFF (open_duration (config b))\<rparr>)"
      by (rule half_open_check(2) [OF Cons.prems(1,2) fresh full])
    have "length (filter admitted (check_all ?b ts)) =
        min (length ts) (half_open_max_probes (config ?b) - unat (half_open_probes ?b))"
      by (rule Cons.IH) (use Cons.prems in auto)
    with chk full show ?thesis by simp
  qed
qed

lemma record_closed_entries:
  assumes "enabled (config b)" and "state b = Closed"
  shows "entries (window (record_outcome b out t1 t2)) =
    entries (window_evict (window_push (window b) (out = Failure) t1) (window_duration (config b)) t1)"
  using assms by (simp add: record_outcome_def trip_def notify_def Let_def)

lemma record_closed_nonempty:
  assumes "enabled (config b)" and "state b = Closed"
  shows "entries (window (record_outcome b out t1 t2)) \<noteq> []"
  using assms
  by (auto simp: record_closed_entries entries_window_evict entries_window_push dropWhile_append3
      dropWhile_eq_Nil_conv)

lemma record_closed_state:
  assumes "enabled (config b)" and "state b = Closed"
  shows "state (record_outcome b out t1 t2) =
    (if should_trip (config b)
          (window_evict (window_push (window b) (out = Failure) t1) (window_duration (config b)) t1)
     then Open else Closed)"
  using assms by (simp add: record_outcome_def trip_def notify_def Let_def)

section \<open>Properties\<close>

text \<open>C7: after any sequence of \<open>check\<close>, \<open>record\<close>, \<open>error_rate\<close> and \<open>with_observer\<close> calls on
  a fresh breaker, with arbitrary clock readings, the failure counter of the window equals the
  number of failed samples in it, the window holds at most 10 000 samples, the lock-free mirror
  says open exactly in state \<open>Open\<close>, the probe counter is 0 outside \<open>HalfOpen\<close> and never
  exceeds the configured number of probes.\<close>

theorem breaker_run_invariant: "breaker_inv (foldl breaker_step (with_clock cfg t) ops)"
  by (rule breaker.run_inv) (rule breaker_inv_with_clock)

text \<open>C17: with the presets' threshold of one half, a sample recorded in the closed state opens
  the breaker exactly when the window then holds at least \<open>min_samples\<close> samples and at least half
  of them are failures, although the rate is a rounded floating-point quotient.\<close>

theorem breaker_trips_iff_half_failed:
  assumes "breaker_inv b" and "enabled (config b)" and "state b = Closed"
    and "error_rate_threshold (config b) = 1 / 2"
  shows "state (record_outcome b out t1 t2) = Open \<longleftrightarrow>
    (let es = entries (window (record_outcome b out t1 t2))
     in min_samples (config b) \<le> length es \<and> length es \<le> 2 * length (filter snd es))"
proof -
  let ?w = "window_evict (window_push (window b) (out = Failure) t1) (window_duration (config b)) t1"
  have w: "window_inv ?w" using assms(1) by (simp add: breaker_inv_def)
  have es: "entries (window (record_outcome b out t1 t2)) = entries ?w"
    using assms(2,3) by (rule record_closed_entries)
  have ne: "entries ?w \<noteq> []"
    using record_closed_nonempty [OF assms(2,3)] es by metis
  have "state (record_outcome b out t1 t2) = Open \<longleftrightarrow> should_trip (config b) ?w"
    by (simp add: record_closed_state [OF assms(2,3)])
  also have "\<dots> \<longleftrightarrow> min_samples (config b) \<le> length (entries ?w) \<and> 1 / 2 \<le> window_error_rate ?w"
    by (simp only: should_trip_def window_sample_count_def assms(4))
  finally show ?thesis
    by (simp only: window_error_rate_half [OF w ne] es Let_def)
qed

text \<open>One failure on a fresh breaker whose server preset asks for one sample.\<close>

theorem breaker_trips_iff_half_failed_witness:
  "state (record_outcome (with_clock (config_server\<lparr>min_samples := 1\<rparr>) 0) Failure 5 5) = Open"
proof -
  let ?b = "with_clock (config_server\<lparr>min_samples := 1\<rparr>) 0"
  have "enabled (config ?b)" "state ?b = Closed" "error_rate_threshold (config ?b) = 1 / 2"
    by (simp_all add: with_clock_def config_server_def)
  from breaker_trips_iff_half_failed [OF breaker_inv_with_clock this, of Failure 5 5]
  show ?thesis
    by (simp add: record_outcome_def with_clock_def config_server_def window_push_def window_new_def
        window_evict_def trip_def notify_def Let_def nanos_per_sec_def MAX_WINDOW_ENTRIES_def)
qed

text \<open>An open breaker refuses every request until the cool-down has passed, changes nothing
  while it refuses, and advertises exactly the rest of the cool-down, which is not zero.\<close>

theorem breaker_open_sheds:
  assumes "enabled (config b)" and "state b = Open"
    and "(elapsed_millis b t1 - opened_at_millis b) * nanos_per_milli < open_duration (config b)"
  shows "\<exists>r. check b t1 t2 = (b, Inl r) \<and> 0 < retry_after r \<and>
    retry_after r + (elapsed_millis b t1 - opened_at_millis b) * nanos_per_milli
      = open_duration (config b)"
  using assms by (simp add: check_def check_open_def Let_def)

theorem breaker_open_sheds_witness:
  "\<exists>r. check ((with_clock config_server 0)\<lparr>state := Open\<rparr>) 1000000 0
     = ((with_clock config_server 0)\<lparr>state := Open\<rparr>, Inl r)"
  using breaker_open_sheds [of "(with_clock config_server 0)\<lparr>state := Open\<rparr>" 1000000 0]
  by (auto simp: with_clock_def config_server_def elapsed_millis_def nanos_per_sec_def
      nanos_per_milli_def)

text \<open>C30: recovery. Once the cool-down has passed, the next request is admitted as the probe; when
  it succeeds the breaker is closed again with an empty window, and the request after that is
  admitted.\<close>

theorem breaker_recovers:
  assumes "breaker_inv b" and "enabled (config b)" and "state b = Open"
    and "open_duration (config b) \<le> (elapsed_millis b t1 - opened_at_millis b) * nanos_per_milli"
  shows "let r = check b t1 t2; b' = record_outcome (fst r) Success t3 t4
    in snd r = Inr () \<and> state (fst r) = HalfOpen \<and> state b' = Closed \<and> \<not> is_open b' \<and>
       entries (window b') = [] \<and> snd (check b' t5 t6) = Inr ()"
proof -
  have "half_open_probes b = 0" "1 \<le> half_open_max_probes (config b)"
    using assms(1,3) by (auto simp: breaker_inv_def)
  then have "snd (check b t1 t2) = Inr ()" "state (fst (check b t1 t2)) = HalfOpen"
    "config (fst (check b t1 t2)) = config b"
    using assms(2-4)
    by (simp_all add: check_def check_open_def cas_state_def try_half_open_probe_def notify_def Let_def)
  with assms(2) show ?thesis
    by (simp add: record_outcome_def close_def notify_def check_def is_open_def window_clear_def Let_def)
qed

theorem breaker_recovers_witness:
  "snd (check (trip (with_clock config_server 0) Closed ''trip'' 0) 10000000000 10000000000) = Inr ()"
proof -
  let ?b = "trip (with_clock config_server 0) Closed ''trip'' 0"
  have "breaker_inv ?b"
    using breaker_inv_with_clock [of config_server 0]
    by (simp add: breaker_inv_def trip_def notify_def Let_def)
  moreover have "enabled (config ?b)" "state ?b = Open"
    "open_duration (config ?b) \<le> (elapsed_millis ?b 10000000000 - opened_at_millis ?b) * nanos_per_milli"
    by (simp_all add: trip_def notify_def with_clock_def config_server_def elapsed_millis_def Let_def
        nanos_per_sec_def nanos_per_milli_def)
  ultimately show ?thesis
    using breaker_recovers [of ?b 10000000000 10000000000 0 0 0 0] by (simp add: Let_def)
qed

text \<open>In the half-open state, while no claim is older than the lease, a burst of requests is
  admitted exactly as often as there are free probe slots, and every other request is refused.\<close>

theorem half_open_admits_free_slots:
  assumes "breaker_inv b" and "enabled (config b)" and "state b = HalfOpen"
    and "half_open_max_probes (config b) < 2 ^ 64"
    and "\<forall>t \<in> set ts. \<forall>c \<in> insert (probe_claimed_at_millis b) (elapsed_millis b ` set ts).
      elapsed_millis b t - c < lease_millis (config b)"
  shows "length (filter admitted (check_all b ts)) =
    min (length ts) (half_open_max_probes (config b) - unat (half_open_probes b))"
  using assms by (intro half_open_admissions) (auto simp: breaker_inv_def)

theorem half_open_admits_free_slots_witness:
  "length (filter admitted (check_all (force_half_open (with_clock config_server 0)) [5, 6, 7])) = 1"
proof -
  let ?b = "force_half_open (with_clock config_server 0)"
  have "breaker_inv ?b"
    using breaker_inv_with_clock [of config_server 0]
    by (auto simp: breaker_inv_def force_half_open_def notify_def Let_def)
  then show ?thesis
    using half_open_admits_free_slots [of ?b "[5, 6, 7]"]
    by (simp add: force_half_open_def notify_def with_clock_def config_server_def elapsed_millis_def
        Let_def nanos_per_sec_def nanos_per_milli_def)
qed

text \<open>A probe that is never reported cannot strand the breaker. Whatever the probe counter
  says, a half-open breaker admits the next request once the last claim is as old as the
  cool-down, and the claim is renewed so that the one after it waits again.\<close>

theorem abandoned_probe_is_reclaimed:
  assumes "state b = HalfOpen"
    and "lease_millis (config b) \<le> elapsed_millis b t - probe_claimed_at_millis b"
  shows "snd (check b t t2) = Inr () \<and>
    (enabled (config b) \<longrightarrow> probe_claimed_at_millis (fst (check b t t2)) = elapsed_millis b t)"
  using assms by (simp add: check_def try_half_open_probe_def notify_def Let_def)

theorem abandoned_probe_is_reclaimed_witness:
  "snd (check ((with_clock config_server 0)\<lparr>state := HalfOpen, half_open_probes := - 1\<rparr>)
     10000000000 0) = Inr ()"
  using abandoned_probe_is_reclaimed
    [of "(with_clock config_server 0)\<lparr>state := HalfOpen, half_open_probes := - 1\<rparr>" 10000000000 0]
  by (simp add: with_clock_def config_server_def elapsed_millis_def nanos_per_sec_def
      nanos_per_milli_def)

end
