(* ===== verification/Delivery.thy ===== *)
theory Delivery
  imports Machines
begin

text \<open>
  The crate \<open>xai-message-delivery-core\<close>: envelopes and the operations an origin may use, opaque
  agent addresses and identities, and the lifecycle of messages that wait for a safe point of a
  turn. The lifecycle's type parameters (identity, source, content, completion, prompt id, epoch)
  are type variables here; the closures a caller passes (\<open>commit\<close>) are function arguments.
\<close>

unbundle bit_operations_syntax

section \<open>Envelopes and operations\<close>

datatype principal = Human | Agent | Runtime

datatype operation = Queue | Steer | Interject | InterruptAndSend

record ('g, 'c, 'i) delivery_envelope =
  env_principal :: principal
  env_operation :: operation
  env_content :: 'c
  env_identity :: 'i
  env_grant :: 'g

definition from_human :: "operation \<Rightarrow> 'c \<Rightarrow> 'i \<Rightarrow> 'g \<Rightarrow> ('g, 'c, 'i) delivery_envelope" where
  "from_human opn content ident grant =
     \<lparr>env_principal = Human, env_operation = opn, env_content = content, env_identity = ident,
      env_grant = grant\<rparr>"

definition from_agent :: "operation \<Rightarrow> 'c \<Rightarrow> 'i \<Rightarrow> 'g \<Rightarrow> ('g, 'c, 'i) delivery_envelope" where
  "from_agent opn content ident grant =
     \<lparr>env_principal = Agent, env_operation = opn, env_content = content, env_identity = ident,
      env_grant = grant\<rparr>"

definition envelope_into_parts ::
  "('g, 'c, 'i) delivery_envelope \<Rightarrow> operation \<times> 'c \<times> 'i \<times> 'g" where
  "envelope_into_parts e = (env_operation e, env_content e, env_identity e, env_grant e)"

type_synonym operation_set = "8 word"

definition QUEUE :: operation_set where
  "QUEUE = push_bit 0 1"

definition QUEUE_AND_STEER :: operation_set where
  "QUEUE_AND_STEER = push_bit 0 1 OR push_bit 1 1"

definition QUEUE_STEER_AND_INTERJECT :: operation_set where
  "QUEUE_STEER_AND_INTERJECT = push_bit 0 1 OR push_bit 1 1 OR push_bit 2 1"

definition operation_set_contains :: "operation_set \<Rightarrow> operation \<Rightarrow> bool" where
  "operation_set_contains s opn =
     (let flag = (case opn of Queue \<Rightarrow> push_bit 0 1 | Steer \<Rightarrow> push_bit 1 1
                  | Interject \<Rightarrow> push_bit 2 1 | InterruptAndSend \<Rightarrow> push_bit 3 1)
      in s AND flag \<noteq> 0)"

text \<open>\<open>Inr\<close> carries the authorized operation, \<open>Inl\<close> the unsupported one.\<close>

definition authorize_operation :: "operation_set \<Rightarrow> operation \<Rightarrow> operation + operation" where
  "authorize_operation allowed requested =
     (if operation_set_contains allowed requested then Inr requested else Inl requested)"

section \<open>Addresses\<close>

definition ADDRESS_PREFIX :: string where
  "ADDRESS_PREFIX = ''aa1.''"

datatype agent_address = AgentAddress (address_as_str: string)

definition is_presentable :: "string \<Rightarrow> bool" where
  "is_presentable token =
     (token \<noteq> [] \<and> \<not> eq_ignore_ascii_case token ''null'' \<and>
      \<not> eq_ignore_ascii_case token ''none'' \<and> \<not> eq_ignore_ascii_case token ''undefined'')"

definition address_mint :: "nat \<Rightarrow> agent_address" where
  "address_mint entropy = AgentAddress (ADDRESS_PREFIX @ hex entropy)"

definition address_parse :: "string \<Rightarrow> agent_address option" where
  "address_parse token =
     (let token = trim token
      in if \<not> is_presentable token then None else Some (AgentAddress token))"

definition mint_child_address :: "bool \<Rightarrow> nat \<Rightarrow> agent_address option" where
  "mint_child_address workflow entropy =
     (if workflow then None else Some (address_mint entropy))"

definition advertised_address :: "string option \<Rightarrow> bool \<Rightarrow> string option" where
  "advertised_address stored workflow =
     (if workflow then None
      else case stored of
             None \<Rightarrow> None
           | Some token \<Rightarrow> if address_parse token \<noteq> None then Some token else None)"

datatype address_presence = Active | PendingStart | Gone

record address_candidate =
  stored_address :: "string option"
  session_id :: string
  owner_match :: bool
  generation_current :: bool
  workflow :: bool
  presence :: address_presence

datatype address_decision = Owned address_presence | RawSessionId | Foreign | Stale
  | WorkflowNotAddressable | Unresolved

definition resolve_address :: "string \<Rightarrow> address_candidate option \<Rightarrow> address_decision" where
  "resolve_address presented candidate =
     (case candidate of
        None \<Rightarrow> Unresolved
      | Some c \<Rightarrow>
          (let presented = trim presented;
               address_match = (stored_address c = Some presented)
           in if session_id c = presented \<and> \<not> address_match then RawSessionId
              else if \<not> address_match then Unresolved
              else if workflow c then WorkflowNotAddressable
              else if \<not> owner_match c then Foreign
              else if \<not> generation_current c \<or> presence c = Gone then Stale
              else Owned (presence c)))"

section \<open>Identities\<close>

definition AGENT_PREFIX :: string where
  "AGENT_PREFIX = ''ag1.''"

definition ATTEMPT_PREFIX :: string where
  "ATTEMPT_PREFIX = ''at1.''"

definition UUID_HYPHENS :: "nat list" where
  "UUID_HYPHENS = [8, 13, 18, 23]"

datatype agent_id = AgentId (agent_as_str: string)

datatype attempt_id = AttemptId (attempt_as_str: string)

definition is_lower_hex :: "char \<Rightarrow> bool" where
  "is_lower_hex c = (is_ascii_digit c \<or> (97 \<le> byte c \<and> byte c \<le> 102))"

definition is_uuid_v7 :: "string \<Rightarrow> bool" where
  "is_uuid_v7 token =
     (length token = 36 \<and>
      list_all (\<lambda>(index, c). if index \<in> set UUID_HYPHENS then c = CHR ''-'' else is_lower_hex c)
        (enumerate 0 token) \<and>
      token ! 14 = CHR ''7'' \<and>
      token ! 19 \<in> set ''89ab'')"

definition parse_prefixed :: "string \<Rightarrow> string \<Rightarrow> string option" where
  "parse_prefixed token pfx =
     (let token = trim token
      in case strip_prefix token pfx of
           None \<Rightarrow> None
         | Some rest \<Rightarrow>
             if rest = [] \<or> \<not> list_all is_lower_hex rest then None else Some token)"

definition agent_id_mint :: "nat \<Rightarrow> agent_id" where
  "agent_id_mint entropy = AgentId (AGENT_PREFIX @ hex entropy)"

definition agent_id_parse :: "string \<Rightarrow> agent_id option" where
  "agent_id_parse token =
     (let token = trim token
      in if is_uuid_v7 token then Some (AgentId token)
         else map_option AgentId (parse_prefixed token AGENT_PREFIX))"

definition agent_id_from_uuid_v7 :: "string \<Rightarrow> agent_id option" where
  "agent_id_from_uuid_v7 token = (if is_uuid_v7 token then Some (AgentId token) else None)"

definition attempt_id_mint :: "nat \<Rightarrow> attempt_id" where
  "attempt_id_mint entropy = AttemptId (ATTEMPT_PREFIX @ hex entropy)"

definition attempt_id_parse :: "string \<Rightarrow> attempt_id option" where
  "attempt_id_parse token = map_option AttemptId (parse_prefixed token ATTEMPT_PREFIX)"

datatype identity_action = Start agent_id attempt_id | Resume agent_id attempt_id
  | Fork agent_id attempt_id

definition next_identity :: "agent_id option \<Rightarrow> bool \<Rightarrow> nat \<Rightarrow> nat \<Rightarrow> identity_action" where
  "next_identity previous fork agent_entropy attempt_entropy =
     (let attempt = attempt_id_mint attempt_entropy
      in case previous of
           None \<Rightarrow> Start (agent_id_mint agent_entropy) attempt
         | Some agent \<Rightarrow>
             if fork then Fork (agent_id_mint agent_entropy) attempt else Resume agent attempt)"

section \<open>The lifecycle of turn-bound messages\<close>

record ('p, 'e) turn_binding =
  prompt_id :: 'p
  epoch :: 'e

record ('i, 's, 'c) delivery_message =
  identity :: 'i
  source :: 's
  content :: 'c

record ('i, 's, 'c, 'k, 'p, 'e) owned_delivery =
  binding :: "('p, 'e) turn_binding"
  message :: "('i, 's, 'c) delivery_message"
  completion :: 'k

datatype ('i, 's, 'c, 'k, 'p, 'e) delivery_slot =
    Pending (owned: "('i, 's, 'c, 'k, 'p, 'e) owned_delivery")
  | Projecting (owned: "('i, 's, 'c, 'k, 'p, 'e) owned_delivery")
  | Delivered (owned: "('i, 's, 'c, 'k, 'p, 'e) owned_delivery")

datatype terminal_cause = Completion | SoftCancel | Rewind | HardTeardown | ActorDrop

definition falls_back :: "terminal_cause \<Rightarrow> bool" where
  "falls_back c = (c \<in> {Completion, SoftCancel, Rewind})"

datatype ('p, 'e) terminal_target = Turn "('p, 'e) turn_binding" | All

record ('i, 's, 'c, 'k, 'p, 'e) terminal_transition =
  fallbacks :: "('i, 's, 'c, 'k, 'p, 'e) owned_delivery list"
  completions :: "('i, 's, 'c, 'k, 'p, 'e) owned_delivery list"

record ('i, 's, 'c, 'k, 'p, 'e) lifecycle =
  slots :: "('i, 's, 'c, 'k, 'p, 'e) delivery_slot list"

definition lifecycle_default :: "('i, 's, 'c, 'k, 'p, 'e) lifecycle" where
  "lifecycle_default = \<lparr>slots = []\<rparr>"

definition contains_identity :: "('i, 's, 'c, 'k, 'p, 'e) lifecycle \<Rightarrow> 'i \<Rightarrow> bool" where
  "contains_identity l ident = list_ex (\<lambda>slot. identity (message (owned slot)) = ident) (slots l)"

definition admit_pending ::
  "('i, 's, 'c, 'k, 'p, 'e) lifecycle \<Rightarrow> ('p, 'e) turn_binding \<Rightarrow> ('i, 's, 'c) delivery_message \<Rightarrow>
   'k \<Rightarrow> ('i, 's, 'c, 'k, 'p, 'e) lifecycle \<times> (('i, 's, 'c) delivery_message + unit)" where
  "admit_pending l b m k =
     (if list_ex (\<lambda>slot. identity (message (owned slot)) = identity m) (slots l)
      then (l, Inl m)
      else (l\<lparr>slots := slots l @ [Pending \<lparr>binding = b, message = m, completion = k\<rparr>]\<rparr>, Inr ()))"

fun pending_of ::
  "('p, 'e) turn_binding \<Rightarrow> ('i, 's, 'c, 'k, 'p, 'e) delivery_slot \<Rightarrow>
   ('i, 's, 'c) delivery_message option" where
  "pending_of b (Pending od) = (if binding od = b then Some (message od) else None)"
| "pending_of b _ = None"

definition pending_messages ::
  "('i, 's, 'c, 'k, 'p, 'e) lifecycle \<Rightarrow> ('p, 'e) turn_binding \<Rightarrow>
   ('i, 's, 'c) delivery_message list" where
  "pending_messages l b = List.map_filter (pending_of b) (slots l)"

fun project_slot ::
  "('p, 'e) turn_binding \<Rightarrow> ('i, 's, 'c, 'k, 'p, 'e) delivery_slot \<Rightarrow>
   ('i, 's, 'c, 'k, 'p, 'e) delivery_slot" where
  "project_slot b (Pending od) = (if binding od = b then Projecting od else Pending od)"
| "project_slot b slot = slot"

definition begin_delivery ::
  "('i, 's, 'c, 'k, 'p, 'e) lifecycle \<Rightarrow> ('p, 'e) turn_binding \<Rightarrow>
   ('i, 's, 'c, 'k, 'p, 'e) lifecycle \<times> ('i, 's, 'c) delivery_message list" where
  "begin_delivery l b =
     (let messages = pending_messages l b
      in if messages = [] then (l, messages)
         else (l\<lparr>slots := map (project_slot b) (slots l)\<rparr>, messages))"

fun projecting_of ::
  "('p, 'e) turn_binding \<Rightarrow> ('i, 's, 'c, 'k, 'p, 'e) delivery_slot \<Rightarrow>
   ('i, 's, 'c) delivery_message option" where
  "projecting_of b (Projecting od) = (if binding od = b then Some (message od) else None)"
| "projecting_of b _ = None"

fun deliver_slot ::
  "('p, 'e) turn_binding \<Rightarrow> ('i, 's, 'c, 'k, 'p, 'e) delivery_slot \<Rightarrow>
   ('i, 's, 'c, 'k, 'p, 'e) delivery_slot" where
  "deliver_slot b (Projecting od) = (if binding od = b then Delivered od else Projecting od)"
| "deliver_slot b slot = slot"

definition finish_delivery ::
  "('i, 's, 'c, 'k, 'p, 'e) lifecycle \<Rightarrow> ('p, 'e) turn_binding \<Rightarrow>
   (('i, 's, 'c) delivery_message list \<Rightarrow> 'err + unit) \<Rightarrow>
   ('i, 's, 'c, 'k, 'p, 'e) lifecycle \<times> ('err + ('i, 's, 'c) delivery_message list)" where
  "finish_delivery l b commit =
     (let messages = List.map_filter (projecting_of b) (slots l)
      in if messages = [] then (l, Inr messages)
         else case commit messages of
                Inl e \<Rightarrow> (l, Inl e)
              | Inr _ \<Rightarrow> (l\<lparr>slots := map (deliver_slot b) (slots l)\<rparr>, Inr messages))"

definition target_matches ::
  "('p, 'e) terminal_target \<Rightarrow> ('i, 's, 'c, 'k, 'p, 'e) delivery_slot \<Rightarrow> bool" where
  "target_matches target slot =
     (case target of Turn b \<Rightarrow> binding (owned slot) = b | All \<Rightarrow> True)"

text \<open>The \<open>filter_map\<close> of \<open>transition\<close>: the kept slots, the fallbacks and the completions.\<close>

fun transition_loop ::
  "('p, 'e) terminal_target \<Rightarrow> terminal_cause \<Rightarrow> ('i, 's, 'c, 'k, 'p, 'e) delivery_slot list \<Rightarrow>
   ('i, 's, 'c, 'k, 'p, 'e) terminal_transition \<Rightarrow>
   ('i, 's, 'c, 'k, 'p, 'e) delivery_slot list \<times> ('i, 's, 'c, 'k, 'p, 'e) terminal_transition" where
  "transition_loop target cause [] tr = ([], tr)"
| "transition_loop target cause (slot # rest) tr =
     (if \<not> target_matches target slot
      then (case transition_loop target cause rest tr of (ss, tr') \<Rightarrow> (slot # ss, tr'))
      else transition_loop target cause rest
             (case slot of
                Pending od \<Rightarrow>
                  if falls_back cause then tr\<lparr>fallbacks := fallbacks tr @ [od]\<rparr>
                  else tr\<lparr>completions := completions tr @ [od]\<rparr>
              | Projecting od \<Rightarrow> tr\<lparr>completions := completions tr @ [od]\<rparr>
              | Delivered od \<Rightarrow> tr\<lparr>completions := completions tr @ [od]\<rparr>))"

definition transition ::
  "('i, 's, 'c, 'k, 'p, 'e) lifecycle \<Rightarrow> ('p, 'e) terminal_target \<Rightarrow> terminal_cause \<Rightarrow>
   ('i, 's, 'c, 'k, 'p, 'e) lifecycle \<times> ('i, 's, 'c, 'k, 'p, 'e) terminal_transition" where
  "transition l target cause =
     (case transition_loop target cause (slots l) \<lparr>fallbacks = [], completions = []\<rparr> of
        (ss, tr) \<Rightarrow> (l\<lparr>slots := ss\<rparr>, tr))"

section \<open>Runs of the lifecycle\<close>

datatype ('i, 's, 'c, 'k, 'p, 'e) lifecycle_op =
    Admit "('p, 'e) turn_binding" "('i, 's, 'c) delivery_message" 'k
  | Begin "('p, 'e) turn_binding"
  | Finish "('p, 'e) turn_binding" "('i, 's, 'c) delivery_message list \<Rightarrow> unit + unit"
  | Terminate "('p, 'e) terminal_target" terminal_cause

fun lifecycle_step ::
  "('i, 's, 'c, 'k, 'p, 'e) lifecycle \<Rightarrow> ('i, 's, 'c, 'k, 'p, 'e) lifecycle_op \<Rightarrow>
   ('i, 's, 'c, 'k, 'p, 'e) lifecycle" where
  "lifecycle_step l (Admit b m k) = fst (admit_pending l b m k)"
| "lifecycle_step l (Begin b) = fst (begin_delivery l b)"
| "lifecycle_step l (Finish b commit) = fst (finish_delivery l b commit)"
| "lifecycle_step l (Terminate target cause) = fst (transition l target cause)"

text \<open>What a call takes in, what it hands back, and what it commits to the conversation.\<close>

fun taken_in ::
  "('i, 's, 'c, 'k, 'p, 'e) lifecycle \<Rightarrow> ('i, 's, 'c, 'k, 'p, 'e) lifecycle_op \<Rightarrow>
   ('i, 's, 'c, 'k, 'p, 'e) owned_delivery multiset" where
  "taken_in l (Admit b m k) =
     (if snd (admit_pending l b m k) = Inr ()
      then {#\<lparr>binding = b, message = m, completion = k\<rparr>#} else {#})"
| "taken_in l _ = {#}"

fun handed_back ::
  "('i, 's, 'c, 'k, 'p, 'e) lifecycle \<Rightarrow> ('i, 's, 'c, 'k, 'p, 'e) lifecycle_op \<Rightarrow>
   ('i, 's, 'c, 'k, 'p, 'e) owned_delivery multiset" where
  "handed_back l (Terminate target cause) =
     mset (fallbacks (snd (transition l target cause))) +
     mset (completions (snd (transition l target cause)))"
| "handed_back l _ = {#}"

fun committed ::
  "('i, 's, 'c, 'k, 'p, 'e) lifecycle \<Rightarrow> ('i, 's, 'c, 'k, 'p, 'e) lifecycle_op \<Rightarrow>
   ('i, 's, 'c) delivery_message multiset" where
  "committed l (Finish b commit) =
     (case snd (finish_delivery l b commit) of Inl _ \<Rightarrow> {#} | Inr ms \<Rightarrow> mset ms)"
| "committed l _ = {#}"

definition slot_ids :: "('i, 's, 'c, 'k, 'p, 'e) lifecycle \<Rightarrow> 'i list" where
  "slot_ids l = map (\<lambda>slot. identity (message (owned slot))) (slots l)"

fun is_delivered :: "('i, 's, 'c, 'k, 'p, 'e) delivery_slot \<Rightarrow> bool" where
  "is_delivered (Delivered od) = True"
| "is_delivered _ = False"

fun is_pending :: "('i, 's, 'c, 'k, 'p, 'e) delivery_slot \<Rightarrow> bool" where
  "is_pending (Pending od) = True"
| "is_pending _ = False"

abbreviation all_owned where
  "all_owned l \<equiv> mset (map owned (slots l))"

abbreviation undelivered where
  "undelivered l \<equiv> mset (map (\<lambda>slot. message (owned slot)) (filter (\<lambda>slot. \<not> is_delivered slot) (slots l)))"

text \<open>Undelivered messages leave the lifecycle when they are committed or their turn ends.\<close>

fun undelivered_out ::
  "('i, 's, 'c, 'k, 'p, 'e) lifecycle \<Rightarrow> ('i, 's, 'c, 'k, 'p, 'e) lifecycle_op \<Rightarrow>
   ('i, 's, 'c) delivery_message multiset" where
  "undelivered_out l (Terminate target cause) =
     mset (map (\<lambda>slot. message (owned slot))
       (filter (\<lambda>slot. target_matches target slot \<and> \<not> is_delivered slot) (slots l)))"
| "undelivered_out l e = committed l e"

section \<open>Slots\<close>

lemma owned_project_slot [simp]: "owned (project_slot b slot) = owned slot"
  by (cases slot) auto

lemma owned_deliver_slot [simp]: "owned (deliver_slot b slot) = owned slot"
  by (cases slot) auto

lemma is_delivered_project_slot [simp]: "is_delivered (project_slot b slot) = is_delivered slot"
  by (cases slot) auto

lemma transition_loop_eq:
  "transition_loop target cause ss tr =
     (filter (\<lambda>slot. \<not> target_matches target slot) ss,
      \<lparr>fallbacks = fallbacks tr @ map owned
         (filter (\<lambda>slot. target_matches target slot \<and> is_pending slot \<and> falls_back cause) ss),
       completions = completions tr @ map owned
         (filter (\<lambda>slot. target_matches target slot \<and> \<not> (is_pending slot \<and> falls_back cause)) ss)\<rparr>)"
  by (induction target cause ss tr rule: transition_loop.induct)
    (auto split: delivery_slot.splits)

lemma transition_eq:
  "transition l target cause =
     (l\<lparr>slots := filter (\<lambda>slot. \<not> target_matches target slot) (slots l)\<rparr>,
      \<lparr>fallbacks = map owned
         (filter (\<lambda>slot. target_matches target slot \<and> is_pending slot \<and> falls_back cause) (slots l)),
       completions = map owned
         (filter (\<lambda>slot. target_matches target slot \<and> \<not> (is_pending slot \<and> falls_back cause))
           (slots l))\<rparr>)"
  by (simp add: transition_def transition_loop_eq)

lemma slots_begin: "slots (fst (begin_delivery l b)) = map (project_slot b) (slots l)"
proof (cases "pending_messages l b = []")
  case True
  then have none: "pending_of b slot = None" if "slot \<in> set (slots l)" for slot
    using that by (auto simp: pending_messages_def map_filter_def filter_empty_conv)
  have "project_slot b slot = slot" if "slot \<in> set (slots l)" for slot
    using none [OF that] by (cases slot) (auto split: if_splits)
  then have "map (project_slot b) (slots l) = slots l" by (simp add: map_idI)
  with True show ?thesis by (simp add: begin_delivery_def)
next
  case False
  then show ?thesis by (simp add: begin_delivery_def Let_def)
qed

lemma finish_split:
  "finish_delivery l b commit =
     (let ms = List.map_filter (projecting_of b) (slots l)
      in if ms \<noteq> [] \<and> (\<exists>e. commit ms = Inl e) then (l, Inl (projl (commit ms)))
         else (l\<lparr>slots := map (deliver_slot b) (slots l)\<rparr>, Inr ms))"
proof (cases "List.map_filter (projecting_of b) (slots l) = []")
  case True
  then have none: "projecting_of b slot = None" if "slot \<in> set (slots l)" for slot
    using that by (auto simp: map_filter_def filter_empty_conv)
  have "deliver_slot b slot = slot" if "slot \<in> set (slots l)" for slot
    using none [OF that] by (cases slot) (auto split: if_splits)
  then have "map (deliver_slot b) (slots l) = slots l" by (simp add: map_idI)
  with True show ?thesis by (simp add: finish_delivery_def Let_def)
next
  case False
  then show ?thesis by (auto simp: finish_delivery_def Let_def split: sum.splits)
qed

lemma undelivered_deliver:
  "mset (map (\<lambda>slot. message (owned slot)) (filter (\<lambda>slot. \<not> is_delivered slot) (map (deliver_slot b) ss)))
   + mset (List.map_filter (projecting_of b) ss)
   = mset (map (\<lambda>slot. message (owned slot)) (filter (\<lambda>slot. \<not> is_delivered slot) ss))"
proof (induction ss)
  case Nil
  then show ?case by (simp add: map_filter_simps)
next
  case (Cons slot ss)
  then show ?case by (cases slot) (auto simp: map_filter_simps)
qed

lemma pending_then_projecting:
  assumes "\<forall>slot \<in> set ss. projecting_of b slot = None"
  shows "List.map_filter (projecting_of b) (map (project_slot b) ss) = List.map_filter (pending_of b) ss"
  using assms
proof (induction ss)
  case Nil
  then show ?case by (simp add: map_filter_simps)
next
  case (Cons slot ss)
  then show ?case by (cases slot) (auto simp: map_filter_simps split: if_splits)
qed

section \<open>The lifecycle's contracts\<close>

lemma slot_ids_step: "distinct (slot_ids l) \<Longrightarrow> distinct (slot_ids (lifecycle_step l e))"
proof (cases e)
  case (Admit b m k)
  assume "distinct (slot_ids l)"
  with Admit show ?thesis by (auto simp: slot_ids_def admit_pending_def list_ex_iff)
next
  case (Terminate target cause)
  assume "distinct (slot_ids l)"
  with Terminate show ?thesis
    by (simp add: slot_ids_def transition_eq distinct_map_filter)
qed (auto simp: slot_ids_def slots_begin finish_split Let_def comp_def)

lemma custody_balance:
  "all_owned (lifecycle_step l e) + handed_back l e = all_owned l + taken_in l e"
proof (cases e)
  case (Terminate target cause)
  let ?out = "filter (\<lambda>slot. target_matches target slot) (slots l)"
  have "mset (map owned (filter (\<lambda>slot. is_pending slot \<and> falls_back cause) ?out)) +
      mset (map owned (filter (\<lambda>slot. \<not> (is_pending slot \<and> falls_back cause)) ?out))
      = mset (map owned ?out)"
    by (rule mset_map_filter_split)
  then have "handed_back l e = mset (map owned ?out)"
    using Terminate by (simp add: transition_eq conj_commute conj_left_commute)
  with Terminate show ?thesis
    using mset_map_filter_split [of owned "\<lambda>slot. target_matches target slot" "slots l"]
    by (simp add: transition_eq ac_simps)
qed (auto simp: admit_pending_def slots_begin finish_split Let_def comp_def multiset.map_comp)

lemma undelivered_balance:
  "undelivered (lifecycle_step l e) + undelivered_out l e =
   undelivered l + image_mset message (taken_in l e)"
proof (cases e)
  case (Terminate target cause)
  have "mset (map (\<lambda>slot. message (owned slot))
        (filter (\<lambda>slot. target_matches target slot) (filter (\<lambda>slot. \<not> is_delivered slot) (slots l)))) +
      mset (map (\<lambda>slot. message (owned slot))
        (filter (\<lambda>slot. \<not> target_matches target slot) (filter (\<lambda>slot. \<not> is_delivered slot) (slots l))))
      = undelivered l"
    by (rule mset_map_filter_split)
  with Terminate show ?thesis
    by (simp add: transition_eq conj_commute ac_simps)
next
  case (Finish b commit)
  then show ?thesis
    using undelivered_deliver [of b "slots l"]
    by (auto simp: finish_split Let_def)
qed (auto simp: admit_pending_def slots_begin filter_map comp_def)

interpretation ids: invariant_machine lifecycle_step "\<lambda>l. distinct (slot_ids l)"
  by unfold_locales (rule slot_ids_step)

interpretation owners: custody lifecycle_step all_owned taken_in handed_back
  by unfold_locales (rule custody_balance)

interpretation messages: custody lifecycle_step undelivered
  "\<lambda>l e. image_mset message (taken_in l e)" undelivered_out
  by unfold_locales (rule undelivered_balance)

lemma committed_le_out: "committed l e \<subseteq># undelivered_out l e"
  by (cases e) auto

section \<open>Minted tokens\<close>

lemma byte_char_of_small: "n < 256 \<Longrightarrow> byte (char_of n) = n"
  by (simp add: of_char_of)

lemma is_lower_hex_digit: "d < 16 \<Longrightarrow> is_lower_hex (hex_digit d)"
  by (simp add: hex_digit_def is_lower_hex_def is_ascii_digit_def byte_char_of_small)

lemma hex_nonempty [simp]: "hex n \<noteq> []"
  by (subst hex.simps) simp

lemma hex_lower: "list_all is_lower_hex (hex n)"
proof (induction n rule: hex.induct)
  case (1 n)
  then show ?case
    by (subst hex.simps) (auto simp: is_lower_hex_digit)
qed

definition unhex_digit :: "char \<Rightarrow> nat" where
  "unhex_digit c = (if is_ascii_digit c then byte c - 48 else byte c - 87)"

definition unhex :: "string \<Rightarrow> nat" where
  "unhex s = foldl (\<lambda>n c. 16 * n + unhex_digit c) 0 s"

lemma unhex_digit_hex [simp]: "d < 16 \<Longrightarrow> unhex_digit (hex_digit d) = d"
  by (auto simp: unhex_digit_def hex_digit_def is_ascii_digit_def byte_char_of_small)

lemma unhex_hex [simp]: "unhex (hex n) = n"
proof (induction n rule: hex.induct)
  case (1 n)
  show ?case
  proof (cases "n < 16")
    case True
    then show ?thesis by (subst hex.simps) (simp add: unhex_def)
  next
    case False
    with "1.IH" have "unhex (hex (n div 16)) = n div 16" by simp
    with False show ?thesis by (subst hex.simps) (simp add: unhex_def)
  qed
qed

lemma hex_inject: "hex m = hex n \<longleftrightarrow> m = n"
  by (metis unhex_hex)

lemma is_lower_hex_visible: "is_lower_hex c \<Longrightarrow> byte c < 128 \<and> \<not> is_ascii_ws c"
  by (auto simp: is_lower_hex_def is_ascii_digit_def is_ascii_ws_def)

lemma last_hex_visible: "byte (last (hex n)) < 128 \<and> \<not> is_ascii_ws (last (hex n))"
proof -
  have "is_lower_hex (last (hex n))" using hex_lower [of n] by (simp add: list_all_iff)
  then show ?thesis by (rule is_lower_hex_visible)
qed

lemma trim_minted:
  assumes "pfx \<noteq> []" and "byte (hd pfx) < 128" and "\<not> is_ascii_ws (hd pfx)"
  shows "trim (pfx @ hex n) = pfx @ hex n"
  using assms last_hex_visible [of n] by (intro trim_visible) auto

lemma parse_prefixed_minted:
  assumes "pfx \<noteq> []" and "byte (hd pfx) < 128" and "\<not> is_ascii_ws (hd pfx)"
  shows "parse_prefixed (pfx @ hex n) pfx = Some (pfx @ hex n)"
  by (simp add: parse_prefixed_def trim_minted [OF assms] strip_prefix_def hex_lower)

lemma not_uuid_minted: "\<not> is_uuid_v7 (''ag1.'' @ hex n)"
proof
  assume uuid: "is_uuid_v7 (''ag1.'' @ hex n)"
  then have len: "length (''ag1.'' @ hex n) = 36" by (simp add: is_uuid_v7_def)
  have "(3, (''ag1.'' @ hex n) ! 3) \<in> set (enumerate 0 (''ag1.'' @ hex n))"
    using len by (simp add: in_set_enumerate_eq)
  with uuid have "is_lower_hex ((''ag1.'' @ hex n) ! 3)"
    by (auto simp: is_uuid_v7_def list_all_iff UUID_HYPHENS_def)
  then show False by (simp add: nth_append is_lower_hex_def is_ascii_digit_def)
qed

section \<open>Properties\<close>

text \<open>C8: nothing is lost and nothing is copied. After any sequence of admissions, deliveries and
  terminal transitions on a fresh lifecycle, every delivery that was admitted is either still in a
  slot or was handed back exactly once, as a fallback or as a completion.\<close>

theorem lifecycle_custody:
  "all_owned (foldl lifecycle_step lifecycle_default ops)
     + run_total lifecycle_step handed_back lifecycle_default ops
   = run_total lifecycle_step taken_in lifecycle_default ops"
  using owners.run_balance [of lifecycle_default ops] by (simp add: lifecycle_default_def)

text \<open>C19: a message is committed to the conversation at most once per admission, whatever the
  order of the calls and whatever the commits answer.\<close>

theorem lifecycle_commits_at_most_once:
  "run_total lifecycle_step committed lifecycle_default ops
   \<subseteq># run_total lifecycle_step (\<lambda>l e. image_mset message (taken_in l e)) lifecycle_default ops"
proof -
  have "run_total lifecycle_step committed lifecycle_default ops
      \<subseteq># run_total lifecycle_step undelivered_out lifecycle_default ops"
    by (rule run_total_mono) (rule committed_le_out)
  also have "\<dots> \<subseteq># run_total lifecycle_step (\<lambda>l e. image_mset message (taken_in l e)) lifecycle_default ops"
    by (rule messages.handed_out_came_in) (simp add: lifecycle_default_def)
  finally show ?thesis .
qed

text \<open>No two live slots ever carry the same identity.\<close>

theorem lifecycle_identities_distinct:
  "distinct (slot_ids (foldl lifecycle_step lifecycle_default ops))"
  by (rule ids.run_inv) (simp add: slot_ids_def lifecycle_default_def)

text \<open>C31: ending one turn leaves the slots of every other turn as they were; of the turn's own
  messages exactly those that were never projected fall back, and only for the causes that allow
  it, while all others are completions; both keep the order of admission.\<close>

theorem transition_splits_the_turn:
  "transition l (Turn b) cause =
     (l\<lparr>slots := filter (\<lambda>slot. binding (owned slot) \<noteq> b) (slots l)\<rparr>,
      \<lparr>fallbacks = (if cause \<in> {Completion, SoftCancel, Rewind}
         then map owned (filter (\<lambda>slot. is_pending slot \<and> binding (owned slot) = b) (slots l)) else []),
       completions = map owned (filter (\<lambda>slot. binding (owned slot) = b \<and>
         (is_pending slot \<longrightarrow> cause \<in> {HardTeardown, ActorDrop})) (slots l))\<rparr>)"
proof -
  have "(is_pending slot \<longrightarrow> \<not> falls_back cause) \<longleftrightarrow>
      (is_pending slot \<longrightarrow> cause \<in> {HardTeardown, ActorDrop})"
    for slot :: "('a, 'b, 'c, 'd, 'e, 'f) delivery_slot"
    by (cases cause) (simp_all add: falls_back_def)
  then show ?thesis
    by (auto simp: transition_eq target_matches_def falls_back_def conj_commute intro!: filter_cong)
qed

theorem transition_splits_the_turn_witness:
  "completions (snd (transition
      \<lparr>slots = [Delivered \<lparr>binding = \<lparr>prompt_id = 1, epoch = 1\<rparr>,
         message = \<lparr>identity = 7, source = 0, content = ''x''\<rparr>, completion = ()\<rparr>]\<rparr>
      (Turn \<lparr>prompt_id = 1, epoch = 1\<rparr>) Completion))
   = [\<lparr>binding = \<lparr>prompt_id = (1::nat), epoch = (1::nat)\<rparr>,
       message = \<lparr>identity = (7::nat), source = (0::nat), content = ''x''\<rparr>, completion = ()\<rparr>]"
  by (simp add: transition_splits_the_turn)

text \<open>A delivery that begins and then finishes commits exactly the turn's pending messages in
  order of admission; when the commit fails nothing changes, so it can be tried again.\<close>

theorem begin_then_finish:
  assumes "\<forall>slot \<in> set (slots l). projecting_of b slot = None"
    and "pending_messages l b \<noteq> []"
  shows "finish_delivery (fst (begin_delivery l b)) b commit =
    (case commit (pending_messages l b) of
       Inl e \<Rightarrow> (fst (begin_delivery l b), Inl e)
     | Inr _ \<Rightarrow> (l\<lparr>slots := map (deliver_slot b \<circ> project_slot b) (slots l)\<rparr>,
         Inr (pending_messages l b)))"
proof -
  have "List.map_filter (projecting_of b) (slots (fst (begin_delivery l b))) = pending_messages l b"
    by (simp add: slots_begin pending_then_projecting [OF assms(1)] pending_messages_def)
  with assms(2) show ?thesis
    by (auto simp: finish_delivery_def begin_delivery_def Let_def split: sum.splits)
qed

theorem begin_then_finish_witness:
  "snd (finish_delivery (fst (begin_delivery
      \<lparr>slots = [Pending \<lparr>binding = \<lparr>prompt_id = 1::nat, epoch = 1::nat\<rparr>,
         message = \<lparr>identity = 7, source = 0, content = ''x''\<rparr>, completion = ()\<rparr>]\<rparr>
      \<lparr>prompt_id = 1::nat, epoch = 1::nat\<rparr>)) \<lparr>prompt_id = 1::nat, epoch = 1::nat\<rparr> (\<lambda>_. Inr () :: nat + unit))
   = Inr [\<lparr>identity = (7::nat), source = (0::nat), content = ''x''\<rparr>]"
proof -
  let ?b = "\<lparr>prompt_id = 1::nat, epoch = 1::nat\<rparr>"
  let ?l = "\<lparr>slots = [Pending \<lparr>binding = ?b,
      message = \<lparr>identity = 7::nat, source = 0::nat, content = ''x''\<rparr>, completion = ()\<rparr>]\<rparr>"
  have "\<forall>slot \<in> set (slots ?l). projecting_of ?b slot = None" by simp
  moreover have p: "pending_messages ?l ?b = [\<lparr>identity = 7, source = 0, content = ''x''\<rparr>]"
    by (simp add: pending_messages_def map_filter_simps)
  ultimately show ?thesis
    using begin_then_finish [of ?l ?b "\<lambda>_. Inr () :: nat + unit"] by simp
qed

text \<open>A minted address, agent id or attempt id parses back to itself, different entropy gives
  different tokens, and the three kinds of token are never mistaken for one another by the agent
  and attempt parsers.\<close>

theorem minted_tokens_round_trip:
  "address_parse (address_as_str (address_mint n)) = Some (address_mint n) \<and>
   agent_id_parse (agent_as_str (agent_id_mint n)) = Some (agent_id_mint n) \<and>
   attempt_id_parse (attempt_as_str (attempt_id_mint n)) = Some (attempt_id_mint n) \<and>
   (address_mint m = address_mint n \<longleftrightarrow> m = n) \<and> (agent_id_mint m = agent_id_mint n \<longleftrightarrow> m = n) \<and>
   (attempt_id_mint m = attempt_id_mint n \<longleftrightarrow> m = n) \<and>
   attempt_id_parse (agent_as_str (agent_id_mint n)) = None \<and>
   attempt_id_parse (address_as_str (address_mint n)) = None"
proof (intro conjI)
  note v = is_ascii_ws_def
  have t: "trim (''aa1.'' @ hex n) = ''aa1.'' @ hex n" "trim (''ag1.'' @ hex n) = ''ag1.'' @ hex n"
    by (rule trim_minted; simp add: v)+
  show "address_parse (address_as_str (address_mint n)) = Some (address_mint n)"
    using t(1) by (simp add: address_parse_def address_mint_def ADDRESS_PREFIX_def is_presentable_def
        eq_ignore_ascii_case_def to_ascii_lowercase_def to_ascii_lowercase_char_def is_ascii_upper_def Let_def)
  have "parse_prefixed (''ag1.'' @ hex n) ''ag1.'' = Some (''ag1.'' @ hex n)"
    by (rule parse_prefixed_minted; simp add: v)
  then show "agent_id_parse (agent_as_str (agent_id_mint n)) = Some (agent_id_mint n)"
    using t(2) not_uuid_minted [of n] by (simp add: agent_id_parse_def agent_id_mint_def AGENT_PREFIX_def Let_def)
  have "parse_prefixed (''at1.'' @ hex n) ''at1.'' = Some (''at1.'' @ hex n)"
    by (rule parse_prefixed_minted; simp add: v)
  then show "attempt_id_parse (attempt_as_str (attempt_id_mint n)) = Some (attempt_id_mint n)"
    by (simp add: attempt_id_parse_def attempt_id_mint_def ATTEMPT_PREFIX_def)
  show "attempt_id_parse (agent_as_str (agent_id_mint n)) = None"
    "attempt_id_parse (address_as_str (address_mint n)) = None"
    using t by (simp_all add: attempt_id_parse_def parse_prefixed_def agent_id_mint_def address_mint_def
        AGENT_PREFIX_def ATTEMPT_PREFIX_def ADDRESS_PREFIX_def strip_prefix_def Let_def)
qed (simp_all add: address_mint_def agent_id_mint_def attempt_id_mint_def hex_inject)

end
