(* ===== verification/Interjection.thy ===== *)
theory Interjection
  imports Machines
begin

text \<open>
  The crate \<open>xai-interjection-core\<close>: the shared event queue, the interjection buffer built on it,
  and the framing of a mid-turn message. The queue's mutex makes every operation atomic, so an
  operation is a function on the list of events, oldest first. A slice of a string at a byte
  offset that is not a character boundary panics in Rust; here it is \<open>None\<close>.
\<close>

section \<open>The event queue\<close>

record 'e event_queue =
  events :: "'e list"

definition queue_new :: "'e event_queue" where
  "queue_new = \<lparr>events = []\<rparr>"

definition queue_push :: "'e event_queue \<Rightarrow> 'e \<Rightarrow> 'e event_queue" where
  "queue_push q e = q\<lparr>events := events q @ [e]\<rparr>"

definition queue_push_capped :: "'e event_queue \<Rightarrow> 'e \<Rightarrow> nat \<Rightarrow> 'e event_queue" where
  "queue_push_capped q e limit =
     (let es = events q @ [e]
      in if limit < length es then q\<lparr>events := drop (length es - limit) es\<rparr> else q\<lparr>events := es\<rparr>)"

definition queue_drain_matching :: "'e event_queue \<Rightarrow> ('e \<Rightarrow> bool) \<Rightarrow> 'e event_queue \<times> 'e list" where
  "queue_drain_matching q p =
     (case partition p (events q) of (matched, kept) \<Rightarrow> (q\<lparr>events := kept\<rparr>, matched))"

definition queue_drain_all :: "'e event_queue \<Rightarrow> 'e event_queue \<times> 'e list" where
  "queue_drain_all q = (q\<lparr>events := []\<rparr>, events q)"

definition queue_restore_front :: "'e event_queue \<Rightarrow> 'e list \<Rightarrow> 'e event_queue" where
  "queue_restore_front q es = (if es = [] then q else q\<lparr>events := es @ events q\<rparr>)"

definition queue_clear :: "'e event_queue \<Rightarrow> 'e event_queue" where
  "queue_clear q = q\<lparr>events := []\<rparr>"

definition queue_snapshot :: "'e event_queue \<Rightarrow> 'e list" where
  "queue_snapshot q = events q"

section \<open>Framing\<close>

definition LARGE_PROMPT_THRESHOLD :: nat where
  "LARGE_PROMPT_THRESHOLD = 25000"

definition INTERJECTION_NOTE :: string where
  "INTERJECTION_NOTE = ''The user sent a message while you were working:''"

definition INTERRUPT_NOTE :: string where
  "INTERRUPT_NOTE = ''The user interrupted the previous turn:''"

definition UNFINISHED_TASKS_REMINDER :: string where
  "UNFINISHED_TASKS_REMINDER = ''If the user is asking for a response, address the user first. After replying, complete any unfinished tasks from previous turns.''"

definition user_query :: "string \<Rightarrow> string" where
  "user_query user_message =
     ''<user_query>'' @ [newline] @ user_message @ [newline] @ ''</user_query>''"

definition frame_user_turn :: "string \<Rightarrow> string \<Rightarrow> string" where
  "frame_user_turn note assembled =
     note @ [newline] @ assembled @ [newline] @ UNFINISHED_TASKS_REMINDER"

text \<open>\<open>char::len_utf8\<close> from the leading byte, and \<open>str::char_indices\<close> with the lengths.\<close>

definition utf8_len :: "char \<Rightarrow> nat" where
  "utf8_len c = (if byte c < 0x80 then 1 else if byte c < 0xE0 then 2 else if byte c < 0xF0 then 3
     else 4)"

function char_indices :: "nat \<Rightarrow> string \<Rightarrow> (nat \<times> nat) list" where
  "char_indices i [] = []"
| "char_indices i (c # s) =
     (i, utf8_len c) # char_indices (i + utf8_len c) (drop (utf8_len c) (c # s))"
  by pat_completeness auto
termination
  by (relation "measure (\<lambda>(i, s). length s)") (auto simp: utf8_len_def)

text \<open>The end of the last character that starts before the threshold.\<close>

definition truncation_end :: "nat \<Rightarrow> string \<Rightarrow> nat" where
  "truncation_end threshold text =
     (case takeWhile (\<lambda>(i, _). i < threshold) (char_indices 0 text) of
        [] \<Rightarrow> length text
      | ps \<Rightarrow> (case last ps of (i, n) \<Rightarrow> i + n))"

definition format_steered_query :: "string \<Rightarrow> string \<Rightarrow> string option" where
  "format_steered_query note text =
     (case (if length text \<le> LARGE_PROMPT_THRESHOLD then Some text
            else map_option (\<lambda>t. t @ ''... [truncated]'')
                   (get_to text (truncation_end LARGE_PROMPT_THRESHOLD text))) of
        None \<Rightarrow> None
      | Some truncated \<Rightarrow> Some (frame_user_turn note (user_query truncated)))"

definition format_interjection :: "string \<Rightarrow> string option" where
  "format_interjection text = format_steered_query INTERJECTION_NOTE text"

definition format_interrupt :: "string \<Rightarrow> string option" where
  "format_interrupt text = format_steered_query INTERRUPT_NOTE text"

section \<open>The interjection buffer\<close>

record 'a interjection =
  text_of :: string
  attachments :: "'a list"

type_synonym 'a interjection_buffer = "'a interjection event_queue"

definition drain_formatted ::
  "'a interjection_buffer \<Rightarrow> (string \<Rightarrow> string) \<Rightarrow> 'a interjection_buffer \<times> 'a interjection option list" where
  "drain_formatted buffer sanitize_text =
     (case queue_drain_all buffer of
        (q, es) \<Rightarrow>
          (q, map (\<lambda>entry. map_option (\<lambda>t. \<lparr>text_of = t, attachments = attachments entry\<rparr>)
                    (format_interjection (sanitize_text (text_of entry)))) es))"

section \<open>Runs of the queue\<close>

datatype 'e queue_op = Push 'e | PushCapped 'e nat | DrainMatching "'e \<Rightarrow> bool" | DrainAll
  | RestoreFront "'e list" | Clear

fun queue_step :: "'e event_queue \<Rightarrow> 'e queue_op \<Rightarrow> 'e event_queue" where
  "queue_step q (Push e) = queue_push q e"
| "queue_step q (PushCapped e n) = queue_push_capped q e n"
| "queue_step q (DrainMatching p) = fst (queue_drain_matching q p)"
| "queue_step q DrainAll = fst (queue_drain_all q)"
| "queue_step q (RestoreFront es) = queue_restore_front q es"
| "queue_step q Clear = queue_clear q"

fun queued :: "'e event_queue \<Rightarrow> 'e queue_op \<Rightarrow> 'e multiset" where
  "queued q (Push e) = {#e#}"
| "queued q (PushCapped e n) = {#e#}"
| "queued q (RestoreFront es) = mset es"
| "queued q _ = {#}"

text \<open>What leaves the queue: drained events, and those the cap or \<open>clear\<close> discards.\<close>

fun dequeued :: "'e event_queue \<Rightarrow> 'e queue_op \<Rightarrow> 'e multiset" where
  "dequeued q (PushCapped e n) = mset (take (Suc (length (events q)) - n) (events q @ [e]))"
| "dequeued q (DrainMatching p) = mset (snd (queue_drain_matching q p))"
| "dequeued q DrainAll = mset (snd (queue_drain_all q))"
| "dequeued q Clear = mset (events q)"
| "dequeued q _ = {#}"

text \<open>Text that is a sequence of whole UTF-8 characters.\<close>

function utf8_ok :: "string \<Rightarrow> bool" where
  "utf8_ok [] = True"
| "utf8_ok (c # s) =
     (\<not> is_continuation c \<and> utf8_len c \<le> length (c # s) \<and>
      list_all is_continuation (take (utf8_len c - 1) s) \<and> utf8_ok (drop (utf8_len c - 1) s))"
  by pat_completeness auto
termination
  by (relation "measure length") auto

section \<open>Facts about the queue\<close>

lemma queue_balance: "mset (events (queue_step q e)) + dequeued q e = mset (events q) + queued q e"
proof (cases e)
  case (PushCapped x n)
  have "mset (drop k xs) + mset (take k xs) = mset xs" for k and xs :: "'a list"
    by (metis add.commute append_take_drop_id mset_append)
  from this [of "Suc (length (events q)) - n" "events q @ [x]"] PushCapped show ?thesis
    by (auto simp: queue_push_capped_def Let_def)
next
  case (DrainMatching p)
  then show ?thesis
    using mset_map_filter_split [of "\<lambda>x. x" p "events q"]
    by (simp add: queue_drain_matching_def partition_filter_conv comp_def add.commute)
qed (auto simp: queue_push_def queue_drain_all_def queue_restore_front_def queue_clear_def)

interpretation event_queue: custody queue_step "\<lambda>q. mset (events q)" queued dequeued
  by unfold_locales (rule queue_balance)

section \<open>Facts about truncation\<close>

lemma utf8_len_bounds: "1 \<le> utf8_len c" "utf8_len c \<le> 4"
  by (simp_all add: utf8_len_def)

lemma drop_char: "drop (utf8_len c) (c # s) = drop (utf8_len c - 1) s"
  using utf8_len_bounds(1) [of c] by (cases "utf8_len c") auto

lemma utf8_ok_head: "utf8_ok s \<Longrightarrow> s \<noteq> [] \<Longrightarrow> \<not> is_continuation (s ! 0)"
  by (cases s) auto

lemma boundary_shift:
  assumes "is_char_boundary (drop k s) m" and "0 < m" and "k \<le> length s"
  shows "is_char_boundary s (k + m)"
  using assms by (auto simp: is_char_boundary_def)

lemma char_indices_bounds:
  assumes "utf8_ok s" and "(j, n) \<in> set (char_indices i s)"
  shows "i \<le> j \<and> 1 \<le> n \<and> n \<le> 4 \<and> j + n \<le> i + length s \<and> is_char_boundary s (j + n - i)"
  using assms
proof (induction s arbitrary: i rule: utf8_ok.induct)
  case 1
  then show ?case by simp
next
  case (2 c s)
  let ?k = "utf8_len c" and ?s = "drop (utf8_len c) (c # s)"
  have len: "?k \<le> length (c # s)" and ok: "utf8_ok ?s"
    using "2.prems"(1) drop_char [of c s] by auto
  consider "(j, n) = (i, ?k)" | "(j, n) \<in> set (char_indices (i + ?k) ?s)"
    using "2.prems"(2) by auto
  then show ?case
  proof cases
    case 1
    have "is_char_boundary (c # s) ?k"
    proof (cases "?k = length (c # s)")
      case True
      then show ?thesis by (simp add: is_char_boundary_def)
    next
      case False
      with len have "?s \<noteq> []" "?s ! 0 = (c # s) ! ?k" by simp_all
      with utf8_ok_head [OF ok] False len show ?thesis by (simp add: is_char_boundary_def)
    qed
    with 1 len show ?thesis using utf8_len_bounds [of c] by auto
  next
    case 2
    have "i + ?k \<le> j \<and> 1 \<le> n \<and> n \<le> 4 \<and> j + n \<le> i + ?k + length ?s \<and>
        is_char_boundary ?s (j + n - (i + ?k))"
    proof -
      have "(j, n) \<in> set (char_indices (i + ?k) (drop (?k - 1) s))" using 2 drop_char [of c s] by simp
      moreover have "\<not> is_continuation c" "utf8_len c \<le> length (c # s)"
        "list_all is_continuation (take (utf8_len c - 1) s)" "utf8_ok (drop (?k - 1) s)"
        using "2.prems"(1) by auto
      ultimately show ?thesis using "2.IH" drop_char [of c s] by simp
    qed
    then have *: "i + ?k \<le> j" "1 \<le> n" "n \<le> 4" "j + n \<le> i + ?k + length ?s"
      "is_char_boundary ?s (j + n - (i + ?k))" by auto
    have "is_char_boundary (c # s) (?k + (j + n - (i + ?k)))"
      using *(5) by (rule boundary_shift) (use * len in auto)
    moreover have "?k + (j + n - (i + ?k)) = j + n - i" using * by simp
    moreover have "j + n \<le> i + length (c # s)" using *(4) len by simp
    ultimately show ?thesis using * by auto
  qed
qed

lemma last_before_threshold:
  assumes "utf8_ok s" and "s \<noteq> []" and "i < threshold"
  shows "\<exists>j n. takeWhile (\<lambda>(i, _). i < threshold) (char_indices i s) \<noteq> [] \<and>
    last (takeWhile (\<lambda>(i, _). i < threshold) (char_indices i s)) = (j, n) \<and>
    j < threshold \<and> min threshold (i + length s) \<le> j + n"
  using assms
proof (induction s arbitrary: i rule: utf8_ok.induct)
  case 1
  then show ?case by simp
next
  case (2 c s)
  let ?k = "utf8_len c" and ?s = "drop (utf8_len c - 1) s"
  have eq: "char_indices i (c # s) = (i, ?k) # char_indices (i + ?k) ?s"
    by (simp add: drop_char)
  have len: "?k \<le> length (c # s)" and ok: "utf8_ok ?s" using "2.prems"(1) by auto
  show ?case
  proof (cases "?s \<noteq> [] \<and> i + ?k < threshold")
    case True
    then obtain j n where "takeWhile (\<lambda>(i, _). i < threshold) (char_indices (i + ?k) ?s) \<noteq> []"
      "last (takeWhile (\<lambda>(i, _). i < threshold) (char_indices (i + ?k) ?s)) = (j, n)"
      "j < threshold" "min threshold (i + ?k + length ?s) \<le> j + n"
      using "2.IH" "2.prems"(1) by fastforce
    moreover have "i + ?k + length ?s = i + length (c # s)"
      using len utf8_len_bounds(1) [of c] by simp
    ultimately show ?thesis using eq "2.prems"(3) by auto
  next
    case False
    have "takeWhile (\<lambda>(i, _). i < threshold) (char_indices (i + ?k) ?s) = []"
    proof (cases "?s")
      case Nil
      then show ?thesis by simp
    next
      case (Cons d t)
      with False have "\<not> i + ?k < threshold" by auto
      with Cons show ?thesis by simp
    qed
    moreover have "min threshold (i + length (c # s)) \<le> i + ?k"
      using False len utf8_len_bounds(1) [of c] by auto
    ultimately show ?thesis using eq "2.prems"(3) by simp
  qed
qed

lemma truncation_end_bounds:
  assumes "utf8_ok text" and "text \<noteq> []" and "0 < threshold" and "threshold \<le> length text"
  shows "threshold \<le> truncation_end threshold text" "truncation_end threshold text \<le> threshold + 3"
    "truncation_end threshold text \<le> length text"
    "is_char_boundary text (truncation_end threshold text)"
proof -
  let ?ps = "takeWhile (\<lambda>(i, _). i < threshold) (char_indices 0 text)"
  obtain j n where ps: "?ps \<noteq> []" "last ?ps = (j, n)" "j < threshold" "min threshold (length text) \<le> j + n"
    using last_before_threshold [OF assms(1,2,3)] by auto
  have "(j, n) \<in> set (char_indices 0 text)"
    using ps(1,2) by (metis last_in_set set_takeWhileD)
  from char_indices_bounds [OF assms(1) this]
  have b: "n \<le> 4" "j + n \<le> length text" "is_char_boundary text (j + n)" by auto
  have "truncation_end threshold text = j + n"
    using ps(1,2) by (auto simp: truncation_end_def split: list.splits)
  with ps b assms(4) show "threshold \<le> truncation_end threshold text"
    "truncation_end threshold text \<le> threshold + 3"
    "truncation_end threshold text \<le> length text"
    "is_char_boundary text (truncation_end threshold text)" by auto
qed

section \<open>Properties\<close>

text \<open>The queue neither loses nor invents events. Over any sequence of operations, what is
  still queued together with what was drained, cleared or dropped by a cap is exactly what was
  pushed or restored.\<close>

theorem event_queue_custody:
  "mset (events (foldl queue_step queue_new ops)) + run_total queue_step dequeued queue_new ops
   = run_total queue_step queued queue_new ops"
  using event_queue.run_balance [of queue_new ops] by (simp add: queue_new_def)

text \<open>A capped push keeps the newest events in order and never leaves more than the cap; a
  drain followed by restoring what was drained puts it back in front of everything pushed in
  between.\<close>

theorem event_queue_order:
  "events (queue_push_capped q e limit) =
     drop (Suc (length (events q)) - limit) (events q @ [e]) \<and>
   (length (events q) \<le> limit \<longrightarrow> length (events (queue_push_capped q e limit)) \<le> limit) \<and>
   (let (q', drained) = queue_drain_all q
    in events (queue_restore_front (queue_push q' x) drained) = events q @ [x])"
  by (auto simp: queue_push_capped_def queue_drain_all_def queue_restore_front_def queue_push_def Let_def)

theorem event_queue_order_witness:
  "events (queue_push_capped \<lparr>events = [1, 2, 3 :: nat]\<rparr> 4 3) = [2, 3, 4]"
  using event_queue_order [of "\<lparr>events = [1, 2, 3 :: nat]\<rparr>" 4 3 0] by simp

text \<open>Framing a message of whole UTF-8 characters never cuts inside a character, so it never
  panics; a long message keeps a prefix that reaches the threshold and exceeds it by at most three
  bytes, and a short one is kept whole.\<close>

theorem format_interjection_total:
  assumes "utf8_ok text"
  shows "\<exists>body. format_interjection text = Some (frame_user_turn INTERJECTION_NOTE (user_query body)) \<and>
    (if length text \<le> LARGE_PROMPT_THRESHOLD then body = text
     else \<exists>kept. body = kept @ ''... [truncated]'' \<and> prefix kept text \<and>
       LARGE_PROMPT_THRESHOLD \<le> length kept \<and> length kept \<le> LARGE_PROMPT_THRESHOLD + 3)"
proof (cases "length text \<le> LARGE_PROMPT_THRESHOLD")
  case True
  then show ?thesis by (simp add: format_interjection_def format_steered_query_def)
next
  case False
  let ?e = "truncation_end LARGE_PROMPT_THRESHOLD text"
  have "text \<noteq> []" "0 < LARGE_PROMPT_THRESHOLD" "LARGE_PROMPT_THRESHOLD \<le> length text"
    using False by (auto simp: LARGE_PROMPT_THRESHOLD_def)
  note b = truncation_end_bounds [OF assms this]
  have "get_to text ?e = Some (take ?e text)" using b by (simp add: get_to_def)
  then have "format_interjection text =
      Some (frame_user_turn INTERJECTION_NOTE (user_query (take ?e text @ ''... [truncated]'')))"
    using False by (simp add: format_interjection_def format_steered_query_def)
  moreover have "prefix (take ?e text) text" "LARGE_PROMPT_THRESHOLD \<le> length (take ?e text)"
    "length (take ?e text) \<le> LARGE_PROMPT_THRESHOLD + 3"
    using b by (auto simp: take_is_prefix)
  ultimately show ?thesis using False by auto
qed

theorem format_interjection_total_witness:
  "\<exists>body. format_interjection ''hi'' = Some (frame_user_turn INTERJECTION_NOTE (user_query body)) \<and> body = ''hi''"
proof -
  have "utf8_ok ''hi''" by (simp add: utf8_len_def is_continuation_def)
  from format_interjection_total [OF this] show ?thesis by (simp add: LARGE_PROMPT_THRESHOLD_def)
qed

end
