(* ===== verification/Prompt_Queue.thy ===== *)
theory Prompt_Queue
  imports Rust_Prelude
begin

text \<open>
  The crate \<open>xai-prompt-queue\<close>: the rows of the prompt queue and the rules by which queued
  follow-ups are combined into one turn. A JSON object is a map from keys to values; only the
  shapes \<open>stamp_combined_display_texts\<close> writes are needed.
\<close>

section \<open>Queue rows\<close>

record queue_entry_meta =
  meta_id :: string
  meta_version :: nat
  meta_owner :: "string option"
  meta_last_editor :: "string option"
  meta_kind :: string
  meta_text :: string
  meta_combined_texts :: "string list option"

record queue_entry_wire =
  wire_id :: string
  wire_version :: nat
  wire_owner :: "string option"
  wire_last_editor :: "string option"
  wire_kind :: string
  wire_text :: string
  wire_combined_texts :: "string list option"
  wire_position :: nat

record queue_changed =
  changed_session_id :: string
  changed_entries :: "queue_entry_wire list"
  running_prompt_id :: "string option"
  running_text :: "string option"
  running_kind :: "string option"
  running_combined_texts :: "string list option"

section \<open>Combining\<close>

record combine_gate =
  gate_id :: string
  is_plain_prompt :: bool
  is_synthetic :: bool
  is_expanded_skill :: bool
  is_bash :: bool
  has_images :: bool
  gate_text :: string

definition TEXT_SEPARATOR :: string where
  "TEXT_SEPARATOR = [newline, newline]"

definition COMBINED_DISPLAY_TEXTS_META :: string where
  "COMBINED_DISPLAY_TEXTS_META = ''combinedDisplayTexts''"

definition can_merge_front :: "combine_gate \<Rightarrow> bool" where
  "can_merge_front g = (is_plain_prompt g \<and> \<not> is_synthetic g \<and> \<not> is_expanded_skill g \<and>
     \<not> is_bash g \<and> gate_text g \<noteq> [])"

definition can_merge_follower :: "combine_gate \<Rightarrow> string list \<Rightarrow> bool" where
  "can_merge_follower g skip_ids =
     (can_merge_front g \<and> \<not> has_images g \<and> gate_id g \<notin> set skip_ids)"

fun combine_followers :: "nat \<Rightarrow> combine_gate list \<Rightarrow> string list \<Rightarrow> nat" where
  "combine_followers n [] skip_ids = n"
| "combine_followers n (g # gs) skip_ids =
     (if \<not> can_merge_follower g skip_ids then n else combine_followers (n + 1) gs skip_ids)"

definition combine_prefix_len :: "combine_gate list \<Rightarrow> string list \<Rightarrow> nat" where
  "combine_prefix_len items skip_ids =
     (case items of
        [] \<Rightarrow> 0
      | front # rest \<Rightarrow>
          if \<not> can_merge_front front then 1 else combine_followers 1 rest skip_ids)"

definition join_texts :: "string list \<Rightarrow> string" where
  "join_texts texts = join TEXT_SEPARATOR (filter (\<lambda>t. t \<noteq> []) texts)"

definition is_combined :: "string list \<Rightarrow> bool" where
  "is_combined segs = (2 \<le> length segs)"

definition stamp_combined_display_texts ::
  "(string \<rightharpoonup> json) \<Rightarrow> string list \<Rightarrow> (string \<rightharpoonup> json)" where
  "stamp_combined_display_texts meta segs =
     (if \<not> is_combined segs then meta
      else meta(COMBINED_DISPLAY_TEXTS_META \<mapsto> JArray (map JString segs)))"

section \<open>Facts\<close>

lemma combine_followers_eq:
  "combine_followers n gs skip = n + length (takeWhile (\<lambda>g. can_merge_follower g skip) gs)"
  by (induction n gs skip rule: combine_followers.induct) auto

section \<open>Properties\<close>

text \<open>The combined run is the longest one allowed. It is a prefix of the queue that starts
  with the front; when it is longer than the front alone the front may be merged and every
  follower in it may follow; and the row after it, if there is one, stops it for cause. A queue
  that is not empty always yields at least its front.\<close>

theorem combine_prefix_len_longest:
  fixes items skip
  defines "n \<equiv> combine_prefix_len items skip"
  shows "n \<le> length items \<and> (items \<noteq> [] \<longrightarrow> 1 \<le> n) \<and>
    (1 < n \<longrightarrow> can_merge_front (items ! 0)) \<and>
    (\<forall>i. 1 \<le> i \<and> i < n \<longrightarrow> can_merge_follower (items ! i) skip) \<and>
    (items \<noteq> [] \<and> n < length items \<longrightarrow>
       \<not> can_merge_front (items ! 0) \<or> \<not> can_merge_follower (items ! n) skip)"
proof (cases items)
  case Nil
  then show ?thesis by (simp add: n_def combine_prefix_len_def)
next
  case (Cons g gs)
  let ?P = "\<lambda>g. can_merge_follower g skip"
  show ?thesis
  proof (cases "can_merge_front g")
    case False
    with Cons show ?thesis by (simp add: n_def combine_prefix_len_def)
  next
    case True
    with Cons have n: "n = Suc (length (takeWhile ?P gs))"
      by (simp add: n_def combine_prefix_len_def combine_followers_eq)
    have "?P (items ! i)" if "1 \<le> i" "i < n" for i
    proof -
      from that n have lt: "i - 1 < length (takeWhile ?P gs)" by linarith
      then have "?P (takeWhile ?P gs ! (i - 1))" by (meson nth_mem set_takeWhileD)
      with lt that Cons show ?thesis by (simp add: takeWhile_nth)
    qed
    moreover have "\<not> ?P (items ! n)" if "n < length items"
      using nth_length_takeWhile [of ?P gs] that n Cons by simp
    ultimately show ?thesis
      using True Cons n length_takeWhile_le [of ?P gs] by auto
  qed
qed

theorem combine_prefix_len_longest_witness:
  "combine_prefix_len
     [\<lparr>gate_id = ''a'', is_plain_prompt = True, is_synthetic = False, is_expanded_skill = False,
       is_bash = False, has_images = True, gate_text = ''one''\<rparr>] [] \<le> 1"
  using combine_prefix_len_longest
    [of "[\<lparr>gate_id = ''a'', is_plain_prompt = True, is_synthetic = False, is_expanded_skill = False,
       is_bash = False, has_images = True, gate_text = ''one''\<rparr>]" "[]"]
  by simp

end
