(* ===== verification/Token_Estimation.thy ===== *)
theory Token_Estimation
  imports Rust_Prelude
begin

text \<open>
  The crate \<open>xai-token-estimation\<close>: the bytes/4 heuristic and the integer arithmetic behind the
  auto-compaction gates. \<open>u64\<close> values are \<open>nat\<close>; \<open>saturating_mul\<close> is \<open>sat_mul\<close> and
  \<open>saturating_sub\<close> is subtraction on \<open>nat\<close>. The two percentages computed in floating point for
  display only are not modelled.
\<close>

definition BYTES_PER_TOKEN :: nat where
  "BYTES_PER_TOKEN = 4"

definition IMAGE_TOKEN_ESTIMATE :: nat where
  "IMAGE_TOKEN_ESTIMATE = 765"

definition estimate_tokens :: "string \<Rightarrow> nat" where
  "estimate_tokens s = length s div BYTES_PER_TOKEN"

definition estimate_chars :: "nat \<Rightarrow> nat" where
  "estimate_chars tokens = sat_mul tokens BYTES_PER_TOKEN"

definition estimate_image_tokens :: "nat \<Rightarrow> nat" where
  "estimate_image_tokens image_count = sat_mul image_count IMAGE_TOKEN_ESTIMATE"

text \<open>\<open>checked_div\<close> fails on 0; the cast to \<open>u8\<close> keeps the value, which is at most 100.\<close>

definition usage_percentage_truncated_u8 :: "nat \<Rightarrow> nat \<Rightarrow> nat" where
  "usage_percentage_truncated_u8 used total_tokens =
     (if total_tokens = 0 then 0 else min (sat_mul used 100 div total_tokens) 100 mod 256)"

definition free_tokens :: "nat \<Rightarrow> nat \<Rightarrow> nat" where
  "free_tokens total_tokens used = total_tokens - used"

definition exceeds_threshold :: "nat \<Rightarrow> nat \<Rightarrow> nat \<Rightarrow> bool" where
  "exceeds_threshold used context_window threshold_percent =
     (if context_window = 0 then False
      else sat_mul context_window threshold_percent \<le> sat_mul used 100)"

definition exceeds_threshold_with_headroom :: "nat \<Rightarrow> nat \<Rightarrow> nat \<Rightarrow> nat \<Rightarrow> bool" where
  "exceeds_threshold_with_headroom used context_window threshold_percent headroom =
     (if context_window = 0 then False
      else sat_mul context_window threshold_percent - sat_mul headroom 100 \<le> sat_mul used 100)"

section \<open>Facts\<close>

lemma sat_mul_exact: "a \<le> 2 ^ 56 \<Longrightarrow> b \<le> 255 \<Longrightarrow> sat_mul a b = a * b"
proof -
  assume "a \<le> 2 ^ 56" "b \<le> 255"
  then have "a * b \<le> 2 ^ 56 * 255" by (rule mult_le_mono)
  also have "\<dots> \<le> u64_max" by (simp add: u64_max_def)
  finally show ?thesis by (simp add: sat_mul_def)
qed

section \<open>Properties\<close>

text \<open>The compaction gate. On counts up to \<open>2 ^ 56\<close>, where no multiplication saturates, the
  gate with headroom fires exactly when the used tokens together with the headroom reach the
  threshold share of the window, and the plain gate is the gate with no headroom; saturation
  cannot turn either gate off again as usage grows.\<close>

theorem exceeds_threshold_exact:
  assumes "used \<le> 2 ^ 56" and "window \<le> 2 ^ 56" and "headroom \<le> 2 ^ 56" and "pct \<le> 255"
  shows "(exceeds_threshold_with_headroom used window pct headroom
      \<longleftrightarrow> window \<noteq> 0 \<and> window * pct \<le> (used + headroom) * 100) \<and>
    exceeds_threshold used window pct = exceeds_threshold_with_headroom used window pct 0 \<and>
    (\<forall>more. used \<le> more \<and> exceeds_threshold_with_headroom used window pct headroom \<longrightarrow>
      exceeds_threshold_with_headroom more window pct headroom)"
proof (intro conjI allI impI)
  have s: "sat_mul window pct = window * pct" "sat_mul used 100 = used * 100"
    "sat_mul headroom 100 = headroom * 100"
    using assms by (simp_all add: sat_mul_exact)
  show "exceeds_threshold_with_headroom used window pct headroom
      \<longleftrightarrow> window \<noteq> 0 \<and> window * pct \<le> (used + headroom) * 100"
    by (auto simp: exceeds_threshold_with_headroom_def s)
  show "exceeds_threshold used window pct = exceeds_threshold_with_headroom used window pct 0"
    by (simp add: exceeds_threshold_def exceeds_threshold_with_headroom_def sat_mul_def)
next
  fix more
  assume "used \<le> more \<and> exceeds_threshold_with_headroom used window pct headroom"
  then show "exceeds_threshold_with_headroom more window pct headroom"
    using sat_mul_mono [of used more 100]
    by (auto simp: exceeds_threshold_with_headroom_def split: if_splits)
qed

theorem exceeds_threshold_exact_witness:
  "exceeds_threshold_with_headroom 170000 200000 90 10000"
  using exceeds_threshold_exact [of 170000 200000 10000 90] by simp

end
