(* ===== verification/Hunk_Diff.thy ===== *)
theory Hunk_Diff
  imports Rust_Prelude "HOL-Library.Multiset"
begin

text \<open>
  Hunks of a tracked file (\<open>xai-hunk-tracker\<close>: \<open>types.rs\<close>, \<open>diff.rs\<close>): how a line diff is grouped into
  hunks, how a hunk is applied to a text or undone in it, and how the hunks of two diffs of the same
  file are matched.

  The line diff itself is the \<open>similar\<close> crate's, a parameter: \<open>diff_lines b c\<close> is the list of changes
  that turns \<open>b\<close> into \<open>c\<close>, \<open>None\<close> when it ran into the time limit. So are the fresh identifiers and
  the clock: \<open>new_id n\<close> and \<open>created n\<close> belong to the \<open>n\<close>-th hunk ever built. \<open>usize\<close> is \<open>nat\<close>; line numbers
  stay far below its bound, and a subtraction that could wrap is a branch of the model.
\<close>

section \<open>Lines of a text\<close>

abbreviation carriage_return :: char where
  "carriage_return \<equiv> CHR 0x0D"

text \<open>\<open>split_inclusive('\n')\<close>, and \<open>str::lines\<close>: a line ends at a line feed, and a carriage return right
  before it belongs to the line end.\<close>

fun split_inclusive :: "string \<Rightarrow> string list" where
  "split_inclusive [] = []"
| "split_inclusive (c # s) =
     (if c = newline then [c] # split_inclusive s
      else case split_inclusive s of [] \<Rightarrow> [[c]] | l # ls \<Rightarrow> (c # l) # ls)"

definition line_content :: "string \<Rightarrow> string" where
  "line_content l =
     (case strip_suffix l [newline] of
        None \<Rightarrow> l
      | Some l1 \<Rightarrow> (case strip_suffix l1 [carriage_return] of None \<Rightarrow> l1 | Some l2 \<Rightarrow> l2))"

definition lines :: "string \<Rightarrow> string list" where
  "lines s = map line_content (split_inclusive s)"

section \<open>Hunks\<close>

record hunk_line_info =
  old_start :: nat
  old_count :: nat
  new_start :: nat
  new_count :: nat

definition hunk_line_info_display :: "hunk_line_info \<Rightarrow> string" where
  "hunk_line_info_display li =
     ''@@ -'' @ decimal (old_start li) @ '','' @ decimal (old_count li) @ '' +'' @
     decimal (new_start li) @ '','' @ decimal (new_count li) @ '' @@''"

datatype hunk_source = AgentEdit nat | ExternalEditOnAgentFile | External

definition is_agent_edit :: "hunk_source \<Rightarrow> bool" where
  "is_agent_edit src = (case src of AgentEdit _ \<Rightarrow> True | _ \<Rightarrow> False)"

definition is_agent_tracked :: "hunk_source \<Rightarrow> bool" where
  "is_agent_tracked src = (case src of AgentEdit _ \<Rightarrow> True | ExternalEditOnAgentFile \<Rightarrow> True | External \<Rightarrow> False)"

definition is_external :: "hunk_source \<Rightarrow> bool" where
  "is_external src = (case src of AgentEdit _ \<Rightarrow> False | _ \<Rightarrow> True)"

definition prompt_index :: "hunk_source \<Rightarrow> nat option" where
  "prompt_index src = (case src of AgentEdit i \<Rightarrow> Some i | _ \<Rightarrow> None)"

record hunk =
  hunk_id :: string
  hunk_path :: string
  line_info :: hunk_line_info
  hunk_source :: hunk_source
  old_text :: "string option"
  new_text :: string
  patch :: "string option"
  created_at :: nat
  selected :: bool

datatype change_tag = Equal | Delete | Insert

record diff_env =
  diff_lines :: "string \<Rightarrow> string \<Rightarrow> (change_tag \<times> string) list option"
  new_id :: "nat \<Rightarrow> string"
  created :: "nat \<Rightarrow> nat"

definition file_created :: "diff_env \<Rightarrow> nat \<Rightarrow> string \<Rightarrow> string \<Rightarrow> hunk_source \<Rightarrow> hunk" where
  "file_created env n p content src =
     \<lparr>hunk_id = new_id env n, hunk_path = p,
      line_info = \<lparr>old_start = 0, old_count = 0, new_start = 1, new_count = max (length (lines content)) 1\<rparr>,
      hunk_source = src, old_text = None, new_text = content, patch = None, created_at = created env n,
      selected = False\<rparr>"

definition file_deleted :: "diff_env \<Rightarrow> nat \<Rightarrow> string \<Rightarrow> string \<Rightarrow> hunk_source \<Rightarrow> hunk" where
  "file_deleted env n p content src =
     \<lparr>hunk_id = new_id env n, hunk_path = p,
      line_info = \<lparr>old_start = 1, old_count = max (length (lines content)) 1, new_start = 0, new_count = 0\<rparr>,
      hunk_source = src, old_text = Some content, new_text = [], patch = None, created_at = created env n,
      selected = False\<rparr>"

definition summary :: "hunk \<Rightarrow> string" where
  "summary h =
     ''+'' @ decimal (length (lines (new_text h))) @ ''/-'' @
     decimal (case old_text h of None \<Rightarrow> 0 | Some t \<Rightarrow> length (lines t))"

definition display_path :: "hunk \<Rightarrow> string" where
  "display_path h = hunk_path h @ '':'' @ decimal (new_start (line_info h))"

section \<open>Grouping a diff into hunks\<close>

record hunk_builder =
  b_old_start :: nat
  b_new_start :: nat
  b_old_lines :: "string list"
  b_new_lines :: "string list"

definition builder_new :: "nat \<Rightarrow> nat \<Rightarrow> hunk_builder" where
  "builder_new ol nl = \<lparr>b_old_start = ol, b_new_start = nl, b_old_lines = [], b_new_lines = []\<rparr>"

definition add_old_line :: "string \<Rightarrow> hunk_builder \<Rightarrow> hunk_builder" where
  "add_old_line l b = b\<lparr>b_old_lines := b_old_lines b @ [l]\<rparr>"

definition add_new_line :: "string \<Rightarrow> hunk_builder \<Rightarrow> hunk_builder" where
  "add_new_line l b = b\<lparr>b_new_lines := b_new_lines b @ [l]\<rparr>"

definition build :: "diff_env \<Rightarrow> nat \<Rightarrow> string \<Rightarrow> hunk_source \<Rightarrow> hunk_builder \<Rightarrow> hunk" where
  "build env n p src b =
     \<lparr>hunk_id = new_id env n, hunk_path = p,
      line_info = \<lparr>old_start = b_old_start b, old_count = length (b_old_lines b),
                   new_start = b_new_start b, new_count = length (b_new_lines b)\<rparr>,
      hunk_source = src,
      old_text = (if b_old_lines b = [] then None else Some (concat (b_old_lines b))),
      new_text = concat (b_new_lines b), patch = None, created_at = created env n, selected = False\<rparr>"

text \<open>The loop over the changes, with the line numbers reached and the hunk in progress.\<close>

definition in_progress :: "hunk_builder option \<Rightarrow> nat \<Rightarrow> nat \<Rightarrow> hunk_builder" where
  "in_progress cur ol nl = (case cur of None \<Rightarrow> builder_new ol nl | Some b \<Rightarrow> b)"

fun hunk_loop ::
  "diff_env \<Rightarrow> string \<Rightarrow> hunk_source \<Rightarrow> nat \<Rightarrow> (change_tag \<times> string) list \<Rightarrow> nat \<Rightarrow> nat \<Rightarrow>
   hunk_builder option \<Rightarrow> hunk list" where
  "hunk_loop env p src n [] ol nl None = []"
| "hunk_loop env p src n [] ol nl (Some b) = [build env n p src b]"
| "hunk_loop env p src n ((Equal, l) # cs) ol nl None = hunk_loop env p src n cs (ol + 1) (nl + 1) None"
| "hunk_loop env p src n ((Equal, l) # cs) ol nl (Some b) =
     build env n p src b # hunk_loop env p src (n + 1) cs (ol + 1) (nl + 1) None"
| "hunk_loop env p src n ((Delete, l) # cs) ol nl cur =
     hunk_loop env p src n cs (ol + 1) nl (Some (add_old_line l (in_progress cur ol nl)))"
| "hunk_loop env p src n ((Insert, l) # cs) ol nl cur =
     hunk_loop env p src n cs ol (nl + 1) (Some (add_new_line l (in_progress cur ol nl)))"

definition MAX_DIFF_FILE_SIZE :: nat where
  "MAX_DIFF_FILE_SIZE = 1024 * 1024"

definition compute_hunks :: "diff_env \<Rightarrow> nat \<Rightarrow> string \<Rightarrow> string \<Rightarrow> string \<Rightarrow> hunk_source \<Rightarrow> hunk list" where
  "compute_hunks env n p baseline current src =
     (if baseline = current then []
      else if MAX_DIFF_FILE_SIZE < length baseline \<or> MAX_DIFF_FILE_SIZE < length current then []
      else case diff_lines env baseline current of
             None \<Rightarrow> []
           | Some cs \<Rightarrow> hunk_loop env p src n cs 1 1 None)"

section \<open>Applying and showing hunks\<close>

definition patch_lines :: "string \<Rightarrow> nat \<Rightarrow> nat \<Rightarrow> string \<Rightarrow> string" where
  "patch_lines content start_line remove_count insert_text =
     (let ls = lines content;
          start_idx = start_line - 1;
          result = take (min start_idx (length ls)) ls @
                   (if insert_text \<noteq> [] then lines insert_text else []) @
                   drop (min (start_idx + remove_count) (length ls)) ls;
          output = join [newline] result
      in if ends_with content [newline] \<and> output \<noteq> [] then output @ [newline] else output)"

text \<open>What accepting a hunk does to the baseline and rejecting it to the current text.\<close>

definition install :: "hunk \<Rightarrow> string \<Rightarrow> string" where
  "install h baseline = patch_lines baseline (old_start (line_info h)) (old_count (line_info h)) (new_text h)"

definition revert :: "hunk \<Rightarrow> string \<Rightarrow> string" where
  "revert h current =
     patch_lines current (new_start (line_info h)) (new_count (line_info h))
       (case old_text h of None \<Rightarrow> [] | Some t \<Rightarrow> t)"

definition CONTEXT_LINES :: nat where
  "CONTEXT_LINES = 3"

definition prefixed_lines :: "string \<Rightarrow> string list \<Rightarrow> string" where
  "prefixed_lines mark ls = concat (map (\<lambda>l. mark @ l @ [newline]) ls)"

text \<open>\<open>None\<close> when one of the two subtractions for the context after the change goes below zero, where
  the code panics or wraps.\<close>

definition generate_hunk_patch :: "string \<Rightarrow> string \<Rightarrow> hunk \<Rightarrow> string option" where
  "generate_hunk_patch baseline current h =
     (let old_lines = lines baseline; new_lines = lines current; li = line_info h;
          old_start_idx = old_start li - 1;
          new_start_idx = new_start li - 1;
          context_before_start = old_start_idx - CONTEXT_LINES;
          changes_end_new = new_start_idx + new_count li;
          context_after_end = min (changes_end_new + CONTEXT_LINES) (length new_lines);
          changes_end_old = old_start_idx + old_count li;
          context_after_end_old = min (changes_end_old + CONTEXT_LINES) (length old_lines);
          total_old = (old_start_idx - context_before_start) + old_count li + (context_after_end_old - changes_end_old);
          total_new = (old_start_idx - context_before_start) + new_count li + (context_after_end - changes_end_new)
      in if context_after_end_old < changes_end_old \<or> context_after_end < changes_end_new then None
         else Some (
           ''@@ -'' @ decimal (context_before_start + 1) @ '','' @ decimal total_old @ '' +'' @
           decimal (context_before_start + 1) @ '','' @ decimal total_new @ '' @@'' @ [newline] @
           prefixed_lines '' '' (take (old_start_idx - context_before_start) (drop context_before_start old_lines)) @
           (case old_text h of None \<Rightarrow> [] | Some t \<Rightarrow> prefixed_lines ''-'' (lines t)) @
           prefixed_lines ''+'' (lines (new_text h)) @
           prefixed_lines '' '' (take (context_after_end - changes_end_new) (drop changes_end_new new_lines))))"

definition format_unified_diff :: "hunk \<Rightarrow> string" where
  "format_unified_diff h =
     ''--- a/'' @ hunk_path h @ [newline] @ ''+++ b/'' @ hunk_path h @ [newline] @
     hunk_line_info_display (line_info h) @ [newline] @
     (case old_text h of None \<Rightarrow> [] | Some t \<Rightarrow> prefixed_lines ''-'' (lines t)) @
     prefixed_lines ''+'' (lines (new_text h))"

section \<open>Matching hunks of two diffs\<close>

definition hunks_match_content :: "hunk \<Rightarrow> hunk \<Rightarrow> bool" where
  "hunks_match_content a b =
     (hunk_path a = hunk_path b \<and> old_text a = old_text b \<and> new_text a = new_text b)"

definition hunk_moved :: "hunk \<Rightarrow> hunk \<Rightarrow> bool" where
  "hunk_moved old new = (hunks_match_content old new \<and> line_info old \<noteq> line_info new)"

definition hunks_overlap :: "hunk \<Rightarrow> hunk \<Rightarrow> bool" where
  "hunks_overlap a b =
     (if hunk_path a \<noteq> hunk_path b then False
      else
        let a_start = old_start (line_info a); a_end = sat_add a_start (old_count (line_info a));
            b_start = old_start (line_info b); b_end = sat_add b_start (old_count (line_info b))
        in if old_count (line_info a) = 0 \<and> old_count (line_info b) = 0 then a_start = b_start
           else if old_count (line_info a) = 0 then b_start \<le> a_start \<and> a_start \<le> b_end
           else if old_count (line_info b) = 0 then a_start \<le> b_start \<and> b_start \<le> a_end
           else \<not> (a_end < b_start \<or> b_end < a_start))"

text \<open>\<open>Iterator::min_by_key\<close> keeps the first of equal elements, \<open>max_by_key\<close> the last.\<close>

fun min_by_key :: "('a \<Rightarrow> nat) \<Rightarrow> 'a list \<Rightarrow> 'a option" where
  "min_by_key f [] = None"
| "min_by_key f (x # xs) =
     (case min_by_key f xs of None \<Rightarrow> Some x | Some y \<Rightarrow> if f x \<le> f y then Some x else Some y)"

fun max_by_key :: "('a \<Rightarrow> nat) \<Rightarrow> 'a list \<Rightarrow> 'a option" where
  "max_by_key f [] = None"
| "max_by_key f (x # xs) =
     (case max_by_key f xs of None \<Rightarrow> Some x | Some y \<Rightarrow> if f x \<le> f y then Some y else Some x)"

definition abs_diff :: "nat \<Rightarrow> nat \<Rightarrow> nat" where
  "abs_diff a b = (a - b) + (b - a)"

definition calculate_overlap_size :: "hunk_line_info \<Rightarrow> hunk_line_info \<Rightarrow> nat" where
  "calculate_overlap_size a b =
     min (old_start a + old_count a) (old_start b + old_count b) - max (old_start a) (old_start b)"

definition find_matching_old_hunk :: "hunk \<Rightarrow> hunk list \<Rightarrow> hunk option" where
  "find_matching_old_hunk new_hunk old_hunks =
     (let content_matches = filter (\<lambda>o'. hunks_match_content o' new_hunk) old_hunks
      in if content_matches \<noteq> []
         then min_by_key (\<lambda>o'. abs_diff (new_start (line_info o')) (new_start (line_info new_hunk))) content_matches
         else max_by_key (\<lambda>o'. calculate_overlap_size (line_info o') (line_info new_hunk))
                (filter (\<lambda>o'. hunks_overlap o' new_hunk) old_hunks))"

definition find_overlapping_hunks :: "hunk \<Rightarrow> hunk list \<Rightarrow> hunk list" where
  "find_overlapping_hunks new_hunk old_hunks = filter (\<lambda>o'. hunks_overlap o' new_hunk) old_hunks"

section \<open>Texts as lists of lines\<close>

text \<open>Text files: every line is closed by a line feed and there is no carriage return.\<close>

definition unlines :: "string list \<Rightarrow> string" where
  "unlines ls = concat (map (\<lambda>l. l @ [newline]) ls)"

definition plain_line :: "string \<Rightarrow> bool" where
  "plain_line l = (newline \<notin> set l \<and> carriage_return \<notin> set l)"

definition text_file :: "string \<Rightarrow> bool" where
  "text_file s = (carriage_return \<notin> set s \<and> (s = [] \<or> last s = newline))"

lemma unlines_simps [simp]:
  "unlines [] = []" "unlines (l # ls) = l @ newline # unlines ls" "unlines (ls @ ms) = unlines ls @ unlines ms"
  by (simp_all add: unlines_def)

lemma unlines_eq_Nil [simp]: "unlines ls = [] \<longleftrightarrow> ls = []"
  by (cases ls) simp_all

lemma split_inclusive_line:
  "newline \<notin> set l \<Longrightarrow> split_inclusive (l @ newline # s) = (l @ [newline]) # split_inclusive s"
  by (induction l) auto

lemma split_inclusive_unlines:
  "list_all plain_line ls \<Longrightarrow> split_inclusive (unlines ls) = map (\<lambda>l. l @ [newline]) ls"
  by (induction ls) (simp_all add: split_inclusive_line plain_line_def)

lemma line_content_closed: "plain_line l \<Longrightarrow> line_content (l @ [newline]) = l"
  by (cases l rule: rev_cases)
    (auto simp: line_content_def plain_line_def strip_suffix_def ends_with_suffix suffix_def split: option.splits)

lemma lines_unlines [simp]: "list_all plain_line ls \<Longrightarrow> lines (unlines ls) = ls"
  by (induction ls) (simp_all add: lines_def split_inclusive_line line_content_closed plain_line_def)

lemma text_file_unlines [simp]: "list_all plain_line ls \<Longrightarrow> text_file (unlines ls)"
proof -
  have "last (unlines ls) = newline" if "ls \<noteq> []" using that
    by (cases ls rule: rev_cases) auto
  moreover have "carriage_return \<notin> set (unlines ls)" if "list_all plain_line ls" using that
    by (induction ls) (auto simp: plain_line_def)
  ultimately show "list_all plain_line ls \<Longrightarrow> text_file (unlines ls)"
    by (cases "ls = []") (simp_all add: text_file_def)
qed

lemma text_file_cases:
  assumes "text_file s"
  obtains ls where "list_all plain_line ls" and "s = unlines ls"
  using assms
proof (induction s arbitrary: thesis rule: length_induct)
  case (1 s)
  show ?case
  proof (cases "s = []")
    case True
    then show thesis using "1.prems"(1) [of "[]"] by simp
  next
    case False
    with "1.prems"(2) have "newline \<in> set s" and cr: "carriage_return \<notin> set s"
      using last_in_set [of s] by (simp_all add: text_file_def)
    then obtain l t where s: "s = l @ newline # t" and l: "newline \<notin> set l"
      by (meson split_list_first)
    have "text_file t" using "1.prems"(2) cr s by (auto simp: text_file_def split: if_splits)
    moreover have "length t < length s" using s by simp
    ultimately obtain ls where "list_all plain_line ls" and "t = unlines ls"
      using "1.IH" by blast
    moreover have "plain_line l" using s l cr by (simp add: plain_line_def)
    ultimately show thesis
      using s "1.prems"(1) [of "l # ls"] by simp
  qed
qed

lemma plain_lines: "text_file s \<Longrightarrow> list_all plain_line (lines s)"
  by (erule text_file_cases) simp

lemma unlines_lines: "text_file s \<Longrightarrow> unlines (lines s) = s"
  by (erule text_file_cases) simp

lemma join_unlines: "ls \<noteq> [] \<Longrightarrow> join [newline] ls @ [newline] = unlines ls"
  by (induction "[newline]" ls rule: join.induct) simp_all

lemma join_Nil_iff: "join [newline] ls = [] \<longleftrightarrow> ls = [] \<or> ls = [[]]"
  by (induction "[newline]" ls rule: join.induct) simp_all

subsection \<open>Patching a list of lines\<close>

definition patch_list :: "'a list \<Rightarrow> nat \<Rightarrow> nat \<Rightarrow> 'a list \<Rightarrow> 'a list" where
  "patch_list ls start_line remove_count ins =
     take (start_line - 1) ls @ ins @ drop (start_line - 1 + remove_count) ls"

lemma patch_list_middle:
  "patch_list (pre @ mid @ post) (Suc (length pre)) (length mid) ins = pre @ ins @ post"
  by (simp add: patch_list_def)

lemma patch_lines_unlines:
  assumes "list_all plain_line ls" and "list_all plain_line ins" and "ls \<noteq> []"
    and "patch_list ls start_line remove_count ins \<noteq> [[]]"
  shows "patch_lines (unlines ls) start_line remove_count (unlines ins) =
    unlines (patch_list ls start_line remove_count ins)"
proof -
  let ?r = "patch_list ls start_line remove_count ins"
  have r: "take (min (start_line - 1) (length ls)) ls @ (if unlines ins \<noteq> [] then lines (unlines ins) else []) @
      drop (min (start_line - 1 + remove_count) (length ls)) ls = ?r"
    using assms(2) by (auto simp: patch_list_def min_def)
  have "ends_with (unlines ls) [newline]"
    using assms(3) by (cases ls rule: rev_cases) (auto simp: ends_with_suffix suffix_def)
  moreover have "join [newline] ?r \<noteq> [] \<longleftrightarrow> ?r \<noteq> []"
    using assms(4) by (simp add: join_Nil_iff)
  ultimately show ?thesis
    unfolding patch_lines_def Let_def lines_unlines [OF assms(1)] r
    by (cases "?r = []") (simp_all add: join_unlines)
qed

section \<open>Edit scripts\<close>

text \<open>What the changes of a diff say about the two texts: without the insertions they are the lines of the
  old one, without the deletions the lines of the new one.\<close>

definition old_side :: "(change_tag \<times> string) list \<Rightarrow> string list" where
  "old_side cs = map snd (filter (\<lambda>c. fst c \<noteq> Insert) cs)"

definition new_side :: "(change_tag \<times> string) list \<Rightarrow> string list" where
  "new_side cs = map snd (filter (\<lambda>c. fst c \<noteq> Delete) cs)"

definition common_lines :: "(change_tag \<times> string) list \<Rightarrow> string list" where
  "common_lines cs = map snd (filter (\<lambda>c. fst c = Equal) cs)"

definition is_script :: "(change_tag \<times> string) list \<Rightarrow> string \<Rightarrow> string \<Rightarrow> bool" where
  "is_script cs baseline current =
     (old_side cs = split_inclusive baseline \<and> new_side cs = split_inclusive current)"

lemma side_simps [simp]:
  "old_side [] = []" "new_side [] = []" "common_lines [] = []"
  "old_side ((Equal, l) # cs) = l # old_side cs" "new_side ((Equal, l) # cs) = l # new_side cs"
  "common_lines ((Equal, l) # cs) = l # common_lines cs"
  "old_side ((Delete, l) # cs) = l # old_side cs" "new_side ((Delete, l) # cs) = new_side cs"
  "common_lines ((Delete, l) # cs) = common_lines cs"
  "old_side ((Insert, l) # cs) = old_side cs" "new_side ((Insert, l) # cs) = l # new_side cs"
  "common_lines ((Insert, l) # cs) = common_lines cs"
  by (simp_all add: old_side_def new_side_def common_lines_def)

lemma common_lines_Nil: "old_side cs = [] \<Longrightarrow> common_lines cs = []"
  by (auto simp: old_side_def common_lines_def filter_empty_conv)

text \<open>Reading a script backwards exchanges accepting and rejecting.\<close>

definition flip_change :: "change_tag \<times> string \<Rightarrow> change_tag \<times> string" where
  "flip_change c = (case fst c of Equal \<Rightarrow> Equal | Delete \<Rightarrow> Insert | Insert \<Rightarrow> Delete, snd c)"

definition flip_builder :: "hunk_builder \<Rightarrow> hunk_builder" where
  "flip_builder b =
     \<lparr>b_old_start = b_new_start b, b_new_start = b_old_start b,
      b_old_lines = b_new_lines b, b_new_lines = b_old_lines b\<rparr>"

lemma flip_change_simps [simp]:
  "flip_change (Equal, l) = (Equal, l)" "flip_change (Delete, l) = (Insert, l)" "flip_change (Insert, l) = (Delete, l)"
  by (simp_all add: flip_change_def)

lemma sides_flip [simp]:
  "old_side (map flip_change cs) = new_side cs" "new_side (map flip_change cs) = old_side cs"
  "common_lines (map flip_change cs) = common_lines cs"
  by (induction cs) (auto simp: old_side_def new_side_def common_lines_def flip_change_def split: change_tag.splits)

lemma install_build: "install (build env n p src b) = revert (build env m q src' (flip_builder b))"
  by (rule ext) (simp add: install_def revert_def build_def flip_builder_def)

lemma install_hunk_loop:
  "map install (hunk_loop env p src n cs ol nl cur) =
   map revert (hunk_loop env p src n (map flip_change cs) nl ol (map_option flip_builder cur))"
proof (induction env p src n cs ol nl cur rule: hunk_loop.induct)
  case (5 env p src n l cs ol nl cur)
  have "flip_builder (add_old_line l (in_progress cur ol nl)) =
      add_new_line l (in_progress (map_option flip_builder cur) nl ol)"
    by (cases cur) (simp_all add: flip_builder_def add_old_line_def add_new_line_def in_progress_def builder_new_def)
  with 5 show ?case by simp
next
  case (6 env p src n l cs ol nl cur)
  have "flip_builder (add_new_line l (in_progress cur ol nl)) =
      add_old_line l (in_progress (map_option flip_builder cur) nl ol)"
    by (cases cur) (simp_all add: flip_builder_def add_old_line_def add_new_line_def in_progress_def builder_new_def)
  with 6 show ?case by simp
qed (simp_all add: install_build [where m = n and n = n for n])

subsection \<open>Rejecting and accepting every hunk\<close>

definition closed_line :: "string \<Rightarrow> bool" where
  "closed_line r = (\<exists>l. plain_line l \<and> r = l @ [newline])"

lemma closed_lineI [simp]: "plain_line l \<Longrightarrow> closed_line (l @ [newline])"
  by (auto simp: closed_line_def)

lemma closed_line_content: "closed_line r \<Longrightarrow> r = line_content r @ [newline]"
  by (auto simp: closed_line_def line_content_closed)

lemma concat_closed: "list_all closed_line rs \<Longrightarrow> concat rs = unlines (map line_content rs)"
  by (induction rs) (use closed_line_content in force)+

lemma plain_content: "list_all closed_line rs \<Longrightarrow> list_all plain_line (map line_content rs)"
  by (induction rs) (auto simp: closed_line_def line_content_closed)

lemma closed_split: "text_file s \<Longrightarrow> list_all closed_line (split_inclusive s)"
  by (erule text_file_cases) (simp add: split_inclusive_unlines list_all_iff)

lemma concat_split_inclusive [simp]: "concat (split_inclusive s) = s"
  by (induction s) (auto split: list.splits)

lemma split_inclusive_Nil [simp]: "split_inclusive s = [] \<longleftrightarrow> s = []"
  by (metis concat.simps(1) concat_split_inclusive split_inclusive.simps(1))

lemma line_content_Nil: "closed_line r \<Longrightarrow> line_content r = [] \<longleftrightarrow> r = [newline]"
  by (metis append_Nil closed_line_content line_content_closed plain_line_def empty_iff list.set(1))

lemma patch_closed:
  assumes "list_all closed_line pre" and "list_all closed_line mid" and "list_all closed_line post"
    and "list_all closed_line ins" and "pre @ mid @ post \<noteq> []" and "pre @ ins @ post \<noteq> [[newline]]"
  shows "patch_lines (concat pre @ concat mid @ concat post) (Suc (length pre)) (length mid) (concat ins) =
    concat pre @ concat ins @ concat post"
proof -
  let ?c = "map line_content"
  have "patch_list (?c pre @ ?c mid @ ?c post) (Suc (length (?c pre))) (length (?c mid)) (?c ins) =
      ?c pre @ ?c ins @ ?c post"
    by (rule patch_list_middle)
  moreover have "?c (pre @ ins @ post) \<noteq> [[]]"
  proof
    assume "?c (pre @ ins @ post) = [[]]"
    then obtain r where r: "pre @ ins @ post = [r]" and "line_content r = []"
      by (cases "pre @ ins @ post") auto
    moreover have "list_all closed_line (pre @ ins @ post)" using assms(1,3,4) by simp
    ultimately have "r = [newline]" using line_content_Nil by simp
    with r assms(6) show False by simp
  qed
  ultimately show ?thesis
    using patch_lines_unlines [of "?c pre @ ?c mid @ ?c post" "?c ins" "Suc (length pre)" "length mid"] assms
    by (simp add: concat_closed plain_content)
qed

text \<open>The loop, with the lines before the hunk in progress already common to both texts.\<close>

lemma revert_build:
  assumes "b_new_start b = Suc (length pre)"
    and "list_all closed_line (pre @ b_old_lines b @ b_new_lines b @ post)"
    and "pre @ b_new_lines b @ post \<noteq> []" and "pre @ b_old_lines b @ post \<noteq> [[newline]]"
  shows "revert (build env n p src b) (concat (pre @ b_new_lines b @ post)) = concat (pre @ b_old_lines b @ post)"
  using patch_closed [of pre "b_new_lines b" post "b_old_lines b"] assms
  by (auto simp: revert_def build_def)

lemma revert_hunk_loop:
  assumes "case cur of None \<Rightarrow> new = [] \<and> old = [] \<and> nl = Suc (length pre)
      | Some b \<Rightarrow> new = b_new_lines b \<and> old = b_old_lines b \<and> b_new_start b = Suc (length pre) \<and>
          nl = Suc (length pre + length new)"
    and "list_all closed_line (pre @ new @ old)" and "list_all (\<lambda>c. closed_line (snd c)) cs"
    and "pre @ new @ new_side cs \<noteq> []" and "pre @ old @ old_side cs \<noteq> [[newline]]"
    and "pre = [] \<longrightarrow> common_lines cs \<noteq> [[newline]]"
  shows "foldr revert (hunk_loop env p src n cs ol nl cur) (concat (pre @ new @ new_side cs)) =
    concat (pre @ old @ old_side cs)"
  using assms
proof (induction env p src n cs ol nl cur arbitrary: pre new old rule: hunk_loop.induct)
  case (2 env p src n ol nl b)
  then show ?case using revert_build [of b pre "[]"] by simp
next
  case (3 env p src n l cs ol nl)
  then show ?case using "3.IH" [of "[]" "[]" "pre @ [l]"] by simp
next
  case (4 env p src n l cs ol nl b)
  let ?post = "l # old_side cs"
  have "pre @ new @ ?post \<noteq> [[newline]]"
  proof
    assume "pre @ new @ ?post = [[newline]]"
    then have "pre = []" and "l = [newline]" and "old_side cs = []" by (auto simp: append_eq_Cons_conv)
    with 4(7) show False by (simp add: common_lines_Nil)
  qed
  with 4 have IH: "foldr revert (hunk_loop env p src (n + 1) cs (ol + 1) (nl + 1) None)
      (concat (pre @ new @ l # new_side cs)) = concat (pre @ new @ ?post)"
    using "4.IH" [of "[]" "[]" "pre @ new @ [l]"] by simp
  have closed: "list_all closed_line (pre @ b_old_lines b @ b_new_lines b @ ?post)"
    using 4(2-4) by (auto simp: old_side_def list_all_iff)
  show ?case
    using IH revert_build [OF _ closed] 4(2,5,6) by simp
next
  case (5 env p src n l cs ol nl cur)
  then show ?case
    using "5.IH" [of new "old @ [l]" pre]
    by (cases cur) (simp_all add: in_progress_def builder_new_def add_old_line_def)
next
  case (6 env p src n l cs ol nl cur)
  then show ?case
    using "6.IH" [of "new @ [l]" old pre]
    by (cases cur) (simp_all add: in_progress_def builder_new_def add_new_line_def)
qed simp

lemma closed_script:
  assumes "is_script cs b c" and "text_file b" and "text_file c"
  shows "list_all (\<lambda>c. closed_line (snd c)) cs"
proof -
  have "snd x \<in> set (old_side cs) \<union> set (new_side cs)" if "x \<in> set cs" for x
    using that by (cases "fst x") (auto simp: old_side_def new_side_def)
  then show ?thesis
    using assms closed_split by (fastforce simp: is_script_def list_all_iff)
qed

lemma is_script_flip: "is_script (map flip_change cs) c b = is_script cs b c"
  by (auto simp: is_script_def)

lemma split_inclusive_blank: "split_inclusive s = [[newline]] \<longleftrightarrow> s = [newline]"
  by (metis append_Nil concat_split_inclusive concat.simps append_Nil2 split_inclusive_line
      split_inclusive.simps(1) empty_iff list.set(1))

lemma revert_all:
  assumes "is_script cs b c" and "text_file b" and "text_file c"
    and "c \<noteq> []" and "b \<noteq> [newline]" and "common_lines cs \<noteq> [[newline]]"
  shows "foldr revert (hunk_loop env p src n cs ol 1 None) c = b"
  using revert_hunk_loop [where cur = None and new = "[]" and old = "[]" and nl = 1 and pre = "[]"
      and cs = cs and env = env and p = p and src = src and n = n and ol = ol] closed_script [OF assms(1-3)] assms
  by (simp add: is_script_def split_inclusive_blank)

lemma foldr_map: "foldr f xs = foldr id (map f xs)"
  by (induction xs) simp_all

lemma install_all:
  assumes "is_script cs b c" and "text_file b" and "text_file c"
    and "b \<noteq> []" and "c \<noteq> [newline]" and "common_lines cs \<noteq> [[newline]]"
  shows "foldr install (hunk_loop env p src n cs 1 nl None) b = c"
  using revert_all [of "map flip_change cs" c b env p src n nl] assms
  by (simp add: foldr_map [of install] foldr_map [of revert] install_hunk_loop is_script_flip)

subsection \<open>Where the hunks are\<close>

text \<open>Hunks come in the order of the file, on both sides, and lie inside it.\<close>

definition before :: "hunk \<Rightarrow> hunk \<Rightarrow> bool" where
  "before g h = (old_start (line_info g) < old_start (line_info h) \<and> new_start (line_info g) < new_start (line_info h))"

definition in_file :: "nat \<Rightarrow> nat \<Rightarrow> hunk \<Rightarrow> bool" where
  "in_file m n h =
     (1 \<le> old_start (line_info h) \<and> old_start (line_info h) + old_count (line_info h) \<le> Suc m \<and>
      1 \<le> new_start (line_info h) \<and> new_start (line_info h) + new_count (line_info h) \<le> Suc n)"

lemma hunk_loop_starts:
  assumes "case cur of None \<Rightarrow> so = ol \<and> sn = nl
      | Some b \<Rightarrow> so = b_old_start b \<and> sn = b_new_start b \<and> ol = so + length (b_old_lines b) \<and>
          nl = sn + length (b_new_lines b)"
    and "1 \<le> so" and "1 \<le> sn"
  shows "(\<forall>h \<in> set (hunk_loop env p src n cs ol nl cur).
        so \<le> old_start (line_info h) \<and> sn \<le> new_start (line_info h) \<and>
        in_file (ol - 1 + length (old_side cs)) (nl - 1 + length (new_side cs)) h) \<and>
      sorted_wrt before (hunk_loop env p src n cs ol nl cur)"
  using assms
proof (induction env p src n cs ol nl cur arbitrary: so sn rule: hunk_loop.induct)
  case (2 env p src n ol nl b)
  then show ?case by (auto simp: build_def in_file_def)
next
  case (3 env p src n l cs ol nl)
  then show ?case using "3.IH" [of "ol + 1" "nl + 1"] by auto
next
  case (4 env p src n l cs ol nl b)
  then show ?case
    using "4.IH" [of "ol + 1" "nl + 1"] by (auto simp: build_def before_def in_file_def)
next
  case (5 env p src n l cs ol nl cur)
  let ?b = "add_old_line l (in_progress cur ol nl)"
  have b: "b_old_start ?b = so" "b_new_start ?b = sn" "ol + 1 = so + length (b_old_lines ?b)"
    "nl = sn + length (b_new_lines ?b)"
    using "5.prems"(1) by (cases cur; simp add: in_progress_def builder_new_def add_old_line_def)+
  have "1 \<le> ol" using "5.prems" by (cases cur) simp_all
  then have len: "ol + 1 - 1 + length (old_side cs) = ol - 1 + length (old_side ((Delete, l) # cs))"
    by simp
  show ?case
    using "5.IH" [of so sn] b "5.prems"(2,3) unfolding len by simp
next
  case (6 env p src n l cs ol nl cur)
  let ?b = "add_new_line l (in_progress cur ol nl)"
  have b: "b_old_start ?b = so" "b_new_start ?b = sn" "ol = so + length (b_old_lines ?b)"
    "nl + 1 = sn + length (b_new_lines ?b)"
    using "6.prems"(1) by (cases cur; simp add: in_progress_def builder_new_def add_new_line_def)+
  have "1 \<le> nl" using "6.prems" by (cases cur) simp_all
  then have len: "nl + 1 - 1 + length (new_side cs) = nl - 1 + length (new_side ((Insert, l) # cs))"
    by simp
  show ?case
    using "6.IH" [of so sn] b "6.prems"(2,3) unfolding len by simp
qed simp

lemma hunks_in_order:
  "sorted_wrt before (hunk_loop env p src n cs 1 1 None)"
  "h \<in> set (hunk_loop env p src n cs 1 1 None) \<Longrightarrow> in_file (length (old_side cs)) (length (new_side cs)) h"
  using hunk_loop_starts [where cur = None and so = 1 and sn = 1 and ol = 1 and nl = 1
      and env = env and p = p and src = src and n = n and cs = cs]
  by simp_all

lemma sort_key_descending:
  fixes f :: "'a \<Rightarrow> nat"
  assumes "sorted_wrt (\<lambda>x y. f x < f y) xs"
  shows "sort_key (\<lambda>x. - int (f x)) xs = rev xs"
proof (rule sort_key_inj_key_eq)
  show "mset xs = mset (rev xs)" by simp
  show "inj_on (\<lambda>x. - int (f x)) (set xs)"
    using assms by (induction xs) (fastforce simp: inj_on_insert)+
  show "sorted (map (\<lambda>x. - int (f x)) (rev xs))"
    using assms by (induction xs) (auto simp: sorted_append)
qed

section \<open>What patching does to a text\<close>

text \<open>C24: on text files patching bytes is patching lines. For a text that is not empty and an insertion, both with every line
  ended by a line feed and no carriage return, the text with some of its lines replaced is again such a text, the one of
  the list with those elements replaced, unless that list is a single blank line.\<close>

theorem patch_lines_refines_patch_list:
  assumes "text_file content" and "text_file ins" and "content \<noteq> []"
    and "patch_list (lines content) start_line remove_count (lines ins) \<noteq> [[]]"
  shows "lines (patch_lines content start_line remove_count ins) =
      patch_list (lines content) start_line remove_count (lines ins) \<and>
    text_file (patch_lines content start_line remove_count ins)"
proof -
  let ?r = "patch_list (lines content) start_line remove_count (lines ins)"
  have plain: "list_all plain_line (lines content)" "list_all plain_line (lines ins)"
    using assms(1,2) plain_lines by auto
  have "lines content \<noteq> []" using assms(1,3) unlines_lines by fastforce
  from patch_lines_unlines [OF plain this assms(4)]
  have eq: "patch_lines content start_line remove_count ins = unlines ?r"
    by (simp add: unlines_lines assms(1,2))
  have "list_all plain_line ?r"
    using plain by (auto simp: patch_list_def list_all_iff dest: in_set_takeD in_set_dropD)
  then show ?thesis by (simp add: eq)
qed

theorem patch_lines_refines_patch_list_witness:
  "lines (patch_lines (unlines [''a'', ''b'']) 2 1 (unlines [''x'', ''y''])) = [''a'', ''x'', ''y''] \<and>
   text_file (patch_lines (unlines [''a'', ''b'']) 2 1 (unlines [''x'', ''y'']))"
  using patch_lines_refines_patch_list [of "unlines [''a'', ''b'']" "unlines [''x'', ''y'']" 2 1]
  by (simp add: plain_line_def patch_list_def del: unlines_simps(2))

text \<open>Outside text files patching also changes what no hunk speaks about. Every line end becomes a single line feed,
  and the final line feed is always that of the patched text.\<close>

lemma line_content_cr:
  "carriage_return \<notin> set l \<Longrightarrow> line_content (l @ [carriage_return, newline]) = l"
  "carriage_return \<notin> set l \<Longrightarrow> carriage_return \<notin> set (line_content l)"
proof -
  show "line_content (l @ [carriage_return, newline]) = l"
    by (simp add: line_content_def strip_suffix_def ends_with_suffix suffix_def)
  show "carriage_return \<notin> set l \<Longrightarrow> carriage_return \<notin> set (line_content l)"
    by (auto simp: line_content_def strip_suffix_eq_Some split: option.splits)
qed

fun no_lone_cr :: "string \<Rightarrow> bool" where
  "no_lone_cr [] = True"
| "no_lone_cr (a # s) = ((a = carriage_return \<longrightarrow> s \<noteq> [] \<and> hd s = newline) \<and> no_lone_cr s)"

lemma no_lone_cr_append:
  "no_lone_cr (l @ s) \<Longrightarrow> no_lone_cr s"
  "no_lone_cr (l @ newline # s) \<Longrightarrow> newline \<notin> set l \<Longrightarrow> carriage_return \<notin> set (butlast l)"
  by (induction l) (auto split: if_splits simp: hd_append dest: hd_in_set)

lemma no_lone_cr_line: "no_lone_cr s \<Longrightarrow> newline \<notin> set s \<Longrightarrow> carriage_return \<notin> set s"
  by (induction s) (auto dest: hd_in_set)

lemma split_inclusive_last: "newline \<notin> set s \<Longrightarrow> split_inclusive s = (if s = [] then [] else [s])"
  by (induction s) auto

lemma lines_no_cr: "no_lone_cr s \<Longrightarrow> l \<in> set (lines s) \<Longrightarrow> carriage_return \<notin> set l"
proof (induction s arbitrary: l rule: length_induct)
  case (1 s)
  show ?case
  proof (cases "newline \<in> set s")
    case False
    with 1 no_lone_cr_line show ?thesis
      by (auto simp: lines_def split_inclusive_last line_content_cr split: if_splits)
  next
    case True
    then obtain k t where s: "s = k @ newline # t" and k: "newline \<notin> set k" by (meson split_list_first)
    have t: "no_lone_cr t" using no_lone_cr_append(1) [of "k @ [newline]" t] "1.prems"(1) s by simp
    have "carriage_return \<notin> set (line_content (k @ [newline]))"
    proof (cases k rule: rev_cases)
      case (snoc k' c)
      then have "carriage_return \<notin> set k'" using no_lone_cr_append(2) [OF "1.prems"(1) [unfolded s] k] by simp
      then show ?thesis
        using snoc line_content_cr [of k'] line_content_cr(2) [of "k @ [newline]"] by (cases "c = carriage_return") auto
    qed (simp add: line_content_cr)
    moreover have "length t < length s" by (simp add: s)
    then have "l \<in> set (lines t) \<Longrightarrow> carriage_return \<notin> set l" using "1.IH" t by blast
    moreover have "lines s = line_content (k @ [newline]) # lines t"
      by (simp add: s lines_def split_inclusive_line [OF k])
    ultimately show ?thesis using "1.prems"(2) by auto
  qed
qed

lemma patching_drops_carriage_returns:
  assumes "no_lone_cr content" and "no_lone_cr ins"
  shows "carriage_return \<notin> set (patch_lines content start_line remove_count ins)"
proof -
  have join: "carriage_return \<notin> set (join [newline] ls)" if "\<forall>l \<in> set ls. carriage_return \<notin> set l" for ls
    using that by (induction "[newline]" ls rule: join.induct) auto
  show ?thesis
    using lines_no_cr assms unfolding patch_lines_def Let_def
    by (auto dest!: join [THEN notE, rotated] in_set_takeD in_set_dropD split: if_splits)
qed

lemma patching_keeps_final_newline:
  "ends_with content [newline] \<Longrightarrow> patch_lines content start_line remove_count ins = [] \<or>
   ends_with (patch_lines content start_line remove_count ins) [newline]"
  by (auto simp: patch_lines_def Let_def ends_with_suffix)

end
