(* ===== verification/Path_Match.thy ===== *)
theory Path_Match
  imports Rust_Prelude
begin

text \<open>
  Path spellings (\<open>policy/path_match.rs\<close> and \<open>normalize_lexically\<close> of \<open>xai-grok-paths\<close>): the strings
  that Read, Edit and Grep rules are matched against, and the symlink resolution behind the
  escalate-only re-checks.

  Paths are Unix paths, given by their bytes, with \<open>std::path\<close>'s reading of them as components; two
  paths are equal when their components are. A slice of a path (\<open>parent\<close>, the rest after a prefix)
  is written out from its components. The file system is a parameter: a record of the three calls
  the code makes. Nothing is assumed of it except where a lemma says so.
\<close>

section \<open>Components (\<open>std::path\<close>)\<close>

datatype component = RootDir | CurDir | ParentDir | Normal string

abbreviation slash :: char where
  "slash \<equiv> CHR ''/''"

definition is_absolute :: "string \<Rightarrow> bool" where
  "is_absolute p = starts_with p [slash]"

fun split_slash :: "string \<Rightarrow> string list" where
  "split_slash [] = [[]]"
| "split_slash (c # s) =
     (if c = slash then [] # split_slash s
      else case split_slash s of [] \<Rightarrow> [[c]] | w # ws \<Rightarrow> (c # w) # ws)"

definition piece_component :: "string \<Rightarrow> component" where
  "piece_component p = (if p = ''..'' then ParentDir else Normal p)"

definition plain_components :: "string list \<Rightarrow> component list" where
  "plain_components ps = map piece_component (filter (\<lambda>p. p \<noteq> ''.'') ps)"

definition components :: "string \<Rightarrow> component list" where
  "components s =
     (let pieces = filter (\<lambda>p. p \<noteq> []) (split_slash s)
      in if is_absolute s then RootDir # plain_components pieces
         else case pieces of
           p # ps \<Rightarrow> (if p = ''.'' then CurDir # plain_components ps else plain_components (p # ps))
         | [] \<Rightarrow> [])"

text \<open>\<open>PathBuf::push\<close>, hence \<open>join\<close> and collecting components.\<close>

definition push_path :: "string \<Rightarrow> string \<Rightarrow> string" where
  "push_path buf p =
     (if is_absolute p then p
      else if buf = [] \<or> last buf = slash then buf @ p
      else buf @ [slash] @ p)"

definition component_str :: "component \<Rightarrow> string" where
  "component_str c =
     (case c of RootDir \<Rightarrow> [slash] | CurDir \<Rightarrow> ''.'' | ParentDir \<Rightarrow> ''..'' | Normal n \<Rightarrow> n)"

definition render :: "component list \<Rightarrow> string" where
  "render cs = foldl push_path [] (map component_str cs)"

fun strip_component_prefix :: "component list \<Rightarrow> component list \<Rightarrow> component list option" where
  "strip_component_prefix cs [] = Some cs"
| "strip_component_prefix [] (b # bs) = None"
| "strip_component_prefix (c # cs) (b # bs) = (if c = b then strip_component_prefix cs bs else None)"

definition path_strip_prefix :: "string \<Rightarrow> string \<Rightarrow> string option" where
  "path_strip_prefix p base =
     map_option render (strip_component_prefix (components p) (components base))"

definition path_parent :: "string \<Rightarrow> string option" where
  "path_parent p =
     (let cs = components p
      in if cs = [] \<or> last cs = RootDir then None else Some (render (butlast cs)))"

definition path_file_name :: "string \<Rightarrow> string option" where
  "path_file_name p =
     (case rev (components p) of Normal n # _ \<Rightarrow> Some n | _ \<Rightarrow> None)"

section \<open>Lexical normal form\<close>

definition normalize_step :: "component list \<Rightarrow> component \<Rightarrow> component list" where
  "normalize_step acc c =
     (case c of
        CurDir \<Rightarrow> acc
      | ParentDir \<Rightarrow>
          (case rev acc of
             Normal _ # _ \<Rightarrow> butlast acc
           | RootDir # _ \<Rightarrow> acc
           | _ \<Rightarrow> acc @ [ParentDir])
      | _ \<Rightarrow> acc @ [c])"

definition normalize_components :: "component list \<Rightarrow> component list" where
  "normalize_components cs = foldl normalize_step [] cs"

definition normalize_lexically :: "string \<Rightarrow> string" where
  "normalize_lexically p =
     (let cs = normalize_components (components p)
      in if cs = [] then ''.'' else render cs)"

section \<open>Symlinks\<close>

datatype metadata = Symlink | OtherFile | NotFound | OtherError

record file_system =
  canonicalize :: "string \<Rightarrow> string option"
  symlink_metadata :: "string \<Rightarrow> metadata"
  read_link :: "string \<Rightarrow> string option"

definition MAX_SYMLINK_DEPTH :: nat where
  "MAX_SYMLINK_DEPTH = 40"

text \<open>\<open>walk\<close>: the fuel is what is left of the depth, \<open>MAX_SYMLINK_DEPTH + 1 - depth\<close>.\<close>

fun symlink_walk :: "file_system \<Rightarrow> nat \<Rightarrow> string \<Rightarrow> string option" where
  "symlink_walk fs 0 p = None"
| "symlink_walk fs (Suc fuel) p =
     (case canonicalize fs p of
        Some c \<Rightarrow> Some c
      | None \<Rightarrow>
     (case path_parent p of None \<Rightarrow> None | Some parent \<Rightarrow>
     (case path_file_name p of None \<Rightarrow> None | Some file_name \<Rightarrow>
     (case symlink_walk fs fuel parent of None \<Rightarrow> None | Some resolved_parent \<Rightarrow>
     (let candidate = push_path resolved_parent file_name
      in case symlink_metadata fs candidate of
           OtherError \<Rightarrow> None
         | NotFound \<Rightarrow> Some candidate
         | OtherFile \<Rightarrow> Some candidate
         | Symlink \<Rightarrow>
             (case read_link fs candidate of
                None \<Rightarrow> None
              | Some target \<Rightarrow>
                  symlink_walk fs fuel
                    (if is_absolute target then target else push_path resolved_parent target)))))))"

definition resolve_following_symlinks :: "file_system \<Rightarrow> string \<Rightarrow> string option" where
  "resolve_following_symlinks fs p = symlink_walk fs (MAX_SYMLINK_DEPTH + 1) p"

section \<open>Match forms\<close>

text \<open>\<open>physical\<close> is a cell that is filled on first use; \<open>Some None\<close> is a cell filled with "no
  physical form".\<close>

record rule_base =
  lexical :: string
  lexical_normalized :: string
  physical_cell :: "string option option"

definition rule_base_new :: "string \<Rightarrow> rule_base" where
  "rule_base_new cwd =
     \<lparr>lexical = cwd, lexical_normalized = normalize_lexically cwd, physical_cell = None\<rparr>"

definition without_physical :: "rule_base \<Rightarrow> rule_base" where
  "without_physical base = base\<lparr>physical_cell := Some None\<rparr>"

definition physical :: "file_system \<Rightarrow> rule_base \<Rightarrow> string option" where
  "physical fs base =
     (case physical_cell base of
        Some v \<Rightarrow> v
      | None \<Rightarrow>
          if is_absolute (lexical base) then
            (case resolve_following_symlinks fs (lexical base) of
               Some p \<Rightarrow> if components p \<noteq> components (lexical_normalized base) then Some p else None
             | None \<Rightarrow> None)
          else None)"

definition is_tilde_path :: "string \<Rightarrow> bool" where
  "is_tilde_path p =
     (case components p of Normal first # _ \<Rightarrow> starts_with first ''~'' | _ \<Rightarrow> False)"

definition path_match_string :: "string \<Rightarrow> string" where
  "path_match_string p = map (\<lambda>c. if c = backslash then slash else c) p"

definition path_has_parent_dir :: "string \<Rightarrow> bool" where
  "path_has_parent_dir p = (ParentDir \<in> set (components p))"

definition join_cwd :: "string option \<Rightarrow> string \<Rightarrow> string" where
  "join_cwd cwd raw =
     (case cwd of Some c \<Rightarrow> (if \<not> is_absolute raw then push_path c raw else raw) | None \<Rightarrow> raw)"

definition absolute_normalized_path :: "string \<Rightarrow> string option \<Rightarrow> string" where
  "absolute_normalized_path p cwd =
     (if is_tilde_path p then p else normalize_lexically (join_cwd cwd p))"

definition raw_absolute_tool_path :: "string \<Rightarrow> string option \<Rightarrow> string option" where
  "raw_absolute_tool_path p cwd =
     (if is_tilde_path p then None
      else let joined = join_cwd cwd p
           in if is_absolute joined then Some (path_match_string joined) else None)"

text \<open>The relative spellings of a path under a cwd.\<close>

definition relative_forms :: "string \<Rightarrow> string list" where
  "relative_forms rel =
     (let rel_s = path_match_string rel
      in if rel_s = [] \<or> rel_s = ''.'' then [''.'', ''./''] else [''./'' @ rel_s, rel_s])"

definition path_match_forms :: "file_system \<Rightarrow> string \<Rightarrow> rule_base option \<Rightarrow> string list" where
  "path_match_forms fs p base =
     (let abs = absolute_normalized_path p (map_option lexical base)
      in path_match_string abs #
         (case base of
            Some b \<Rightarrow>
              (case path_strip_prefix abs (lexical_normalized b) of
                 Some rel \<Rightarrow> relative_forms rel
               | None \<Rightarrow>
                   if path_has_parent_dir p then []
                   else case physical fs b of
                     None \<Rightarrow> []
                   | Some phys \<Rightarrow>
                       (case strip_component_prefix (components abs) (components phys) of
                          None \<Rightarrow> []
                        | Some rel \<Rightarrow>
                            path_match_string (render (components (lexical_normalized b) @ rel)) #
                            relative_forms (render rel)))
          | None \<Rightarrow>
              if \<not> is_absolute abs \<and> \<not> path_has_parent_dir abs \<and> \<not> is_tilde_path abs then
                (let lex_s = path_match_string abs
                 in if lex_s \<noteq> ''.'' \<and> lex_s \<noteq> [] then [''./'' @ lex_s] else [])
              else []))"

section \<open>Following a symlink\<close>

fun path_prefixes :: "string \<Rightarrow> component list \<Rightarrow> string list" where
  "path_prefixes buf [] = []"
| "path_prefixes buf (c # cs) =
     (let buf' = push_path buf (component_str c) in buf' # path_prefixes buf' cs)"

definition path_has_symlink :: "file_system \<Rightarrow> string \<Rightarrow> bool" where
  "path_has_symlink fs absolute =
     (if \<not> is_absolute absolute then False
      else list_ex (\<lambda>pre. symlink_metadata fs pre = Symlink) (path_prefixes [] (components absolute)))"

definition resolve_symlink_target :: "file_system \<Rightarrow> string \<Rightarrow> string option" where
  "resolve_symlink_target fs absolute =
     (if \<not> is_absolute absolute then None
      else map_option (\<lambda>r. path_match_string (normalize_lexically r))
             (resolve_following_symlinks fs absolute))"

datatype symlink_follow = FollowNone | FollowTarget string | Unresolvable

definition follow_absolute_symlink :: "file_system \<Rightarrow> string \<Rightarrow> string \<Rightarrow> symlink_follow" where
  "follow_absolute_symlink fs raw_absolute lexical_absolute =
     (case resolve_symlink_target fs raw_absolute of
        Some resolved \<Rightarrow> (if resolved \<noteq> lexical_absolute then FollowTarget resolved else FollowNone)
      | None \<Rightarrow> (if path_has_symlink fs raw_absolute then Unresolvable else FollowNone))"

section \<open>Components and their spelling\<close>

definition plain_component :: "component \<Rightarrow> bool" where
  "plain_component c =
     (case c of
        ParentDir \<Rightarrow> True
      | Normal n \<Rightarrow> n \<noteq> [] \<and> slash \<notin> set n \<and> n \<noteq> ''.'' \<and> n \<noteq> ''..''
      | _ \<Rightarrow> False)"

lemma split_slash_nonempty [simp]: "split_slash s \<noteq> []"
  by (induction s) (auto split: list.splits)

lemma split_slash_pieces: "w \<in> set (split_slash s) \<Longrightarrow> slash \<notin> set w"
proof (induction s arbitrary: w)
  case (Cons c s)
  then show ?case by (cases "split_slash s") (auto split: if_splits)
qed simp

lemma split_slash_word: "slash \<notin> set w \<Longrightarrow> split_slash w = [w]"
  by (induction w) auto

lemma split_slash_append: "slash \<notin> set w \<Longrightarrow> split_slash (w @ slash # s) = w # split_slash s"
  by (induction w) auto

lemma split_slash_concat:
  "slash \<notin> set w \<Longrightarrow> (\<forall>p\<in>set ps. slash \<notin> set p) \<Longrightarrow>
   split_slash (w @ concat (map (Cons slash) ps)) = w # ps"
proof (induction ps arbitrary: w)
  case (Cons p ps)
  then show ?case by (simp add: split_slash_append)
qed (simp add: split_slash_word)

lemma plain_component_str:
  assumes "plain_component c"
  shows "component_str c \<noteq> []" "slash \<notin> set (component_str c)" "component_str c \<noteq> ''.''"
    "piece_component (component_str c) = c"
  using assms by (auto simp: plain_component_def component_str_def piece_component_def split: component.splits)

lemma push_plain:
  assumes "buf \<noteq> []" "last buf \<noteq> slash" "p \<noteq> []" "slash \<notin> set p"
  shows "push_path buf p = buf @ slash # p" "last (push_path buf p) \<noteq> slash"
proof -
  have "\<not> is_absolute p" using assms(3,4) by (cases p) (auto simp: is_absolute_def)
  with assms show "push_path buf p = buf @ slash # p" by (simp add: push_path_def)
  then show "last (push_path buf p) \<noteq> slash" using assms(3,4) by (simp, metis last_in_set)
qed

lemma foldl_push_plain:
  "buf \<noteq> [] \<Longrightarrow> last buf \<noteq> slash \<Longrightarrow> (\<forall>p\<in>set ps. p \<noteq> [] \<and> slash \<notin> set p) \<Longrightarrow>
   foldl push_path buf ps = buf @ concat (map (Cons slash) ps)"
proof (induction ps arbitrary: buf)
  case (Cons p ps)
  have "push_path buf p \<noteq> []" using Cons.prems push_plain(1) [of buf p] by simp
  with Cons push_plain [of buf p] show ?case by simp
qed simp

lemma push_first: "p \<noteq> [] \<Longrightarrow> slash \<notin> set p \<Longrightarrow> push_path [] p = p \<and> push_path [slash] p = slash # p"
  by (cases p) (auto simp: push_path_def is_absolute_def)

abbreviation strs :: "component list \<Rightarrow> string list" where
  "strs cs \<equiv> map component_str cs"

lemma render_plain:
  assumes "list_all plain_component (c # cs)"
  shows "render (c # cs) = component_str c @ concat (map (Cons slash) (strs cs))"
    and "render (RootDir # c # cs) = slash # component_str c @ concat (map (Cons slash) (strs cs))"
proof -
  have c: "component_str c \<noteq> []" "slash \<notin> set (component_str c)" "last (component_str c) \<noteq> slash"
    using assms plain_component_str [of c] by (auto dest: last_in_set)
  have ps: "\<forall>p\<in>set (strs cs). p \<noteq> [] \<and> slash \<notin> set p"
    using assms plain_component_str by (auto simp: list_all_iff)
  show "render (c # cs) = component_str c @ concat (map (Cons slash) (strs cs))"
    using c foldl_push_plain [OF c(1,3) ps] push_first [OF c(1,2)] by (simp add: render_def)
  have root: "push_path [] [slash] = [slash]" by (simp add: push_path_def is_absolute_def)
  show "render (RootDir # c # cs) = slash # component_str c @ concat (map (Cons slash) (strs cs))"
    using c foldl_push_plain [of "slash # component_str c", OF _ _ ps] push_first [OF c(1,2)]
    by (simp add: render_def root component_str_def [of RootDir])
qed

lemma plain_components_strs:
  "list_all plain_component cs \<Longrightarrow> plain_components (filter (\<lambda>p. p \<noteq> []) (strs cs)) = cs"
  by (induction cs) (auto simp: plain_components_def plain_component_str)

lemma components_render_plain:
  assumes "list_all plain_component cs"
  shows "components (render cs) = cs" and "components (render (RootDir # cs)) = RootDir # cs"
proof -
  have root: "push_path [] [slash] = [slash]" by (simp add: push_path_def is_absolute_def)
  show "components (render cs) = cs"
  proof (cases cs)
    case Nil
    then show ?thesis by (simp add: render_def components_def is_absolute_def)
  next
    case (Cons c ds)
    have c: "component_str c \<noteq> []" "slash \<notin> set (component_str c)" "component_str c \<noteq> ''.''"
      using assms Cons plain_component_str [of c] by auto
    have r: "render cs = component_str c @ concat (map (Cons slash) (strs ds))"
      using render_plain(1) assms Cons by simp
    have ds: "\<forall>p\<in>set (strs ds). slash \<notin> set p"
      using assms Cons plain_component_str(2) by (auto simp: list_all_iff)
    have pieces: "split_slash (render cs) = strs cs"
      unfolding r split_slash_concat [OF c(2) ds] by (simp add: Cons)
    have "\<not> is_absolute (render cs)" unfolding r using c(1,2) by (cases "component_str c") (auto simp: is_absolute_def)
    then show ?thesis
      using plain_components_strs [OF assms] c pieces unfolding Cons
      by (simp add: components_def Let_def)
  qed
  show "components (render (RootDir # cs)) = RootDir # cs"
  proof (cases cs)
    case Nil
    then show ?thesis
      by (simp add: render_def components_def is_absolute_def component_str_def root plain_components_def)
  next
    case (Cons c ds)
    have c: "slash \<notin> set (component_str c)" using assms Cons plain_component_str [of c] by auto
    have r: "render (RootDir # cs) = slash # component_str c @ concat (map (Cons slash) (strs ds))"
      using render_plain(2) assms Cons by simp
    have ds: "\<forall>p\<in>set (strs ds). slash \<notin> set p"
      using assms Cons plain_component_str(2) by (auto simp: list_all_iff)
    have pieces: "split_slash (render (RootDir # cs)) = [] # strs cs"
      unfolding r split_slash.simps split_slash_concat [OF c ds] by (simp add: Cons)
    have "is_absolute (render (RootDir # cs))" unfolding r by (simp add: is_absolute_def)
    then show ?thesis
      using plain_components_strs [OF assms] by (simp add: components_def pieces Let_def)
  qed
qed

lemma plain_components_plain:
  "(\<forall>p\<in>set ps. p \<noteq> [] \<and> slash \<notin> set p) \<Longrightarrow> list_all plain_component (plain_components ps)"
  by (auto simp: plain_components_def list_all_iff piece_component_def plain_component_def)

text \<open>A path is its components: at most one leading root or current directory, then plain ones.\<close>

lemma components_shape:
  obtains (root) cs where "components p = RootDir # cs" "is_absolute p" "list_all plain_component cs"
  | (cur) cs where "components p = CurDir # cs" "\<not> is_absolute p" "list_all plain_component cs"
  | (rel) "\<not> is_absolute p" "list_all plain_component (components p)"
proof -
  let ?ps = "filter (\<lambda>p. p \<noteq> []) (split_slash p)"
  have ps: "\<forall>w\<in>set ?ps. w \<noteq> [] \<and> slash \<notin> set w" using split_slash_pieces by auto
  show thesis
  proof (cases "is_absolute p")
    case True
    then show thesis using root plain_components_plain [OF ps] by (simp add: components_def Let_def)
  next
    case False
    show thesis
    proof (cases ?ps)
      case Nil
      then show thesis using rel False by (simp add: components_def Let_def)
    next
      case (Cons w ws)
      have "list_all plain_component (plain_components ws)"
        "list_all plain_component (plain_components (w # ws))"
        using ps Cons by (auto intro!: plain_components_plain)
      then show thesis using cur rel False Cons by (cases "w = ''.''") (auto simp: components_def Let_def)
    qed
  qed
qed

lemma is_absolute_components: "is_absolute p \<longleftrightarrow> (\<exists>cs. components p = RootDir # cs)"
  by (cases p rule: components_shape) (auto simp: plain_component_def)

section \<open>Normal forms\<close>

definition normal :: "component \<Rightarrow> bool" where
  "normal c = (case c of Normal _ \<Rightarrow> plain_component c | _ \<Rightarrow> False)"

text \<open>A normal form is the root followed by names, or parent directories followed by names.\<close>

definition normal_form :: "component list \<Rightarrow> bool" where
  "normal_form cs =
     ((\<exists>ns. cs = RootDir # ns \<and> list_all normal ns) \<or>
      (\<exists>k ns. cs = replicate k ParentDir @ ns \<and> list_all normal ns))"

lemma normal_form_Nil: "normal_form []"
  unfolding normal_form_def by (rule disjI2) (rule exI [of _ 0], simp)

lemma normal_simps [simp]:
  "\<not> normal ParentDir" "\<not> normal RootDir" "\<not> normal CurDir" "normal (Normal n) = plain_component (Normal n)"
  "\<not> plain_component RootDir" "\<not> plain_component CurDir" "plain_component ParentDir"
  by (simp_all add: normal_def plain_component_def)

lemma normal_Normal: "normal c \<longleftrightarrow> (\<exists>n. c = Normal n \<and> plain_component c)"
  by (cases c) (auto simp: normal_def)

lemma normal_form_plain:
  assumes "normal_form cs"
  shows "(\<exists>ns. cs = RootDir # ns \<and> list_all plain_component ns) \<or> list_all plain_component cs"
  using assms by (auto simp: normal_form_def list_all_iff normal_Normal plain_component_def)

lemma normal_form_root: "list_all normal ns \<Longrightarrow> normal_form (RootDir # ns)"
  by (simp add: normal_form_def)

lemma normal_form_rel: "list_all normal ns \<Longrightarrow> normal_form (replicate k ParentDir @ ns)"
  by (auto simp: normal_form_def)

lemma normal_form_cases:
  assumes "normal_form cs"
  obtains (root) ns where "cs = RootDir # ns" "list_all normal ns"
  | (rel) k ns where "cs = replicate k ParentDir @ ns" "list_all normal ns"
  using assms by (auto simp: normal_form_def)

lemma normal_form_snoc:
  assumes "normal_form acc" and "normal c"
  shows "normal_form (acc @ [c])"
  using assms(1)
proof (cases rule: normal_form_cases)
  case (root ns)
  then show ?thesis using normal_form_root [of "ns @ [c]"] assms(2) by simp
next
  case (rel k ns)
  then show ?thesis using normal_form_rel [of "ns @ [c]" k] assms(2) by simp
qed

lemma normal_form_parent:
  assumes "normal_form acc"
  shows "normal_form (normalize_step acc ParentDir)"
  using assms
proof (cases rule: normal_form_cases)
  case (root ns)
  show ?thesis
  proof (cases ns rule: rev_cases)
    case Nil
    then show ?thesis using root assms by (simp add: normalize_step_def)
  next
    case (snoc ms m)
    then have "normalize_step acc ParentDir = RootDir # ms"
      using root by (auto simp: normalize_step_def normal_Normal)
    then show ?thesis using root snoc by (simp add: normal_form_root)
  qed
next
  case (rel k ns)
  show ?thesis
  proof (cases ns rule: rev_cases)
    case Nil
    then have "normalize_step acc ParentDir = replicate (Suc k) ParentDir @ []"
      using rel by (cases k) (auto simp: normalize_step_def replicate_append_same)
    then show ?thesis using normal_form_rel [of "[]" "Suc k"] by simp
  next
    case (snoc ms m)
    then have "normalize_step acc ParentDir = replicate k ParentDir @ ms"
      using rel by (auto simp: normalize_step_def normal_Normal butlast_append)
    then show ?thesis using rel snoc by (simp add: normal_form_rel)
  qed
qed

lemma normalize_steps_plain:
  "normal_form acc \<Longrightarrow> list_all plain_component cs \<Longrightarrow> normal_form (foldl normalize_step acc cs)"
proof (induction cs arbitrary: acc)
  case (Cons c cs)
  have "normal_form (normalize_step acc c)"
  proof (cases "c = ParentDir")
    case True
    then show ?thesis using Cons.prems normal_form_parent by simp
  next
    case False
    with Cons.prems obtain n where "c = Normal n" "normal c"
      by (cases c) (auto simp: plain_component_def normal_def)
    then show ?thesis using Cons.prems normal_form_snoc by (simp add: normalize_step_def)
  qed
  with Cons show ?case by simp
qed simp

lemma normalize_steps_root:
  "list_all normal ns \<Longrightarrow> list_all plain_component cs \<Longrightarrow>
   \<exists>ms. foldl normalize_step (RootDir # ns) cs = RootDir # ms \<and> list_all normal ms"
proof (induction cs arbitrary: ns)
  case (Cons c cs)
  have "\<exists>ms. normalize_step (RootDir # ns) c = RootDir # ms \<and> list_all normal ms"
  proof (cases c)
    case ParentDir
    show ?thesis
    proof (cases ns rule: rev_cases)
      case (snoc ms m)
      then obtain n where "m = Normal n" "list_all normal ms"
        using Cons.prems by (auto simp: normal_Normal [of m])
      then show ?thesis using ParentDir snoc by (simp add: normalize_step_def)
    qed (simp add: ParentDir normalize_step_def)
  qed (use Cons.prems in \<open>auto simp: normalize_step_def\<close>)
  with Cons show ?case by auto
qed simp

lemma normalize_components_form: "normal_form (normalize_components (components p))"
proof (cases p rule: components_shape)
  case (root cs)
  then obtain ms where "normalize_components (components p) = RootDir # ms" "list_all normal ms"
    using normalize_steps_root [of "[]" cs] by (auto simp: normalize_components_def normalize_step_def)
  then show ?thesis by (simp add: normal_form_root)
next
  case (cur cs)
  then show ?thesis
    using normalize_steps_plain [OF normal_form_Nil] by (simp add: normalize_components_def normalize_step_def)
next
  case rel
  then show ?thesis
    using normalize_steps_plain [OF normal_form_Nil] by (simp add: normalize_components_def)
qed

lemma normalize_components_absolute:
  assumes "is_absolute p"
  obtains ms where "normalize_components (components p) = RootDir # ms" "list_all normal ms"
proof -
  obtain cs where "components p = RootDir # cs" "list_all plain_component cs"
    using assms by (cases p rule: components_shape) auto
  then show thesis
    using normalize_steps_root [of "[]" cs] that by (auto simp: normalize_components_def normalize_step_def)
qed

lemma components_normalize:
  "components (normalize_lexically p) =
     (if normalize_components (components p) = [] then [CurDir] else normalize_components (components p))"
proof -
  have "components ''.'' = [CurDir]" by code_simp
  moreover have "components (render cs) = cs" if "normal_form cs" for cs
    using normal_form_plain [OF that] components_render_plain by auto
  ultimately show ?thesis
    using normalize_components_form [of p] by (simp add: normalize_lexically_def Let_def)
qed

lemma normalize_names: "list_all normal ns \<Longrightarrow> foldl normalize_step acc ns = acc @ ns"
proof (induction ns arbitrary: acc)
  case (Cons n ns)
  then obtain m where "n = Normal m" by (auto simp: normal_Normal [of n])
  with Cons show ?case by (simp add: normalize_step_def)
qed simp

lemma normalize_dots:
  "foldl normalize_step (replicate j ParentDir) (replicate k ParentDir) = replicate (j + k) ParentDir"
proof (induction k arbitrary: j)
  case (Suc k)
  have "normalize_step (replicate j ParentDir) ParentDir = replicate (Suc j) ParentDir"
    by (cases j) (simp_all add: normalize_step_def replicate_append_same)
  with Suc [of "Suc j"] show ?case by simp
qed simp

lemma normalize_normal_form:
  assumes "normal_form cs"
  shows "normalize_components cs = cs"
  using assms
proof (cases rule: normal_form_cases)
  case (root ns)
  then show ?thesis
    using normalize_names [of ns "[RootDir]"] by (simp add: normalize_components_def normalize_step_def)
next
  case (rel k ns)
  then show ?thesis
    using normalize_names [of ns] normalize_dots [of 0 k] by (simp add: normalize_components_def)
qed

lemma normalize_no_root:
  "RootDir \<notin> set acc \<Longrightarrow> RootDir \<notin> set cs \<Longrightarrow> RootDir \<notin> set (foldl normalize_step acc cs)"
proof (induction cs arbitrary: acc)
  case (Cons c cs)
  have "RootDir \<notin> set (normalize_step acc c)"
    using Cons.prems
    by (auto simp: normalize_step_def dest: in_set_butlastD split: component.splits list.splits)
  with Cons show ?case by simp
qed simp

section \<open>Absolute results\<close>

text \<open>Documented of canonicalization: the canonical form is absolute.\<close>

definition canonical_absolute :: "file_system \<Rightarrow> bool" where
  "canonical_absolute fs = (\<forall>p c. canonicalize fs p = Some c \<longrightarrow> is_absolute c)"

lemma is_absolute_append: "is_absolute p \<Longrightarrow> is_absolute (p @ q)"
  by (cases p) (simp_all add: is_absolute_def)

lemma is_absolute_push: "is_absolute buf \<Longrightarrow> is_absolute (push_path buf p)"
  by (simp add: push_path_def is_absolute_append)

lemma render_root: "is_absolute (render (RootDir # cs))"
proof -
  have "is_absolute (foldl push_path buf ps)" if "is_absolute buf" for buf ps
    using that by (induction ps arbitrary: buf) (simp_all add: is_absolute_push)
  moreover have "push_path [] [slash] = [slash]" by (simp add: push_path_def is_absolute_def)
  ultimately show ?thesis by (simp add: render_def is_absolute_def component_str_def [of RootDir])
qed

lemma symlink_walk_absolute:
  assumes "canonical_absolute fs"
  shows "symlink_walk fs fuel p = Some r \<Longrightarrow> is_absolute r"
proof (induction fuel arbitrary: p r)
  case (Suc fuel)
  then show ?case
    using assms
    by (auto simp: canonical_absolute_def Let_def intro: is_absolute_push
        split: option.splits metadata.splits if_splits)
qed simp

lemma physical_absolute:
  "canonical_absolute fs \<Longrightarrow> physical fs (rule_base_new cwd) = Some p \<Longrightarrow> is_absolute p"
  by (auto simp: physical_def rule_base_new_def resolve_following_symlinks_def
      simp del: symlink_walk.simps intro: symlink_walk_absolute split: if_splits option.splits)

lemma is_absolute_match_stringI: "is_absolute p \<Longrightarrow> is_absolute (path_match_string p)"
  by (cases p) (auto simp: path_match_string_def is_absolute_def)

lemma is_absolute_join: "is_absolute cwd \<Longrightarrow> is_absolute (join_cwd (Some cwd) p)"
  by (simp add: join_cwd_def is_absolute_push)

lemma normalize_absolute:
  assumes "is_absolute p"
  obtains ns where "components (normalize_lexically p) = RootDir # ns" "list_all normal ns"
proof -
  obtain ns where "normalize_components (components p) = RootDir # ns" "list_all normal ns"
    using assms by (rule normalize_components_absolute)
  then show thesis using that components_normalize [of p] by simp
qed

lemma is_absolute_normalize: "is_absolute p \<Longrightarrow> is_absolute (normalize_lexically p)"
  by (erule normalize_absolute) (auto simp: is_absolute_components)

lemma strip_component_prefix_eq: "strip_component_prefix cs bs = Some r \<longleftrightarrow> cs = bs @ r"
  by (induction cs bs rule: strip_component_prefix.induct) auto

section \<open>Properties\<close>

text \<open>Lexical normal forms. Normalizing twice is normalizing once; the normal form of an
  absolute path is absolute and consists of the root and plain names only, so neither \<open>.\<close> nor
  \<open>..\<close> is left in it; a relative path keeps at most leading \<open>..\<close> components.\<close>

theorem normalize_lexically_normal_form:
  "normalize_lexically (normalize_lexically p) = normalize_lexically p \<and>
   (is_absolute p \<longrightarrow> (\<exists>ns. components (normalize_lexically p) = RootDir # ns \<and> list_all normal ns)) \<and>
   (\<not> is_absolute p \<longrightarrow> normalize_lexically p = ''.'' \<or>
      (\<exists>k ns. components (normalize_lexically p) = replicate k ParentDir @ ns \<and> list_all normal ns))"
proof (intro conjI impI)
  let ?n = "normalize_components (components p)"
  note form = normalize_components_form [of p]
  have dot: "components ''.'' = [CurDir]" by code_simp
  show "normalize_lexically (normalize_lexically p) = normalize_lexically p"
  proof (cases "?n = []")
    case True
    then have "normalize_lexically p = ''.''" by (simp add: normalize_lexically_def)
    moreover have "normalize_lexically ''.'' = ''.''" by code_simp
    ultimately show ?thesis by simp
  next
    case False
    then have "components (normalize_lexically p) = ?n" by (simp add: components_normalize)
    with False normalize_normal_form [OF form] show ?thesis
      by (simp add: normalize_lexically_def Let_def)
  qed
  show "\<exists>ns. components (normalize_lexically p) = RootDir # ns \<and> list_all normal ns" if "is_absolute p"
    using normalize_absolute [OF that] by blast
  show "normalize_lexically p = ''.'' \<or>
      (\<exists>k ns. components (normalize_lexically p) = replicate k ParentDir @ ns \<and> list_all normal ns)"
    if rel: "\<not> is_absolute p"
  proof (cases "?n = []")
    case True
    then show ?thesis by (simp add: normalize_lexically_def)
  next
    case False
    then have cs: "components (normalize_lexically p) = ?n" by (simp add: components_normalize)
    have "RootDir \<notin> set (components p)"
      using rel by (cases p rule: components_shape) (auto simp: list_all_iff)
    then have "RootDir \<notin> set ?n" by (simp add: normalize_components_def normalize_no_root)
    with form cs show ?thesis by (auto elim: normal_form_cases)
  qed
qed

theorem normalize_lexically_normal_form_witness:
  "\<exists>ns. components (normalize_lexically ''/a/./b/../../../c'') = RootDir # ns \<and> list_all normal ns"
proof -
  have "is_absolute ''/a/./b/../../../c''" by code_simp
  then show ?thesis using normalize_lexically_normal_form [of "''/a/./b/../../../c''"] by blast
qed

text \<open>Relative spellings stay inside the workspace. For an absolute cwd, a spelling of a path
  that is not absolute is either the path itself written with a leading tilde, which is matched
  only literally, or comes from a normalized path without \<open>..\<close> that lies under the cwd as written
  or under the cwd with its symlinks resolved. A rule such as \<open>Read(./**)\<close> therefore cannot be
  satisfied by walking out of the workspace.\<close>

theorem relative_forms_stay_inside:
  assumes "canonical_absolute fs" and "is_absolute cwd"
    and "f \<in> set (path_match_forms fs p (Some (rule_base_new cwd)))" and "\<not> is_absolute f"
  shows "(is_tilde_path p \<and> f = path_match_string p) \<or>
    (ParentDir \<notin> set (components (absolute_normalized_path p (Some cwd))) \<and>
     (\<exists>dir rest. (dir = normalize_lexically cwd \<or> physical fs (rule_base_new cwd) = Some dir) \<and>
        components (absolute_normalized_path p (Some cwd)) = components dir @ rest))"
proof -
  let ?b = "rule_base_new cwd" and ?abs = "absolute_normalized_path p (Some cwd)"
  have base: "lexical ?b = cwd" "lexical_normalized ?b = normalize_lexically cwd"
    by (simp_all add: rule_base_new_def)
  have cwd_abs: "is_absolute (normalize_lexically cwd)" using assms(2) by (rule is_absolute_normalize)
  show ?thesis
  proof (cases "is_tilde_path p")
    case True
    then have abs: "?abs = p" by (simp add: absolute_normalized_path_def)
    from True obtain n ns where tilde: "components p = Normal n # ns"
      by (auto simp: is_tilde_path_def split: list.splits component.splits)
    have "strip_component_prefix (components p) (components dir) = None" if "is_absolute dir" for dir
      using that tilde by (auto simp: is_absolute_components)
    then have "path_match_forms fs p (Some ?b) = [path_match_string p]"
      using abs base cwd_abs physical_absolute [OF assms(1)]
      by (auto simp: path_match_forms_def path_strip_prefix_def Let_def split: option.splits)
    with assms(3) True show ?thesis by simp
  next
    case False
    have joined: "is_absolute (join_cwd (Some cwd) p)" using assms(2) by (rule is_absolute_join)
    have abs: "?abs = normalize_lexically (join_cwd (Some cwd) p)"
      using False by (simp add: absolute_normalized_path_def)
    then obtain ns where "components ?abs = RootDir # ns" "list_all normal ns"
      using normalize_absolute [OF joined] by auto
    then have no_parent: "ParentDir \<notin> set (components ?abs)" by (auto simp: list_all_iff)
    have first: "is_absolute (path_match_string ?abs)"
      unfolding abs using joined by (intro is_absolute_match_stringI is_absolute_normalize)
    obtain cs where cs: "components (normalize_lexically cwd) = RootDir # cs"
      using cwd_abs by (auto simp: is_absolute_components)
    have written: "is_absolute (path_match_string (render (components (normalize_lexically cwd) @ rel)))" for rel
      unfolding cs append_Cons by (rule is_absolute_match_stringI [OF render_root])
    have "\<exists>dir rest. (dir = normalize_lexically cwd \<or> physical fs ?b = Some dir) \<and>
        components ?abs = components dir @ rest"
      using assms(3,4) first written base
      by (auto simp: path_match_forms_def path_strip_prefix_def strip_component_prefix_eq Let_def
          split: option.splits if_splits)
    with no_parent show ?thesis by blast
  qed
qed

text \<open>A file system without files: every call reports a missing file.\<close>

definition empty_fs :: file_system where
  "empty_fs = \<lparr>canonicalize = (\<lambda>_. None), symlink_metadata = (\<lambda>_. NotFound), read_link = (\<lambda>_. None)\<rparr>"

theorem relative_forms_stay_inside_witness:
  "''./src/b.rs'' \<in> set (path_match_forms empty_fs ''src/a/../b.rs'' (Some (rule_base_new ''/work''))) \<and>
   ParentDir \<notin> set (components (absolute_normalized_path ''src/a/../b.rs'' (Some ''/work'')))"
proof -
  have "canonical_absolute empty_fs" by (simp add: canonical_absolute_def empty_fs_def)
  moreover have "is_absolute ''/work''" by code_simp
  moreover have form: "''./src/b.rs'' \<in> set (path_match_forms empty_fs ''src/a/../b.rs'' (Some (rule_base_new ''/work'')))"
    by code_simp
  moreover have "\<not> is_absolute ''./src/b.rs''" by code_simp
  moreover have "\<not> is_tilde_path ''src/a/../b.rs''" by code_simp
  ultimately show ?thesis
    using relative_forms_stay_inside [of empty_fs "''/work''" "''./src/b.rs''" "''src/a/../b.rs''"] by blast
qed

end
