(* ===== verification/Hunk_Tracker.thy ===== *)
theory Hunk_Tracker
  imports Hunk_Diff Path_Match Machines "HOL-Library.AList"
begin

text \<open>
  The hunk tracker's actor (\<open>xai-hunk-tracker/src/actor\<close>): its state, one definition per handler, and the
  commands it processes.

  The outside of the actor is a \<open>world\<close>: what the file system and the \<open>gix\<close> repository answer during
  one command. Events sent to subscribers and successful disk writes are logs of the state, in order.
  A \<open>HashMap\<close> is an association list and a \<open>HashSet\<close> a list without repeats, in iteration order;
  \<open>Arc\<close> is dropped. A path is a string in component normal form, so equality of paths is equality of strings.
\<close>

section \<open>File contents\<close>

datatype file_content_state =
    Missing
  | Binary "nat option"
  | TooLarge nat
  | LfsPointer nat
  | Symlink
  | Full string

definition as_str :: "file_content_state \<Rightarrow> string option" where
  "as_str c = (case c of Full s \<Rightarrow> Some s | _ \<Rightarrow> None)"

definition is_diffable :: "file_content_state \<Rightarrow> bool" where
  "is_diffable c = (case c of Full _ \<Rightarrow> True | _ \<Rightarrow> False)"

definition byte_len :: "file_content_state \<Rightarrow> nat option" where
  "byte_len c =
     (case c of Missing \<Rightarrow> Some 0 | Binary n \<Rightarrow> n | TooLarge n \<Rightarrow> Some n | LfsPointer n \<Rightarrow> Some n
      | Symlink \<Rightarrow> None | Full s \<Rightarrow> Some (length s))"

definition MAX_TRACKED_TEXT_BYTES :: nat where
  "MAX_TRACKED_TEXT_BYTES = 1024 * 1024"

definition LFS_POINTER_PREFIX :: string where
  "LFS_POINTER_PREFIX = ''version https://git-lfs.github.com/spec/v1'' @ [newline]"

definition is_lfs_pointer :: "string \<Rightarrow> bool" where
  "is_lfs_pointer bytes = (length bytes < 1024 \<and> starts_with bytes LFS_POINTER_PREFIX)"

definition is_binary :: "string \<Rightarrow> bool" where
  "is_binary content = (CHR 0x00 \<in> set (take (min (length content) 8000) content))"

text \<open>\<open>String::from_utf8\<close>: the byte sequences of the Unicode standard's table of well-formed UTF-8.\<close>

definition utf8_second :: "char \<Rightarrow> char \<Rightarrow> bool" where
  "utf8_second a b =
     (if byte a = 0xE0 then 0xA0 \<le> byte b \<and> byte b \<le> 0xBF
      else if byte a = 0xED then 0x80 \<le> byte b \<and> byte b \<le> 0x9F
      else if byte a = 0xF0 then 0x90 \<le> byte b \<and> byte b \<le> 0xBF
      else if byte a = 0xF4 then 0x80 \<le> byte b \<and> byte b \<le> 0x8F
      else 0x80 \<le> byte b \<and> byte b \<le> 0xBF)"

definition utf8_width :: "char \<Rightarrow> nat" where
  "utf8_width a =
     (if byte a < 0x80 then 1
      else if 0xC2 \<le> byte a \<and> byte a \<le> 0xDF then 2
      else if 0xE0 \<le> byte a \<and> byte a \<le> 0xEF then 3
      else if 0xF0 \<le> byte a \<and> byte a \<le> 0xF4 then 4
      else 0)"

fun utf8_from :: "nat \<Rightarrow> string \<Rightarrow> bool" where
  "utf8_from k [] = (k = 0)"
| "utf8_from (Suc k) (b # s) = (is_continuation b \<and> utf8_from k s)"
| "utf8_from 0 (a # s) =
     (if utf8_width a = 0 then False
      else if utf8_width a = 1 then utf8_from 0 s
      else (case s of [] \<Rightarrow> False | b # _ \<Rightarrow> utf8_second a b) \<and> utf8_from (utf8_width a - 1) s)"

definition from_utf8 :: "string \<Rightarrow> string option" where
  "from_utf8 bytes = (if utf8_from 0 bytes then Some bytes else None)"

definition classify_bytes :: "string \<Rightarrow> file_content_state" where
  "classify_bytes bytes =
     (if MAX_TRACKED_TEXT_BYTES < length bytes then TooLarge (length bytes)
      else if is_lfs_pointer bytes then LfsPointer (length bytes)
      else if is_binary bytes then Binary (Some (length bytes))
      else case from_utf8 bytes of Some s \<Rightarrow> Full s | None \<Rightarrow> Binary (Some (length bytes)))"

definition classify_string :: "string \<Rightarrow> file_content_state" where
  "classify_string s =
     (if MAX_TRACKED_TEXT_BYTES < length s then TooLarge (length s)
      else if is_lfs_pointer s then LfsPointer (length s)
      else if is_binary s then Binary (Some (length s))
      else Full s)"

section \<open>The outside world\<close>

text \<open>The file system: \<open>lstat\<close> gives whether the path is a symbolic link and its length, the reads give
  the bytes they return, \<open>None\<close> for an error. Git: the working directory of the repository around a
  directory, the entries of the tree at HEAD by path, the status items (location, and whether the change is
  staged) for a list of pathspecs. \<open>task_ok\<close> says whether the blocking task was joined.\<close>

datatype head_entry = Link | Blob string

record repo_sync_state =
  head_oid :: "string option"
  index_mtime :: "nat option"

record world =
  lstat :: "string \<Rightarrow> (bool \<times> nat) option"
  open_ok :: "string \<Rightarrow> bool"
  read_some :: "string \<Rightarrow> nat \<Rightarrow> string option"
  read_to_end :: "string \<Rightarrow> string option"
  path_exists :: "string \<Rightarrow> bool"
  path_is_dir :: "string \<Rightarrow> bool"
  canonicalize :: "string \<Rightarrow> string option"
  write_ok :: "string \<Rightarrow> string \<Rightarrow> bool"
  remove_ok :: "string \<Rightarrow> bool"
  task_ok :: bool
  repo_workdir :: "string \<Rightarrow> string option"
  head_entry :: "string \<Rightarrow> head_entry option"
  index_nonempty :: bool
  git_status :: "string list \<Rightarrow> (string \<times> bool) list option"
  sync_state :: repo_sync_state

definition read_file_bounded :: "world \<Rightarrow> string \<Rightarrow> file_content_state" where
  "read_file_bounded w p =
     (case lstat w p of
        None \<Rightarrow> Missing
      | Some (is_symlink, len) \<Rightarrow>
          if is_symlink then Symlink
          else if MAX_TRACKED_TEXT_BYTES < len then TooLarge len
          else if \<not> open_ok w p then Missing
          else
            let prefix_size = min 8000 len
            in case read_some w p prefix_size of
                 None \<Rightarrow> Missing
               | Some prefix_buf \<Rightarrow>
                   if is_lfs_pointer prefix_buf then LfsPointer len
                   else if is_binary prefix_buf then Binary (Some len)
                   else
                     case (if prefix_size < len then map_option (\<lambda>r. prefix_buf @ r) (read_to_end w p)
                           else Some prefix_buf) of
                       None \<Rightarrow> Missing
                     | Some full_buf \<Rightarrow>
                         (case from_utf8 full_buf of Some s \<Rightarrow> Full s | None \<Rightarrow> Binary (Some len)))"

section \<open>State of the actor\<close>

datatype git_repo_state = Unknown | NotARepo | Discovered string

datatype tracking_mode = AgentOnly | AllDirty

record file_hunk_state =
  baseline :: file_content_state
  current_content :: file_content_state
  hunks :: "hunk list"
  is_agent_file :: bool
  baseline_accepted :: bool

record session_stats =
  accepted_hunks :: nat
  rejected_hunks :: nat
  accepted_lines_added :: nat
  accepted_lines_removed :: nat
  rejected_lines_added :: nat
  rejected_lines_removed :: nat

definition default_stats :: session_stats where
  "default_stats =
     \<lparr>accepted_hunks = 0, rejected_hunks = 0, accepted_lines_added = 0, accepted_lines_removed = 0,
      rejected_lines_added = 0, rejected_lines_removed = 0\<rparr>"

datatype removal_reason = Accepted | Rejected | Superseded

datatype hunk_event =
    HunkAdded string hunk
  | HunkRemoved string string removal_reason
  | HunkMoved string string hunk_line_info
  | HunkContentChanged string hunk hunk_source nat nat
  | FileAdded string bool
  | FileRemoved string
  | BaselineUpdated string

datatype disk_write = WriteFile string string | RemoveFile string

record tracker =
  working_dir :: string
  file_states :: "(string \<times> file_hunk_state) list"
  turn_index :: "nat \<Rightarrow> string list option"
  git_dirty_cache :: "string list"
  git_staged_cache :: "string list"
  git_repo_state :: git_repo_state
  repo_sync_state :: repo_sync_state
  mode :: tracking_mode
  session_stats :: session_stats
  events :: "hunk_event list"
  disk :: "disk_write list"
  next_hunk :: nat

definition default_sync_state :: repo_sync_state where
  "default_sync_state = \<lparr>head_oid = None, index_mtime = None\<rparr>"

definition tracker_new :: "string \<Rightarrow> tracking_mode \<Rightarrow> tracker" where
  "tracker_new wd m =
     \<lparr>working_dir = wd, file_states = [], turn_index = (\<lambda>_. None), git_dirty_cache = [], git_staged_cache = [],
      git_repo_state = Unknown, repo_sync_state = default_sync_state, mode = m, session_stats = default_stats,
      events = [], disk = [], next_hunk = 0\<rparr>"

abbreviation state_of :: "tracker \<Rightarrow> string \<Rightarrow> file_hunk_state option" where
  "state_of t p \<equiv> map_of (file_states t) p"

definition put_state :: "string \<Rightarrow> file_hunk_state \<Rightarrow> tracker \<Rightarrow> tracker" where
  "put_state p st t = t\<lparr>file_states := AList.update p st (file_states t)\<rparr>"

definition drop_state :: "string \<Rightarrow> tracker \<Rightarrow> tracker" where
  "drop_state p t = t\<lparr>file_states := AList.delete p (file_states t)\<rparr>"

definition send_event :: "hunk_event \<Rightarrow> tracker \<Rightarrow> tracker" where
  "send_event e t = t\<lparr>events := events t @ [e]\<rparr>"

text \<open>\<open>self.turn_index.get_mut(&i)\<close> followed by \<open>remove\<close>, and \<open>entry(i).or_default().insert\<close>.\<close>

definition remove_from_turn_index :: "string \<Rightarrow> hunk_source \<Rightarrow> tracker \<Rightarrow> tracker" where
  "remove_from_turn_index hid src t =
     (case prompt_index src of
        None \<Rightarrow> t
      | Some i \<Rightarrow>
          (case turn_index t i of
             None \<Rightarrow> t
           | Some ids \<Rightarrow> t\<lparr>turn_index := (turn_index t)(i \<mapsto> removeAll hid ids)\<rparr>))"

definition add_to_turn_index :: "string \<Rightarrow> hunk_source \<Rightarrow> tracker \<Rightarrow> tracker" where
  "add_to_turn_index hid src t =
     (case prompt_index src of
        None \<Rightarrow> t
      | Some i \<Rightarrow>
          t\<lparr>turn_index := (turn_index t)(i \<mapsto>
              List.insert hid (case turn_index t i of None \<Rightarrow> [] | Some ids \<Rightarrow> ids))\<rparr>)"

definition relative_to_cwd :: "tracker \<Rightarrow> string \<Rightarrow> string" where
  "relative_to_cwd t p = (case path_strip_prefix p (working_dir t) of None \<Rightarrow> p | Some rel \<Rightarrow> rel)"

definition in_dirty_cache :: "tracker \<Rightarrow> string \<Rightarrow> bool" where
  "in_dirty_cache t p = (relative_to_cwd t p \<in> set (git_dirty_cache t))"

section \<open>Recomputing hunks\<close>

definition fresh_hunks ::
  "diff_env \<Rightarrow> nat \<Rightarrow> string \<Rightarrow> file_content_state \<Rightarrow> file_content_state \<Rightarrow> hunk_source \<Rightarrow> hunk list" where
  "fresh_hunks env n p base cur src =
     (case (base, cur) of
        (Full b, Full c) \<Rightarrow> compute_hunks env n p b c src
      | (Full b, Missing) \<Rightarrow> if b = [] then [] else [file_deleted env n p b src]
      | (Missing, Full c) \<Rightarrow> if c = [] then [] else [file_created env n p c src]
      | _ \<Rightarrow> [])"

definition inherit :: "hunk \<Rightarrow> hunk \<Rightarrow> hunk" where
  "inherit best_match new_hunk =
     new_hunk\<lparr>hunk_id := hunk_id best_match,
       hunk_source := if is_external (hunk_source new_hunk) \<and> is_agent_edit (hunk_source best_match)
                      then hunk_source best_match else hunk_source new_hunk\<rparr>"

fun preserve_ids :: "hunk list \<Rightarrow> string list \<Rightarrow> hunk list \<Rightarrow> hunk list" where
  "preserve_ids old_hunks claimed [] = []"
| "preserve_ids old_hunks claimed (new_hunk # rest) =
     (case find_matching_old_hunk new_hunk old_hunks of
        None \<Rightarrow> new_hunk # preserve_ids old_hunks claimed rest
      | Some best_match \<Rightarrow>
          if hunk_id best_match \<in> set claimed then new_hunk # preserve_ids old_hunks claimed rest
          else inherit best_match new_hunk # preserve_ids old_hunks (hunk_id best_match # claimed) rest)"

definition removed_event :: "string \<Rightarrow> hunk list \<Rightarrow> hunk \<Rightarrow> hunk_event list" where
  "removed_event p new_hunks old_hunk =
     (if list_ex (\<lambda>n. hunks_overlap old_hunk n \<or> hunks_match_content old_hunk n) new_hunks then []
      else [HunkRemoved p (hunk_id old_hunk) Superseded])"

definition changed_event :: "string \<Rightarrow> hunk list \<Rightarrow> hunk_source \<Rightarrow> hunk \<Rightarrow> hunk_event list" where
  "changed_event p old_hunks trigger_source new_hunk =
     (case find (\<lambda>o'. hunks_match_content o' new_hunk) old_hunks of
        Some old_hunk \<Rightarrow>
          if hunk_moved old_hunk new_hunk then [HunkMoved p (hunk_id old_hunk) (line_info new_hunk)] else []
      | None \<Rightarrow>
          if \<not> list_ex (\<lambda>o'. hunks_overlap o' new_hunk) old_hunks then [HunkAdded p new_hunk]
          else
            let prev = (case find (\<lambda>o'. hunk_id o' = hunk_id new_hunk) old_hunks of
                          Some h \<Rightarrow> Some h
                        | None \<Rightarrow> find (\<lambda>o'. hunks_overlap o' new_hunk) old_hunks)
            in [HunkContentChanged p new_hunk trigger_source
                  (case prev of None \<Rightarrow> 0 | Some h \<Rightarrow> new_count (line_info h))
                  (case prev of None \<Rightarrow> 0 | Some h \<Rightarrow> old_count (line_info h))])"

definition emit_hunk_diff_events ::
  "string \<Rightarrow> hunk list \<Rightarrow> hunk list \<Rightarrow> hunk_source \<Rightarrow> tracker \<Rightarrow> tracker" where
  "emit_hunk_diff_events p old_hunks new_hunks trigger_source t =
     t\<lparr>events := events t @ concat (map (removed_event p new_hunks) old_hunks) @
         concat (map (changed_event p old_hunks trigger_source) new_hunks)\<rparr>"

definition recompute_hunks ::
  "diff_env \<Rightarrow> string \<Rightarrow> file_content_state option \<Rightarrow> hunk_source \<Rightarrow> tracker \<Rightarrow> tracker" where
  "recompute_hunks env p new_current src t =
     (case state_of t p of
        None \<Rightarrow> t
      | Some st \<Rightarrow>
          let old_hunks = hunks st;
              current = (case new_current of None \<Rightarrow> Missing | Some c \<Rightarrow> c);
              fresh = fresh_hunks env (next_hunk t) p (baseline st) current src;
              new_hunks = preserve_ids old_hunks [] fresh;
              t1 = (put_state p (st\<lparr>current_content := current, hunks := new_hunks\<rparr>) t)
                     \<lparr>next_hunk := next_hunk t + length fresh\<rparr>;
              t2 = fold (\<lambda>h. remove_from_turn_index (hunk_id h) (hunk_source h)) old_hunks t1;
              t3 = fold (\<lambda>h. add_to_turn_index (hunk_id h) (hunk_source h)) new_hunks t2
          in emit_hunk_diff_events p old_hunks new_hunks src t3)"

section \<open>Accepting and rejecting\<close>

datatype hunk_action = Accept | Reject

datatype hunk_action_error =
    HunkNotFound string
  | WriteError string
  | DeleteError string
  | ReadError string

definition update_session_stats :: "hunk_line_info \<Rightarrow> bool \<Rightarrow> tracker \<Rightarrow> tracker" where
  "update_session_stats li accepted t =
     (let s = session_stats t
      in t\<lparr>session_stats :=
           (if accepted
            then s\<lparr>accepted_hunks := sat_add (accepted_hunks s) 1,
                   accepted_lines_added := sat_add (accepted_lines_added s) (new_count li),
                   accepted_lines_removed := sat_add (accepted_lines_removed s) (old_count li)\<rparr>
            else s\<lparr>rejected_hunks := sat_add (rejected_hunks s) 1,
                   rejected_lines_added := sat_add (rejected_lines_added s) (new_count li),
                   rejected_lines_removed := sat_add (rejected_lines_removed s) (old_count li)\<rparr>)\<rparr>)"

text \<open>\<open>state.hunks.retain(..)\<close>, and the source of the first hunk that is left.\<close>

definition without_ids :: "string list \<Rightarrow> hunk list \<Rightarrow> hunk list" where
  "without_ids ids hs = filter (\<lambda>h. hunk_id h \<notin> set ids) hs"

definition remaining_source :: "tracker \<Rightarrow> string \<Rightarrow> hunk_source" where
  "remaining_source t p =
     (case state_of t p of
        None \<Rightarrow> External
      | Some st \<Rightarrow> (case hunks st of [] \<Rightarrow> External | h # _ \<Rightarrow> hunk_source h))"

definition send_removed :: "string \<Rightarrow> removal_reason \<Rightarrow> hunk list \<Rightarrow> tracker \<Rightarrow> tracker" where
  "send_removed p reason hs = fold (\<lambda>h. send_event (HunkRemoved p (hunk_id h) reason)) hs"

definition accept_hunk :: "diff_env \<Rightarrow> string \<Rightarrow> hunk \<Rightarrow> tracker \<Rightarrow> tracker" where
  "accept_hunk env p h t =
     (case state_of t p of
        None \<Rightarrow> t
      | Some st \<Rightarrow>
          if baseline st = Missing then
            send_event (BaselineUpdated p) (send_event (HunkRemoved p (hunk_id h) Accepted)
              (put_state p (st\<lparr>baseline := current_content st, baseline_accepted := True,
                               hunks := without_ids [hunk_id h] (hunks st)\<rparr>) t))
          else
            let base = (case baseline st of Full b \<Rightarrow> Full (install h b) | c \<Rightarrow> c);
                t1 = send_event (BaselineUpdated p) (send_event (HunkRemoved p (hunk_id h) Accepted)
                       (put_state p (st\<lparr>baseline := base, baseline_accepted := True,
                                        hunks := without_ids [hunk_id h] (hunks st)\<rparr>) t))
            in recompute_hunks env p (Some (current_content st)) (remaining_source t1 p) t1)"

text \<open>Disk writes: on success they enter the log; on failure the handler returns at once.\<close>

definition write_file :: "world \<Rightarrow> string \<Rightarrow> string \<Rightarrow> tracker \<Rightarrow> hunk_action_error + tracker" where
  "write_file w p content t =
     (if write_ok w p content then Inr (t\<lparr>disk := disk t @ [WriteFile p content]\<rparr>) else Inl (WriteError p))"

definition remove_file :: "world \<Rightarrow> string \<Rightarrow> tracker \<Rightarrow> hunk_action_error + tracker" where
  "remove_file w p t =
     (if remove_ok w p then Inr (t\<lparr>disk := disk t @ [RemoveFile p]\<rparr>) else Inl (DeleteError p))"

datatype reject_action = RestoreDeleted string | DeleteCreated | RevertChange string | NoOp

definition reject_action_for :: "file_hunk_state \<Rightarrow> (string \<Rightarrow> string) \<Rightarrow> reject_action" where
  "reject_action_for st f =
     (case (baseline st, current_content st) of
        (Full b, Missing) \<Rightarrow> RestoreDeleted b
      | (Missing, Full _) \<Rightarrow> DeleteCreated
      | (_, Full c) \<Rightarrow> RevertChange (f c)
      | _ \<Rightarrow> NoOp)"

text \<open>Handlers that can fail return the state they leave and the result.\<close>

definition reject_hunk ::
  "diff_env \<Rightarrow> world \<Rightarrow> string \<Rightarrow> hunk \<Rightarrow> tracker \<Rightarrow> tracker \<times> (hunk_action_error + unit)" where
  "reject_hunk env w p h t =
     (case state_of t p of
        None \<Rightarrow> (t, Inr ())
      | Some st \<Rightarrow>
          let left = without_ids [hunk_id h] (hunks st); removed = HunkRemoved p (hunk_id h) Rejected
          in case reject_action_for st (revert h) of
               RestoreDeleted b \<Rightarrow>
                 (case write_file w p b t of
                    Inl e \<Rightarrow> (t, Inl e)
                  | Inr t1 \<Rightarrow>
                      (send_event removed (put_state p (st\<lparr>current_content := Full b, hunks := left\<rparr>) t1), Inr ()))
             | DeleteCreated \<Rightarrow>
                 (case remove_file w p t of
                    Inl e \<Rightarrow> (t, Inl e)
                  | Inr t1 \<Rightarrow>
                      (send_event removed (put_state p (st\<lparr>current_content := Missing, hunks := left\<rparr>) t1), Inr ()))
             | RevertChange patched \<Rightarrow>
                 (case write_file w p patched t of
                    Inl e \<Rightarrow> (t, Inl e)
                  | Inr t1 \<Rightarrow>
                      let t2 = send_event removed
                                 (put_state p (st\<lparr>current_content := Full patched, hunks := left\<rparr>) t1)
                      in (recompute_hunks env p (Some (Full patched)) (remaining_source t2 p) t2, Inr ()))
             | NoOp \<Rightarrow> (t, Inr ()))"

fun find_hunk_in :: "string \<Rightarrow> (string \<times> file_hunk_state) list \<Rightarrow> (string \<times> hunk) option" where
  "find_hunk_in hid [] = None"
| "find_hunk_in hid ((p, st) # fs) =
     (case find (\<lambda>h. hunk_id h = hid) (hunks st) of
        Some h \<Rightarrow> Some (p, h)
      | None \<Rightarrow> find_hunk_in hid fs)"

definition count_action :: "hunk_action \<Rightarrow> hunk \<Rightarrow> tracker \<Rightarrow> tracker" where
  "count_action action h t =
     remove_from_turn_index (hunk_id h) (hunk_source h)
       (update_session_stats (line_info h) (action = Accept) t)"

definition apply_hunk_action ::
  "diff_env \<Rightarrow> world \<Rightarrow> string \<Rightarrow> hunk_action \<Rightarrow> tracker \<Rightarrow> tracker \<times> (hunk_action_error + unit)" where
  "apply_hunk_action env w hid action t =
     (case find_hunk_in hid (file_states t) of
        None \<Rightarrow> (t, Inl (HunkNotFound hid))
      | Some (p, h) \<Rightarrow>
          let t1 = count_action action h t
          in case action of
               Accept \<Rightarrow> (accept_hunk env p h t1, Inr ())
             | Reject \<Rightarrow> reject_hunk env w p h t1)"

definition by_start_descending :: "(hunk_line_info \<Rightarrow> nat) \<Rightarrow> hunk list \<Rightarrow> hunk list" where
  "by_start_descending start hs = sort_key (\<lambda>h. - int (start (line_info h))) hs"

definition patch_baseline :: "hunk \<Rightarrow> file_content_state \<Rightarrow> file_content_state" where
  "patch_baseline h base = (case base of Full b \<Rightarrow> Full (install h b) | c \<Rightarrow> c)"

definition accept_hunks_batch :: "diff_env \<Rightarrow> string \<Rightarrow> hunk list \<Rightarrow> tracker \<Rightarrow> tracker" where
  "accept_hunks_batch env p hs t =
     (if hs = [] then t
      else case state_of t p of
        None \<Rightarrow> t
      | Some st \<Rightarrow>
          let left = without_ids (map hunk_id hs) (hunks st)
          in if baseline st = Missing then
               send_event (BaselineUpdated p) (send_removed p Accepted hs
                 (put_state p (st\<lparr>baseline := current_content st, baseline_accepted := True, hunks := left\<rparr>) t))
             else
               let base = fold patch_baseline (by_start_descending old_start hs) (baseline st);
                   t1 = send_event (BaselineUpdated p) (send_removed p Accepted hs
                          (put_state p (st\<lparr>baseline := base, baseline_accepted := True, hunks := left\<rparr>) t))
               in recompute_hunks env p (Some (current_content st)) (remaining_source t1 p) t1)"

definition reject_hunks_batch ::
  "diff_env \<Rightarrow> world \<Rightarrow> string \<Rightarrow> hunk list \<Rightarrow> tracker \<Rightarrow> tracker \<times> (hunk_action_error + unit)" where
  "reject_hunks_batch env w p hs t =
     (if hs = [] then (t, Inr ())
      else case state_of t p of
        None \<Rightarrow> (t, Inr ())
      | Some st \<Rightarrow>
          let left = without_ids (map hunk_id hs) (hunks st)
          in case reject_action_for st (fold revert (by_start_descending new_start hs)) of
               RestoreDeleted b \<Rightarrow>
                 (case write_file w p b t of
                    Inl e \<Rightarrow> (t, Inl e)
                  | Inr t1 \<Rightarrow>
                      (send_removed p Rejected hs (put_state p (st\<lparr>current_content := baseline st, hunks := left\<rparr>) t1),
                       Inr ()))
             | DeleteCreated \<Rightarrow>
                 (case remove_file w p t of
                    Inl e \<Rightarrow> (t, Inl e)
                  | Inr t1 \<Rightarrow>
                      (send_removed p Rejected hs (put_state p (st\<lparr>current_content := Missing, hunks := left\<rparr>) t1),
                       Inr ()))
             | RevertChange patched \<Rightarrow>
                 (case write_file w p patched t of
                    Inl e \<Rightarrow> (t, Inl e)
                  | Inr t1 \<Rightarrow>
                      let t2 = send_removed p Rejected hs
                                 (put_state p (st\<lparr>current_content := Full patched, hunks := left\<rparr>) t1)
                      in (recompute_hunks env p (Some (Full patched)) (remaining_source t2 p) t2, Inr ()))
             | NoOp \<Rightarrow> (t, Inr ()))"

fun action_batch ::
  "diff_env \<Rightarrow> world \<Rightarrow> hunk_action \<Rightarrow> (string \<times> hunk list) list \<Rightarrow> string list \<Rightarrow> tracker \<Rightarrow>
   tracker \<times> (hunk_action_error + string list)" where
  "action_batch env w action [] affected t = (t, Inr affected)"
| "action_batch env w action ((p, hs) # rest) affected t =
     (let t1 = fold (count_action action) hs t; affected' = affected @ map hunk_id hs
      in case action of
           Accept \<Rightarrow> action_batch env w action rest affected' (accept_hunks_batch env p hs t1)
         | Reject \<Rightarrow>
             (case reject_hunks_batch env w p hs t1 of
                (t2, Inl e) \<Rightarrow> (t2, Inl e)
              | (t2, Inr _) \<Rightarrow> action_batch env w action rest affected' t2))"

definition apply_action_batch ::
  "diff_env \<Rightarrow> world \<Rightarrow> (string \<times> hunk list) list \<Rightarrow> hunk_action \<Rightarrow> tracker \<Rightarrow>
   tracker \<times> (hunk_action_error + string list)" where
  "apply_action_batch env w files action t = action_batch env w action files [] t"

definition apply_file_action ::
  "diff_env \<Rightarrow> world \<Rightarrow> string \<Rightarrow> hunk_action \<Rightarrow> tracker \<Rightarrow> tracker \<times> (hunk_action_error + string list)" where
  "apply_file_action env w p action t =
     (case state_of t p of
        None \<Rightarrow> (t, Inr [])
      | Some st \<Rightarrow>
          if hunks st = [] then (t, Inr []) else apply_action_batch env w [(p, hunks st)] action t)"

definition files_with_hunks :: "(hunk \<Rightarrow> bool) \<Rightarrow> tracker \<Rightarrow> (string \<times> hunk list) list" where
  "files_with_hunks P t =
     filter (\<lambda>(p, hs). hs \<noteq> []) (map (\<lambda>(p, st). (p, filter P (hunks st))) (file_states t))"

definition apply_all_action ::
  "diff_env \<Rightarrow> world \<Rightarrow> hunk_action \<Rightarrow> tracker \<Rightarrow> tracker \<times> (hunk_action_error + string list)" where
  "apply_all_action env w action t =
     (let files = files_with_hunks (\<lambda>_. True) t
      in if files = [] then (t, Inr []) else apply_action_batch env w files action t)"

definition apply_turn_action ::
  "diff_env \<Rightarrow> world \<Rightarrow> nat \<Rightarrow> hunk_action \<Rightarrow> tracker \<Rightarrow> tracker \<times> (hunk_action_error + string list)" where
  "apply_turn_action env w i action t =
     (let files = files_with_hunks (\<lambda>h. prompt_index (hunk_source h) = Some i) t
      in if files = [] then (t, Inr []) else apply_action_batch env w files action t)"

section \<open>Reading from git\<close>

definition canonical_or_same :: "world \<Rightarrow> string \<Rightarrow> string" where
  "canonical_or_same w p = (case canonicalize w p of Some c \<Rightarrow> c | None \<Rightarrow> p)"

definition open_or_discover :: "world \<Rightarrow> git_repo_state \<Rightarrow> string \<Rightarrow> (string \<times> string option) option" where
  "open_or_discover w cached_state wd =
     (case cached_state of
        Discovered pre \<Rightarrow> Some (pre, None)
      | Unknown \<Rightarrow>
          (case repo_workdir w wd of
             None \<Rightarrow> None
           | Some root \<Rightarrow>
               map_option (\<lambda>pre. (pre, Some pre))
                 (path_strip_prefix (canonical_or_same w wd) (canonical_or_same w root)))
      | NotARepo \<Rightarrow> None)"

definition discovery_result :: "git_repo_state \<Rightarrow> (string \<times> string option) option \<Rightarrow> git_repo_state" where
  "discovery_result cached_state opened =
     (case opened of
        None \<Rightarrow> if cached_state = Unknown then NotARepo else cached_state
      | Some (_, None) \<Rightarrow> cached_state
      | Some (_, Some pre) \<Rightarrow> Discovered pre)"

definition canonicalize_or_parent :: "world \<Rightarrow> string \<Rightarrow> string" where
  "canonicalize_or_parent w p =
     (case canonicalize w p of
        Some c \<Rightarrow> c
      | None \<Rightarrow>
          (case path_parent p of
             None \<Rightarrow> p
           | Some parent \<Rightarrow>
               (case (canonicalize w parent, path_file_name p) of
                  (Some cp, Some f) \<Rightarrow> push_path cp f
                | _ \<Rightarrow> p)))"

definition head_content :: "world \<Rightarrow> string \<Rightarrow> string \<Rightarrow> string \<Rightarrow> file_content_state" where
  "head_content w pre wd p =
     (case path_strip_prefix (canonicalize_or_parent w p) (canonical_or_same w wd) of
        None \<Rightarrow> Missing
      | Some rel \<Rightarrow>
          (case head_entry w (push_path pre rel) of
             None \<Rightarrow> Missing
           | Some Link \<Rightarrow> Symlink
           | Some (Blob data) \<Rightarrow> classify_bytes data))"

definition read_baseline :: "world \<Rightarrow> string \<Rightarrow> tracker \<Rightarrow> tracker \<times> file_content_state" where
  "read_baseline w p t =
     (if git_repo_state t = NotARepo then (t, Missing)
      else if \<not> task_ok w then (t, Missing)
      else
        let opened = open_or_discover w (git_repo_state t) (working_dir t)
        in (t\<lparr>git_repo_state := discovery_result (git_repo_state t) opened\<rparr>,
            case opened of None \<Rightarrow> Missing | Some (pre, _) \<Rightarrow> head_content w pre (working_dir t) p))"

definition read_baselines_batch ::
  "world \<Rightarrow> string list \<Rightarrow> tracker \<Rightarrow> tracker \<times> (string \<times> file_content_state) list" where
  "read_baselines_batch w paths t =
     (if paths = [] \<or> git_repo_state t = NotARepo then (t, [])
      else if \<not> task_ok w then (t, [])
      else
        let opened = open_or_discover w (git_repo_state t) (working_dir t)
        in (t\<lparr>git_repo_state := discovery_result (git_repo_state t) opened\<rparr>,
            map (\<lambda>p. (p, case opened of None \<Rightarrow> Missing | Some (pre, _) \<Rightarrow> head_content w pre (working_dir t) p))
              paths))"

definition read_repo_sync_state :: "world \<Rightarrow> tracker \<Rightarrow> tracker \<times> repo_sync_state option" where
  "read_repo_sync_state w t =
     (if git_repo_state t = NotARepo then (t, None)
      else if \<not> task_ok w then (t, None)
      else
        let opened = open_or_discover w (git_repo_state t) (working_dir t)
        in (t\<lparr>git_repo_state := discovery_result (git_repo_state t) opened\<rparr>,
            case opened of None \<Rightarrow> None | Some _ \<Rightarrow> Some (sync_state w)))"

section \<open>File changes\<close>

definition tracked_file :: "file_content_state \<Rightarrow> file_content_state \<Rightarrow> bool \<Rightarrow> file_hunk_state" where
  "tracked_file base cur agent =
     \<lparr>baseline = base, current_content = cur, hunks = [], is_agent_file = agent, baseline_accepted = False\<rparr>"

definition start_tracking ::
  "string \<Rightarrow> file_content_state \<Rightarrow> file_content_state \<Rightarrow> bool \<Rightarrow> tracker \<Rightarrow> tracker" where
  "start_tracking p base cur agent t =
     send_event (FileAdded p agent) (put_state p (tracked_file base cur agent) t)"

definition strip_single_trailing_newline :: "string \<Rightarrow> string" where
  "strip_single_trailing_newline content =
     (case strip_suffix content [carriage_return, newline] of
        Some s \<Rightarrow> s
      | None \<Rightarrow> (case strip_suffix content [newline] of Some s \<Rightarrow> s | None \<Rightarrow> content))"

definition record_agent_write ::
  "diff_env \<Rightarrow> world \<Rightarrow> string \<Rightarrow> string \<Rightarrow> nat \<Rightarrow> string option \<Rightarrow> tracker \<Rightarrow> tracker" where
  "record_agent_write env w p content i previous_content t =
     (let current_state = classify_string content
      in if \<not> is_diffable current_state then
           case state_of t p of
             None \<Rightarrow>
               let (t1, base) = (case previous_content of
                                   Some prev \<Rightarrow> (t, classify_string prev)
                                 | None \<Rightarrow> read_baseline w p t)
               in start_tracking p base current_state True t1
           | Some st \<Rightarrow>
               put_state p (st\<lparr>is_agent_file := True, current_content := current_state, hunks := []\<rparr>) t
         else
           let t2 =
             (case state_of t p of
                None \<Rightarrow>
                  let (t1, head) = read_baseline w p t;
                      base = (if head = Missing
                              then (case previous_content of None \<Rightarrow> Missing | Some prev \<Rightarrow> classify_string prev)
                              else head)
                  in start_tracking p base current_state True t1
              | Some st \<Rightarrow> put_state p (st\<lparr>is_agent_file := True\<rparr>) t)
           in recompute_hunks env p (Some current_state) (AgentEdit i) t2)"

definition baseline_for ::
  "world \<Rightarrow> string \<Rightarrow> file_content_state option \<Rightarrow> tracker \<Rightarrow> tracker \<times> file_content_state" where
  "baseline_for w p preloaded t = (case preloaded of Some b \<Rightarrow> (t, b) | None \<Rightarrow> read_baseline w p t)"

text \<open>Not in HEAD and not in the dirty cache: ignored by git.\<close>

definition is_ignored :: "world \<Rightarrow> tracker \<Rightarrow> string \<Rightarrow> file_content_state \<Rightarrow> bool" where
  "is_ignored w t p base =
     (mode t = AllDirty \<and> base = Missing \<and> \<not> path_is_dir w p \<and> \<not> in_dirty_cache t p)"

definition external_source :: "tracker \<Rightarrow> string \<Rightarrow> hunk_source" where
  "external_source t p =
     (case state_of t p of
        Some st \<Rightarrow> if is_agent_file st then ExternalEditOnAgentFile else External
      | None \<Rightarrow> External)"

definition content_matches_head ::
  "tracker \<Rightarrow> string \<Rightarrow> file_content_state \<Rightarrow> file_content_state \<Rightarrow> bool" where
  "content_matches_head t p current_state head =
     (case (current_state, head) of
        (Full c, Full h) \<Rightarrow> strip_single_trailing_newline c = strip_single_trailing_newline h
      | (Missing, Missing) \<Rightarrow> True
      | (Binary _, Binary _) \<Rightarrow> True
      | (TooLarge _, TooLarge _) \<Rightarrow> True
      | (LfsPointer _, LfsPointer _) \<Rightarrow> True
      | (Symlink, Symlink) \<Rightarrow> True
      | (Symlink, Full _) \<Rightarrow> \<not> in_dirty_cache t p
      | (Full _, Symlink) \<Rightarrow> \<not> in_dirty_cache t p
      | _ \<Rightarrow> False)"

definition process_file_change ::
  "diff_env \<Rightarrow> world \<Rightarrow> string \<Rightarrow> file_content_state option \<Rightarrow> tracker \<Rightarrow> tracker" where
  "process_file_change env w p preloaded t =
     (case state_of t p of
        None \<Rightarrow>
          if mode t = AgentOnly then t
          else
            let current_state = read_file_bounded w p;
                (t1, base) = baseline_for w p preloaded t
            in if is_ignored w t1 p base then t1
               else if \<not> is_diffable current_state then
                 let t2 = start_tracking p base current_state False t1
                 in if is_diffable base then recompute_hunks env p None External t2 else t2
               else
                 let t2 = start_tracking p base Missing False t1
                 in recompute_hunks env p (Some current_state) (external_source t2 p) t2
      | Some st \<Rightarrow>
          let current_state = read_file_bounded w p
          in if baseline_accepted st then
               let (t1, head) = baseline_for w p preloaded t
               in if content_matches_head t1 p current_state head then
                    put_state p (st\<lparr>baseline := head, current_content := head, baseline_accepted := False, hunks := []\<rparr>) t1
                  else recompute_hunks env p (Some current_state) (external_source t1 p) t1
             else recompute_hunks env p (Some current_state) (external_source t p) t)"

definition handle_file_change :: "diff_env \<Rightarrow> world \<Rightarrow> string \<Rightarrow> tracker \<Rightarrow> tracker" where
  "handle_file_change env w p t = process_file_change env w p None t"

definition needs_baseline :: "tracker \<Rightarrow> string \<Rightarrow> bool" where
  "needs_baseline t p =
     (case state_of t p of None \<Rightarrow> mode t \<noteq> AgentOnly | Some st \<Rightarrow> baseline_accepted st)"

fun process_changes ::
  "diff_env \<Rightarrow> world \<Rightarrow> string list \<Rightarrow> (string \<times> file_content_state) list \<Rightarrow> tracker \<Rightarrow> tracker" where
  "process_changes env w [] baselines t = t"
| "process_changes env w (p # ps) baselines t =
     process_changes env w ps (AList.delete p baselines)
       (process_file_change env w p (map_of baselines p) t)"

definition handle_file_changes_batch :: "diff_env \<Rightarrow> world \<Rightarrow> string list \<Rightarrow> tracker \<Rightarrow> tracker" where
  "handle_file_changes_batch env w paths t =
     (if paths = [] then t
      else
        let baseline_paths = filter (needs_baseline t) paths;
            (t1, baselines) = (if baseline_paths = [] then (t, []) else read_baselines_batch w baseline_paths t)
        in process_changes env w paths baselines t1)"

definition handle_file_deleted :: "diff_env \<Rightarrow> world \<Rightarrow> string \<Rightarrow> tracker \<Rightarrow> tracker" where
  "handle_file_deleted env w p t =
     (case state_of t p of
        None \<Rightarrow>
          if mode t = AgentOnly then t
          else if path_exists w p then t
          else
            let (t1, base) = read_baseline w p t
            in if base = Missing then t1
               else recompute_hunks env p None External (start_tracking p base Missing False t1)
      | Some st \<Rightarrow>
          if path_exists w p then handle_file_change env w p t
          else recompute_hunks env p None (external_source t p) t)"

definition supersede_hunk :: "string \<Rightarrow> hunk \<Rightarrow> tracker \<Rightarrow> tracker" where
  "supersede_hunk p h t =
     send_event (HunkRemoved p (hunk_id h) Superseded) (remove_from_turn_index (hunk_id h) (hunk_source h) t)"

definition reset_baseline :: "string \<Rightarrow> tracker \<Rightarrow> tracker" where
  "reset_baseline p t =
     (case state_of t p of
        None \<Rightarrow> t
      | Some st \<Rightarrow>
          send_event (BaselineUpdated p)
            (fold (supersede_hunk p) (hunks st)
              (put_state p (st\<lparr>baseline := current_content st, baseline_accepted := False, hunks := []\<rparr>) t)))"

section \<open>Reconciling with git\<close>

definition git_status_files ::
  "world \<Rightarrow> (string \<times> string option) option \<Rightarrow> string list option \<Rightarrow> string list \<times> string list" where
  "git_status_files w opened scope =
     (case opened of
        None \<Rightarrow> ([], [])
      | Some (pre, _) \<Rightarrow>
          if \<not> index_nonempty w then ([], [])
          else
            let pathspecs = (case scope of
                               None \<Rightarrow> []
                             | Some rels \<Rightarrow> map (\<lambda>rel. '':(top,literal)'' @ push_path pre rel) rels)
            in case git_status w pathspecs of
                 None \<Rightarrow> ([], [])
               | Some items \<Rightarrow>
                   let inside = List.map_filter
                         (\<lambda>(loc, staged). map_option (\<lambda>rel. (rel, staged)) (path_strip_prefix loc pre)) items
                   in (remdups (map fst inside), remdups (map fst (filter snd inside))))"

definition refresh_git_dirty_cache :: "diff_env \<Rightarrow> world \<Rightarrow> string list option \<Rightarrow> tracker \<Rightarrow> tracker" where
  "refresh_git_dirty_cache env w scope t =
     (if git_repo_state t = NotARepo then t
      else if \<not> task_ok w then t
      else
        let opened = open_or_discover w (git_repo_state t) (working_dir t);
            (dirty, staged) = git_status_files w opened scope;
            paths_to_track = filter (\<lambda>rel. state_of t (push_path (working_dir t) rel) = None) dirty;
            t1 = t\<lparr>git_repo_state := discovery_result (git_repo_state t) opened,
                   git_dirty_cache := dirty, git_staged_cache := staged\<rparr>
        in if mode t1 = AllDirty
           then fold (\<lambda>rel t. handle_file_change env w (push_path (working_dir t) rel) t) paths_to_track t1
           else t1)"

definition is_clean :: "world \<Rightarrow> tracker \<Rightarrow> string \<Rightarrow> file_content_state \<Rightarrow> file_content_state \<Rightarrow> bool" where
  "is_clean w t p base cur =
     (case (base, cur) of
        (Full b, Full c) \<Rightarrow> strip_single_trailing_newline b = strip_single_trailing_newline c
      | (Binary _, Binary _) \<Rightarrow> \<not> in_dirty_cache t p
      | (TooLarge _, TooLarge _) \<Rightarrow> \<not> in_dirty_cache t p
      | (Symlink, Symlink) \<Rightarrow> \<not> in_dirty_cache t p
      | (LfsPointer _, _) \<Rightarrow> \<not> in_dirty_cache t p
      | (_, LfsPointer _) \<Rightarrow> \<not> in_dirty_cache t p
      | (Symlink, Full _) \<Rightarrow> \<not> in_dirty_cache t p
      | (Full _, Symlink) \<Rightarrow> \<not> in_dirty_cache t p
      | (Missing, Missing) \<Rightarrow> \<not> path_exists w p
      | (Missing, _) \<Rightarrow> \<not> in_dirty_cache t p
      | _ \<Rightarrow> False)"

definition refresh_file ::
  "diff_env \<Rightarrow> world \<Rightarrow> (string \<times> file_content_state) list \<Rightarrow> string \<Rightarrow> tracker \<Rightarrow> tracker" where
  "refresh_file env w baselines p t =
     (case state_of t p of
        None \<Rightarrow> t
      | Some st \<Rightarrow>
          let base = (case map_of baselines p of None \<Rightarrow> Missing | Some b \<Rightarrow> b);
              cur = read_file_bounded w p;
              st1 = st\<lparr>baseline := base, current_content := cur, baseline_accepted := False\<rparr>
          in if is_clean w t p base cur then
               if \<not> is_agent_file st then
                 send_event (FileRemoved p) (fold (supersede_hunk p) (hunks st) (drop_state p t))
               else
                 send_event (BaselineUpdated p) (fold (supersede_hunk p) (hunks st) (put_state p (st1\<lparr>hunks := []\<rparr>) t))
             else
               send_event (BaselineUpdated p)
                 (recompute_hunks env p (Some cur)
                   (if is_agent_file st then ExternalEditOnAgentFile else External) (put_state p st1 t)))"

definition refresh_scope :: "tracker \<Rightarrow> string list option" where
  "refresh_scope t =
     (case mode t of
        AllDirty \<Rightarrow> None
      | AgentOnly \<Rightarrow> Some (List.map_filter (\<lambda>(p, _). path_strip_prefix p (working_dir t)) (file_states t)))"

definition refresh_files :: "diff_env \<Rightarrow> world \<Rightarrow> string list \<Rightarrow> tracker \<Rightarrow> tracker" where
  "refresh_files env w skip t =
     (let t1 = (case refresh_scope t of
                  Some [] \<Rightarrow> t\<lparr>git_dirty_cache := [], git_staged_cache := []\<rparr>
                | scope \<Rightarrow> refresh_git_dirty_cache env w scope t);
          paths = filter (\<lambda>p. p \<notin> set skip) (map fst (file_states t1));
          (t2, baselines) = (if paths = [] then (t1, []) else read_baselines_batch w paths t1)
      in fold (refresh_file env w baselines) paths t2)"

definition refresh_all_baselines_except :: "diff_env \<Rightarrow> world \<Rightarrow> string list \<Rightarrow> tracker \<Rightarrow> tracker" where
  "refresh_all_baselines_except env w skip t =
     (if mode t = AgentOnly \<and> file_states t = [] then t
      else case read_repo_sync_state w t of
             (t1, Some s) \<Rightarrow>
               if s = repo_sync_state t1 then t1
               else refresh_files env w skip (t1\<lparr>repo_sync_state := s\<rparr>)
           | (t1, None) \<Rightarrow> refresh_files env w skip t1)"

definition refresh_all_baselines :: "diff_env \<Rightarrow> world \<Rightarrow> tracker \<Rightarrow> tracker" where
  "refresh_all_baselines env w t = refresh_all_baselines_except env w [] t"

definition untrack :: "string \<Rightarrow> tracker \<Rightarrow> tracker" where
  "untrack p t =
     (case state_of t p of
        None \<Rightarrow> t
      | Some st \<Rightarrow> send_event (FileRemoved p) (fold (supersede_hunk p) (hunks st) (drop_state p t)))"

definition set_mode :: "diff_env \<Rightarrow> world \<Rightarrow> tracking_mode \<Rightarrow> tracker \<Rightarrow> tracker" where
  "set_mode env w m t =
     (let t1 = t\<lparr>mode := m\<rparr>
      in if mode t = AgentOnly \<and> m = AllDirty then refresh_git_dirty_cache env w None t1
         else if mode t = AllDirty \<and> m = AgentOnly
         then fold untrack (map fst (filter (\<lambda>(p, st). \<not> is_agent_file st) (file_states t1))) t1
         else t1)"

section \<open>Snapshots and changed roots\<close>

record tracker_snapshot =
  snap_file_states :: "(string \<times> file_hunk_state) list"
  snap_turn_index :: "nat \<Rightarrow> string list option"
  snap_session_stats :: session_stats

record turn_delta =
  delta_prompt_index :: nat
  delta_file_states :: "(string \<times> file_hunk_state) list"
  delta_hunk_ids :: "string list"

definition take_snapshot :: "tracker \<Rightarrow> tracker_snapshot" where
  "take_snapshot t =
     \<lparr>snap_file_states = file_states t, snap_turn_index = turn_index t, snap_session_stats = session_stats t\<rparr>"

definition take_turn_delta :: "nat \<Rightarrow> tracker \<Rightarrow> turn_delta" where
  "take_turn_delta i t =
     (let ids = (case turn_index t i of None \<Rightarrow> [] | Some ids \<Rightarrow> ids)
      in \<lparr>delta_prompt_index = i,
          delta_file_states =
            filter (\<lambda>(_, st). list_ex (\<lambda>h. hunk_id h \<in> set ids) (hunks st)) (file_states t),
          delta_hunk_ids = ids\<rparr>)"

definition restore_snapshot :: "tracker_snapshot \<Rightarrow> tracker \<Rightarrow> tracker" where
  "restore_snapshot snap t =
     t\<lparr>file_states := snap_file_states snap, turn_index := snap_turn_index snap,
       session_stats := snap_session_stats snap\<rparr>"

definition rewrite_single_path :: "string \<Rightarrow> string \<Rightarrow> string \<Rightarrow> string \<Rightarrow> string option" where
  "rewrite_single_path p old_cwd canonical_old new_cwd =
     map_option (push_path new_cwd)
       (case path_strip_prefix p canonical_old of
          Some rel \<Rightarrow> Some rel
        | None \<Rightarrow> path_strip_prefix p old_cwd)"

definition rekey_state :: "string \<Rightarrow> file_hunk_state \<Rightarrow> file_hunk_state" where
  "rekey_state p st = st\<lparr>hunks := map (\<lambda>h. h\<lparr>hunk_path := p\<rparr>) (hunks st)\<rparr>"

text \<open>Collecting pairs into a map keeps the last one for each key.\<close>

definition collect_pairs :: "('k \<times> 'v) list \<Rightarrow> ('k \<times> 'v) list" where
  "collect_pairs ps = fold (\<lambda>(k, v). AList.update k v) ps []"

definition rewrite_paths :: "string \<Rightarrow> string \<Rightarrow> string \<Rightarrow> tracker_snapshot \<Rightarrow> tracker_snapshot" where
  "rewrite_paths old_cwd canonical_old_cwd new_cwd snap =
     snap\<lparr>snap_file_states := collect_pairs
       (map (\<lambda>(p, st).
          let target = (case rewrite_single_path p old_cwd canonical_old_cwd new_cwd of None \<Rightarrow> p | Some q \<Rightarrow> q)
          in (target, rekey_state target st)) (snap_file_states snap))\<rparr>"

definition under :: "string \<Rightarrow> string \<Rightarrow> bool" where
  "under p dir = (path_strip_prefix p dir \<noteq> None)"

definition rekey_path :: "string \<Rightarrow> string \<Rightarrow> string \<Rightarrow> string" where
  "rekey_path old new_cwd p =
     (if under p new_cwd then p
      else case rewrite_single_path p old old new_cwd of None \<Rightarrow> p | Some q \<Rightarrow> q)"

definition merge_rekeyed ::
  "string \<times> file_hunk_state \<Rightarrow> (string \<times> file_hunk_state) list \<Rightarrow> (string \<times> file_hunk_state) list" where
  "merge_rekeyed entry next =
     (case map_of next (fst entry) of
        None \<Rightarrow> AList.update (fst entry) (snd entry) next
      | Some dest \<Rightarrow>
          AList.update (fst entry)
            (dest\<lparr>hunks := hunks dest @ hunks (snd entry),
                  is_agent_file := is_agent_file dest \<or> is_agent_file (snd entry),
                  baseline_accepted := baseline_accepted dest \<or> baseline_accepted (snd entry)\<rparr>) next)"

definition rekey_paths_for_working_dir :: "string \<Rightarrow> tracker \<Rightarrow> tracker" where
  "rekey_paths_for_working_dir new_cwd t =
     (if new_cwd = working_dir t then t
      else
        let rewrite = rekey_path (working_dir t) new_cwd;
            rekey = (\<lambda>(p, st). (rewrite p, rekey_state (rewrite p) st));
            (already, rewritten) = partition (\<lambda>(p, _). under p new_cwd) (file_states t);
            next = fold merge_rekeyed (map rekey rewritten) (collect_pairs (map rekey already))
        in t\<lparr>file_states := next,
             git_dirty_cache := remdups (map rewrite (git_dirty_cache t)),
             git_staged_cache := remdups (map rewrite (git_staged_cache t))\<rparr>)"

definition set_working_dir :: "string \<Rightarrow> tracker \<Rightarrow> tracker" where
  "set_working_dir wd t =
     (rekey_paths_for_working_dir wd t)
       \<lparr>working_dir := wd, git_repo_state := Unknown, repo_sync_state := default_sync_state\<rparr>"

section \<open>Queries\<close>

datatype content_status = SMissing | SBinary | STooLarge | SLfsPointer | SSymlink | SFull

record file_content_view =
  view_status :: content_status
  view_byte_len :: "nat option"
  view_content :: "string option"

definition from_content_state :: "file_content_state \<Rightarrow> file_content_view" where
  "from_content_state c =
     (case c of
        Missing \<Rightarrow> \<lparr>view_status = SMissing, view_byte_len = None, view_content = None\<rparr>
      | Binary n \<Rightarrow> \<lparr>view_status = SBinary, view_byte_len = n, view_content = None\<rparr>
      | TooLarge n \<Rightarrow> \<lparr>view_status = STooLarge, view_byte_len = Some n, view_content = None\<rparr>
      | LfsPointer n \<Rightarrow> \<lparr>view_status = SLfsPointer, view_byte_len = Some n, view_content = None\<rparr>
      | Symlink \<Rightarrow> \<lparr>view_status = SSymlink, view_byte_len = None, view_content = None\<rparr>
      | Full s \<Rightarrow> \<lparr>view_status = SFull, view_byte_len = Some (length s), view_content = Some s\<rparr>)"

definition get_all_hunks :: "tracker \<Rightarrow> hunk list" where
  "get_all_hunks t = concat (map (\<lambda>(_, st). hunks st) (file_states t))"

definition get_hunks_for_path :: "string \<Rightarrow> tracker \<Rightarrow> hunk list" where
  "get_hunks_for_path p t = (case state_of t p of None \<Rightarrow> [] | Some st \<Rightarrow> hunks st)"

definition get_all_tracked_paths :: "tracker \<Rightarrow> string list" where
  "get_all_tracked_paths t = map fst (file_states t)"

datatype source_filter = AgentFilter | ExternalFilter

definition get_hunks_by_source :: "source_filter \<Rightarrow> tracker \<Rightarrow> hunk list" where
  "get_hunks_by_source f t =
     filter (\<lambda>h. case f of AgentFilter \<Rightarrow> is_agent_edit (hunk_source h) | ExternalFilter \<Rightarrow> is_external (hunk_source h))
       (get_all_hunks t)"

definition get_hunk :: "string \<Rightarrow> tracker \<Rightarrow> hunk option" where
  "get_hunk hid t = find (\<lambda>h. hunk_id h = hid) (get_all_hunks t)"

definition get_hunks_for_turn :: "nat \<Rightarrow> tracker \<Rightarrow> hunk list" where
  "get_hunks_for_turn i t =
     (case turn_index t i of None \<Rightarrow> [] | Some ids \<Rightarrow> List.map_filter (\<lambda>hid. get_hunk hid t) ids)"

record file_hunk_data =
  data_hunks :: "hunk list"
  data_baseline :: file_content_view
  data_current :: file_content_view
  data_baseline_content :: "string option"
  data_current_content :: "string option"

text \<open>\<open>None\<close> when generating a patch would wrap, see \<open>generate_hunk_patch\<close>.\<close>

definition hunk_patch :: "file_hunk_state \<Rightarrow> hunk \<Rightarrow> string option option" where
  "hunk_patch st h =
     (case (as_str (baseline st), as_str (current_content st)) of
        (None, None) \<Rightarrow> Some None
      | (b, c) \<Rightarrow>
          map_option Some
            (generate_hunk_patch (case b of None \<Rightarrow> [] | Some s \<Rightarrow> s) (case c of None \<Rightarrow> [] | Some s \<Rightarrow> s) h))"

definition with_patch :: "file_hunk_state \<Rightarrow> hunk \<Rightarrow> hunk option" where
  "with_patch st h = map_option (\<lambda>pt. h\<lparr>patch := pt\<rparr>) (hunk_patch st h)"

definition get_file_hunk_data :: "string \<Rightarrow> tracker \<Rightarrow> file_hunk_data option" where
  "get_file_hunk_data p t =
     (case state_of t p of
        None \<Rightarrow>
          Some \<lparr>data_hunks = [], data_baseline = from_content_state Missing, data_current = from_content_state Missing,
                data_baseline_content = None, data_current_content = None\<rparr>
      | Some st \<Rightarrow>
          let patched = map (with_patch st) (hunks st);
              b = from_content_state (baseline st); c = from_content_state (current_content st)
          in if None \<in> set patched then None
             else Some \<lparr>data_hunks = map the patched, data_baseline = b, data_current = c,
                        data_baseline_content = view_content b, data_current_content = view_content c\<rparr>)"

record turn_summary =
  ts_prompt_index :: nat
  ts_files :: "string list"
  ts_pending :: "hunk list"
  ts_lines_added :: nat
  ts_lines_removed :: nat

record session_summary =
  sum_stats :: session_stats
  sum_turns :: "turn_summary list"
  sum_files_modified :: nat
  sum_files_with_pending :: nat
  sum_pending_hunks :: nat
  sum_lines_added :: nat
  sum_lines_removed :: nat
  sum_unattributed :: nat

definition add_to_turn ::
  "string \<Rightarrow> hunk \<Rightarrow> nat \<Rightarrow> (nat \<times> turn_summary) list \<Rightarrow> (nat \<times> turn_summary) list" where
  "add_to_turn p h i turns =
     (let d = (case map_of turns i of
                 None \<Rightarrow> \<lparr>ts_prompt_index = i, ts_files = [], ts_pending = [], ts_lines_added = 0, ts_lines_removed = 0\<rparr>
               | Some d \<Rightarrow> d)
      in AList.update i
           (d\<lparr>ts_files := List.insert p (ts_files d), ts_pending := ts_pending d @ [h],
              ts_lines_added := ts_lines_added d + new_count (line_info h),
              ts_lines_removed := ts_lines_removed d + old_count (line_info h)\<rparr>) turns)"

definition compute_session_summary :: "tracker \<Rightarrow> session_summary" where
  "compute_session_summary t =
     (let pending = concat (map (\<lambda>(p, st). map (\<lambda>h. (p, h)) (hunks st)) (file_states t));
          by_prompt = fold (\<lambda>(p, h) turns. case prompt_index (hunk_source h) of
                              None \<Rightarrow> turns | Some i \<Rightarrow> add_to_turn p h i turns) pending [];
          turns = sort_key ts_prompt_index (map snd by_prompt);
          files = length (filter (\<lambda>(_, st). list_ex (\<lambda>h. prompt_index (hunk_source h) \<noteq> None) (hunks st))
                            (file_states t))
      in \<lparr>sum_stats = session_stats t, sum_turns = turns, sum_files_modified = files, sum_files_with_pending = files,
          sum_pending_hunks = sum_list (map (\<lambda>d. length (ts_pending d)) turns),
          sum_lines_added = sum_list (map ts_lines_added turns),
          sum_lines_removed = sum_list (map ts_lines_removed turns),
          sum_unattributed = length (filter (\<lambda>(_, h). prompt_index (hunk_source h) = None) pending)\<rparr>)"

section \<open>Commands\<close>

datatype command =
    RecordAgentWrite string string nat "string option"
  | HandleFileChange string
  | HandleFileDeleted string
  | RefreshGitDirtyCache
  | ResetBaseline string
  | SetMode tracking_mode
  | SetWorkingDir string
  | HunkActionCmd string hunk_action
  | FileAction string hunk_action
  | AllAction hunk_action
  | TurnAction nat hunk_action
  | GetAllHunks
  | GetHunksForPath string
  | GetFileHunkData string
  | GetHunksBySource source_filter
  | GetHunk string
  | IsAgentFile string
  | GetAllTrackedPaths
  | GetStagedFiles
  | GetAllFileContents
  | GetSessionSummary
  | GetTurnHunks nat
  | ResetStats
  | RefreshAllBaselines
  | SnapshotState
  | SnapshotTurnDelta nat
  | RestoreState tracker_snapshot

record file_content_entry =
  entry_path :: string
  entry_baseline :: file_content_view
  entry_current :: file_content_view
  entry_is_agent_file :: bool
  entry_staged :: bool

datatype reply =
    NoReply
  | Done
  | ActionResult "hunk_action_error + unit"
  | BatchResult "hunk_action_error + string list"
  | Hunks "hunk list"
  | HunkData "file_hunk_data option"
  | OneHunk "hunk option"
  | Flag bool
  | Paths "string list"
  | Contents "file_content_entry list"
  | Summary session_summary
  | Snapshot tracker_snapshot
  | Delta turn_delta

definition get_all_file_contents :: "tracker \<Rightarrow> file_content_entry list" where
  "get_all_file_contents t =
     map (\<lambda>(p, st).
        \<lparr>entry_path = p, entry_baseline = from_content_state (baseline st),
         entry_current = from_content_state (current_content st), entry_is_agent_file = is_agent_file st,
         entry_staged = (relative_to_cwd t p \<in> set (git_staged_cache t))\<rparr>) (file_states t)"

definition handle_command :: "diff_env \<Rightarrow> world \<Rightarrow> command \<Rightarrow> tracker \<Rightarrow> tracker \<times> reply" where
  "handle_command env w cmd t =
     (case cmd of
        RecordAgentWrite p content i prev \<Rightarrow> (record_agent_write env w p content i prev t, NoReply)
      | HandleFileChange p \<Rightarrow> (handle_file_change env w p t, NoReply)
      | HandleFileDeleted p \<Rightarrow> (handle_file_deleted env w p t, NoReply)
      | RefreshGitDirtyCache \<Rightarrow> (refresh_git_dirty_cache env w None t, NoReply)
      | ResetBaseline p \<Rightarrow> (reset_baseline p t, NoReply)
      | SetMode m \<Rightarrow> (set_mode env w m t, NoReply)
      | SetWorkingDir wd \<Rightarrow> (set_working_dir wd t, Done)
      | HunkActionCmd hid a \<Rightarrow> (let (t', r) = apply_hunk_action env w hid a t in (t', ActionResult r))
      | FileAction p a \<Rightarrow> (let (t', r) = apply_file_action env w p a t in (t', BatchResult r))
      | AllAction a \<Rightarrow> (let (t', r) = apply_all_action env w a t in (t', BatchResult r))
      | TurnAction i a \<Rightarrow> (let (t', r) = apply_turn_action env w i a t in (t', BatchResult r))
      | GetAllHunks \<Rightarrow> (t, Hunks (get_all_hunks t))
      | GetHunksForPath p \<Rightarrow> (t, Hunks (get_hunks_for_path p t))
      | GetFileHunkData p \<Rightarrow> (t, HunkData (get_file_hunk_data p t))
      | GetHunksBySource f \<Rightarrow> (t, Hunks (get_hunks_by_source f t))
      | GetHunk hid \<Rightarrow> (t, OneHunk (get_hunk hid t))
      | IsAgentFile p \<Rightarrow> (t, Flag (case state_of t p of None \<Rightarrow> False | Some st \<Rightarrow> is_agent_file st))
      | GetAllTrackedPaths \<Rightarrow> (t, Paths (get_all_tracked_paths t))
      | GetStagedFiles \<Rightarrow> (t, Paths (remdups (map (push_path (working_dir t)) (git_staged_cache t))))
      | GetAllFileContents \<Rightarrow> (t, Contents (get_all_file_contents t))
      | GetSessionSummary \<Rightarrow> (t, Summary (compute_session_summary t))
      | GetTurnHunks i \<Rightarrow> (t, Hunks (get_hunks_for_turn i t))
      | ResetStats \<Rightarrow> (t\<lparr>session_stats := default_stats\<rparr>, NoReply)
      | RefreshAllBaselines \<Rightarrow> (refresh_all_baselines env w t, NoReply)
      | SnapshotState \<Rightarrow> (t, Snapshot (take_snapshot t))
      | SnapshotTurnDelta i \<Rightarrow> (t, Delta (take_turn_delta i t))
      | RestoreState snap \<Rightarrow> (restore_snapshot snap t, NoReply))"

section \<open>Coalescing\<close>

datatype path_action = Changed | Deleted | DeletedThenChanged

record coalesced_batch =
  file_actions :: "(string \<times> path_action) list"
  refresh_all :: bool
  refresh_dirty :: bool
  other_commands :: "command list"
  command_count :: nat

definition batch_new :: coalesced_batch where
  "batch_new =
     \<lparr>file_actions = [], refresh_all = False, refresh_dirty = False, other_commands = [], command_count = 0\<rparr>"

definition batch_add :: "command \<Rightarrow> coalesced_batch \<Rightarrow> coalesced_batch" where
  "batch_add cmd b =
     (let b = b\<lparr>command_count := command_count b + 1\<rparr>
      in case cmd of
           HandleFileChange p \<Rightarrow>
             b\<lparr>file_actions := AList.update p
                 (case map_of (file_actions b) p of
                    None \<Rightarrow> Changed
                  | Some a \<Rightarrow> if a = Deleted then DeletedThenChanged else a) (file_actions b)\<rparr>
         | HandleFileDeleted p \<Rightarrow> b\<lparr>file_actions := AList.update p Deleted (file_actions b)\<rparr>
         | RefreshAllBaselines \<Rightarrow> b\<lparr>refresh_all := True\<rparr>
         | RefreshGitDirtyCache \<Rightarrow> b\<lparr>refresh_dirty := True\<rparr>
         | _ \<Rightarrow> b\<lparr>other_commands := other_commands b @ [cmd]\<rparr>)"

definition is_coalescable :: "command \<Rightarrow> bool" where
  "is_coalescable cmd =
     (case cmd of HandleFileChange _ \<Rightarrow> True | HandleFileDeleted _ \<Rightarrow> True | RefreshAllBaselines \<Rightarrow> True
      | RefreshGitDirtyCache \<Rightarrow> True | _ \<Rightarrow> False)"

definition drain_and_coalesce :: "command \<Rightarrow> command list \<Rightarrow> coalesced_batch" where
  "drain_and_coalesce cmd queued = fold batch_add (cmd # queued) batch_new"

fun refresh_actions ::
  "diff_env \<Rightarrow> world \<Rightarrow> (string \<times> path_action) list \<Rightarrow> string list \<Rightarrow> tracker \<Rightarrow> tracker \<times> string list" where
  "refresh_actions env w [] already t = (t, already)"
| "refresh_actions env w ((p, a) # rest) already t =
     (if a = Deleted then
        refresh_actions env w rest already (if state_of t p \<noteq> None then handle_file_deleted env w p t else t)
      else if state_of t p = None
      then refresh_actions env w rest (List.insert p already) (handle_file_change env w p t)
      else refresh_actions env w rest already t)"

definition handle_file_actions :: "diff_env \<Rightarrow> world \<Rightarrow> (string \<times> path_action) list \<Rightarrow> tracker \<Rightarrow> tracker" where
  "handle_file_actions env w actions t =
     handle_file_changes_batch env w (map fst (filter (\<lambda>(_, a). a \<noteq> Deleted) actions))
       (fold (handle_file_deleted env w) (map fst (filter (\<lambda>(_, a). a = Deleted) actions)) t)"

fun handle_commands :: "diff_env \<Rightarrow> world \<Rightarrow> command list \<Rightarrow> tracker \<Rightarrow> tracker \<times> reply list" where
  "handle_commands env w [] t = (t, [])"
| "handle_commands env w (cmd # cmds) t =
     (let (t1, r) = handle_command env w cmd t; (t2, rs) = handle_commands env w cmds t1 in (t2, r # rs))"

definition handle_coalesced_batch ::
  "diff_env \<Rightarrow> world \<Rightarrow> coalesced_batch \<Rightarrow> tracker \<Rightarrow> tracker \<times> reply list" where
  "handle_coalesced_batch env w b t =
     (let t1 = (if refresh_dirty b \<and> \<not> refresh_all b then refresh_git_dirty_cache env w None t else t);
          t2 = (if refresh_all b then
                  let (t', already) = refresh_actions env w (file_actions b) [] t1
                  in refresh_all_baselines_except env w already t'
                else handle_file_actions env w (file_actions b) t1)
      in handle_commands env w (other_commands b) t2)"

definition actor_start :: "diff_env \<Rightarrow> world \<Rightarrow> tracker \<Rightarrow> tracker" where
  "actor_start env w t = (if mode t = AllDirty then refresh_git_dirty_cache env w None t else t)"

text \<open>A command received, and the commands queued behind it, which only a coalescable command drains. What is not drained is left
  for the next round. \<open>handle_command\<close> never asks to shut down, so a round does not end the loop.\<close>

definition actor_round ::
  "diff_env \<Rightarrow> world \<Rightarrow> command \<Rightarrow> command list \<Rightarrow> tracker \<Rightarrow> (tracker \<times> reply list) \<times> command list" where
  "actor_round env w cmd queued t =
     (if is_coalescable cmd then (handle_coalesced_batch env w (drain_and_coalesce cmd queued) t, [])
      else (let (t', r) = handle_command env w cmd t in (t', [r]), queued))"

text \<open>The main loop. An event is what has happened when the \<open>select!\<close> is polled: the token is cancelled, or commands have been
  sent since the poll before; after the last event the channel is closed. Cancellation is looked at first. A poll that finds an
  empty queue waits for the next event. The result is the tracker, the replies, the commands left in the queue and the
  number of rounds; round \<open>n\<close> finds the world \<open>ws n\<close>.\<close>

datatype loop_event = Cancelled | Sent "command list"

function actor_run ::
  "diff_env \<Rightarrow> (nat \<Rightarrow> world) \<Rightarrow> nat \<Rightarrow> loop_event list \<Rightarrow> command list \<Rightarrow> tracker \<Rightarrow> tracker \<times> reply list \<times> command list \<times> nat" where
  "actor_run env ws n [] [] t = (t, [], [], n)"
| "actor_run env ws n [] (cmd # queued) t =
     (let round = actor_round env (ws n) cmd queued t;
          (t', rs, left, m) = actor_run env ws (Suc n) [] (snd round) (fst (fst round))
      in (t', snd (fst round) @ rs, left, m))"
| "actor_run env ws n (Cancelled # evs) queue t = (t, [], queue, n)"
| "actor_run env ws n (Sent cmds # evs) queue t =
     (case queue @ cmds of
        [] \<Rightarrow> actor_run env ws n evs [] t
      | cmd # queued \<Rightarrow>
          (let round = actor_round env (ws n) cmd queued t;
               (t', rs, left, m) = actor_run env ws (Suc n) evs (snd round) (fst (fst round))
           in (t', snd (fst round) @ rs, left, m)))"
  by pat_completeness auto
termination
  by (relation "measures [\<lambda>(env, ws, n, evs, queue, t). length evs, \<lambda>(env, ws, n, evs, queue, t). length queue]")
    (auto simp: actor_round_def)

end
