(* ===== verification/Hunk_Invariant.thy ===== *)
theory Hunk_Invariant
  imports Hunk_Tracker
begin

text \<open>
  The invariant of the hunk tracker: identifiers are never shared, and the hunks shown for a file are
  exactly those of a diff of its baseline and its current content. Every command except a change of the
  working directory and the restoring of a foreign snapshot keeps it.
\<close>

section \<open>Matching keeps contents and identifiers apart\<close>

lemma min_by_key_mem: "min_by_key f xs = Some x \<Longrightarrow> x \<in> set xs"
  by (induction xs arbitrary: x) (auto split: option.splits if_splits)

lemma max_by_key_mem: "max_by_key f xs = Some x \<Longrightarrow> x \<in> set xs"
  by (induction xs arbitrary: x) (auto split: option.splits if_splits)

lemma find_matching_mem: "find_matching_old_hunk h olds = Some o' \<Longrightarrow> o' \<in> set olds"
  by (auto simp: find_matching_old_hunk_def Let_def split: if_splits dest: min_by_key_mem max_by_key_mem)

definition shape :: "hunk \<Rightarrow> string \<times> hunk_line_info \<times> string option \<times> string" where
  "shape h = (hunk_path h, line_info h, old_text h, new_text h)"

lemma shape_inherit [simp]: "shape (inherit o' h) = shape h"
  by (simp add: shape_def inherit_def)

lemma hunk_id_inherit [simp]: "hunk_id (inherit o' h) = hunk_id o'"
  by (simp add: inherit_def)

lemma shape_preserve_ids: "map shape (preserve_ids olds claimed hs) = map shape hs"
  by (induction olds claimed hs rule: preserve_ids.induct) (auto split: option.splits)

lemma preserve_ids_distinct:
  assumes "distinct (map hunk_id hs)" and "set (map hunk_id hs) \<inter> set (map hunk_id olds) = {}"
  shows "distinct (map hunk_id (preserve_ids olds claimed hs)) \<and>
    set (map hunk_id (preserve_ids olds claimed hs)) \<subseteq>
      (set (map hunk_id olds) - set claimed) \<union> set (map hunk_id hs)"
  using assms
proof (induction olds claimed hs rule: preserve_ids.induct)
  case (2 olds claimed h hs)
  show ?case
  proof (cases "find_matching_old_hunk h olds")
    case None
    with 2 show ?thesis by auto
  next
    case (Some o')
    have "hunk_id o' \<in> set (map hunk_id olds)" using find_matching_mem [OF Some] by simp
    moreover from this have "hunk_id o' \<notin> set (map hunk_id hs)" using "2.prems"(2) by auto
    ultimately show ?thesis
      using 2 Some
      by (cases "hunk_id o' \<in> set claimed") (simp_all, blast+)
  qed
qed simp

section \<open>Freshly computed hunks\<close>

lemma hunk_loop_ids:
  "map hunk_id (hunk_loop env p src n cs ol nl cur) =
   map (new_id env) [n..<n + length (hunk_loop env p src n cs ol nl cur)]"
  by (induction env p src n cs ol nl cur rule: hunk_loop.induct) 
    (simp_all add: build_def upt_conv_Cons del: upt_Suc)

lemma hunk_loop_shape:
  "map shape (hunk_loop env p src n cs ol nl cur) = map shape (hunk_loop env p src' m cs ol nl cur)"
  by (induction env p src n cs ol nl cur arbitrary: m rule: hunk_loop.induct) (simp_all add: build_def shape_def)

lemma fresh_hunks_ids:
  "map hunk_id (fresh_hunks env n p base cur src) =
   map (new_id env) [n..<n + length (fresh_hunks env n p base cur src)]"
  by (auto simp: fresh_hunks_def compute_hunks_def file_deleted_def file_created_def hunk_loop_ids
      split: file_content_state.split option.split)

lemma shape_whole_file:
  "shape (file_created env n p c src) = shape (file_created env m p c src')"
  "shape (file_deleted env n p c src) = shape (file_deleted env m p c src')"
  by (simp_all add: shape_def file_created_def file_deleted_def)

lemma fresh_hunks_shape:
  "map shape (fresh_hunks env n p base cur src) = map shape (fresh_hunks env m p base cur src')"
  by (auto simp: fresh_hunks_def compute_hunks_def split: file_content_state.split option.split
      intro: hunk_loop_shape shape_whole_file)

section \<open>The invariant\<close>

definition hunk_ids_at :: "(string \<times> file_hunk_state) list \<Rightarrow> string \<Rightarrow> string list" where
  "hunk_ids_at fs p = (case map_of fs p of None \<Rightarrow> [] | Some st \<Rightarrow> map hunk_id (hunks st))"

definition ids_ok :: "diff_env \<Rightarrow> (string \<times> file_hunk_state) list \<Rightarrow> nat \<Rightarrow> bool" where
  "ids_ok env fs n =
     (distinct (map fst fs) \<and>
      (\<forall>p. distinct (hunk_ids_at fs p) \<and> set (hunk_ids_at fs p) \<subseteq> new_id env ` {..<n}) \<and>
      (\<forall>p q. p \<noteq> q \<longrightarrow> set (hunk_ids_at fs p) \<inter> set (hunk_ids_at fs q) = {}))"

definition file_ok :: "diff_env \<Rightarrow> string \<Rightarrow> file_hunk_state \<Rightarrow> bool" where
  "file_ok env p st =
     (hunks st = [] \<or>
      map shape (hunks st) = map shape (fresh_hunks env 0 p (baseline st) (current_content st) External))"

text \<open>The files of \<open>P\<close> are the ones a handler is working on.\<close>

definition tracked :: "diff_env \<Rightarrow> string set \<Rightarrow> tracker \<Rightarrow> bool" where
  "tracked env P t =
     (ids_ok env (file_states t) (next_hunk t) \<and>
      (\<forall>p st. state_of t p = Some st \<longrightarrow> p \<notin> P \<longrightarrow> file_ok env p st))"

lemma tracked_frame:
  "file_states t' = file_states t \<Longrightarrow> next_hunk t' = next_hunk t \<Longrightarrow> tracked env P t' = tracked env P t"
  by (simp add: tracked_def)

lemma tracked_mono: "tracked env P t \<Longrightarrow> P \<subseteq> Q \<Longrightarrow> tracked env Q t"
  by (auto simp: tracked_def)

lemma tracked_new: "tracked env P (tracker_new wd m)"
  by (simp add: tracked_def tracker_new_def ids_ok_def hunk_ids_at_def)

lemma hunk_ids_at_update:
  "hunk_ids_at (AList.update p st fs) q = (if q = p then map hunk_id (hunks st) else hunk_ids_at fs q)"
  by (simp add: hunk_ids_at_def update_conv')

lemma ids_ok_update:
  assumes "ids_ok env fs n" and "n \<le> m" and "distinct (map hunk_id (hunks st))"
    and "set (map hunk_id (hunks st)) \<subseteq> set (hunk_ids_at fs p) \<union> new_id env ` {n..<m}" and "inj (new_id env)"
  shows "ids_ok env (AList.update p st fs) m"
proof -
  have old: "set (hunk_ids_at fs q) \<subseteq> new_id env ` {..<n}" for q
    using assms(1) by (simp add: ids_ok_def)
  have fresh: "set (hunk_ids_at fs q) \<inter> new_id env ` {n..<m} = {}" for q
    using old [of q] by (fastforce dest: injD [OF assms(5)])
  have bound: "set (hunk_ids_at fs q) \<subseteq> new_id env ` {..<m}" for q
    using old [of q] assms(2) by fastforce
  moreover have "set (map hunk_id (hunks st)) \<subseteq> new_id env ` {..<m}"
    using assms(4) bound [of p] by auto
  moreover have "set (map hunk_id (hunks st)) \<inter> set (hunk_ids_at fs q) = {}" if "q \<noteq> p" for q
    using assms(1,4) fresh [of q] that unfolding ids_ok_def by blast
  ultimately show ?thesis
    using assms(1,3) unfolding ids_ok_def hunk_ids_at_update
    by (auto simp: distinct_update Int_commute)
qed

lemma tracked_put:
  assumes "tracked env P t" and "inj (new_id env)" and "distinct (map hunk_id (hunks st))"
    and "set (map hunk_id (hunks st)) \<subseteq> set (hunk_ids_at (file_states t) p)"
  shows "tracked env (insert p P) (put_state p st t)"
  using assms ids_ok_update [of env "file_states t" "next_hunk t" "next_hunk t" st p]
  by (auto simp: tracked_def put_state_def update_conv')

lemma tracked_put_empty:
  assumes "tracked env {p} t" and "inj (new_id env)" and "hunks st = []"
  shows "tracked env {} (put_state p st t)"
  using assms ids_ok_update [of env "file_states t" "next_hunk t" "next_hunk t" st p]
  by (auto simp: tracked_def put_state_def update_conv' file_ok_def)

lemma hunk_ids_at_delete:
  "hunk_ids_at (AList.delete p fs) q = (if q = p then [] else hunk_ids_at fs q)"
  by (simp add: hunk_ids_at_def delete_conv')

lemma tracked_drop: "tracked env {p} t \<Longrightarrow> tracked env {} (drop_state p t)"
  by (auto simp: tracked_def drop_state_def delete_conv' ids_ok_def hunk_ids_at_delete distinct_delete)

section \<open>Operations that leave the files alone\<close>

lemma frame_send_event [simp]:
  "file_states (send_event e t) = file_states t" "next_hunk (send_event e t) = next_hunk t"
  by (simp_all add: send_event_def)

lemma frame_turn_index [simp]:
  "file_states (remove_from_turn_index hid src t) = file_states t"
  "next_hunk (remove_from_turn_index hid src t) = next_hunk t"
  "file_states (add_to_turn_index hid src t) = file_states t"
  "next_hunk (add_to_turn_index hid src t) = next_hunk t"
  by (simp_all add: remove_from_turn_index_def add_to_turn_index_def split: option.split)

lemma fold_frame:
  assumes "\<And>x t. file_states (f x t) = file_states t" and "\<And>x t. next_hunk (f x t) = next_hunk t"
  shows "file_states (fold f xs t) = file_states t" and "next_hunk (fold f xs t) = next_hunk t"
  by (induction xs arbitrary: t) (simp_all add: assms)

lemma frame_count_action [simp]:
  "file_states (count_action a h t) = file_states t" "next_hunk (count_action a h t) = next_hunk t"
  by (simp_all add: count_action_def update_session_stats_def Let_def)

lemma frame_supersede [simp]:
  "file_states (supersede_hunk p h t) = file_states t" "next_hunk (supersede_hunk p h t) = next_hunk t"
  by (simp_all add: supersede_hunk_def)

lemma frame_folds [simp]:
  "file_states (fold (supersede_hunk p) hs t) = file_states t" "next_hunk (fold (supersede_hunk p) hs t) = next_hunk t"
  "file_states (fold (count_action a) hs t) = file_states t" "next_hunk (fold (count_action a) hs t) = next_hunk t"
  "file_states (send_removed p r hs t) = file_states t" "next_hunk (send_removed p r hs t) = next_hunk t"
  by (simp_all add: fold_frame send_removed_def)

lemma frame_git [simp]:
  "file_states (fst (read_baseline w p t)) = file_states t" "next_hunk (fst (read_baseline w p t)) = next_hunk t"
  "file_states (fst (read_baselines_batch w ps t)) = file_states t"
  "next_hunk (fst (read_baselines_batch w ps t)) = next_hunk t"
  "file_states (fst (read_repo_sync_state w t)) = file_states t"
  "next_hunk (fst (read_repo_sync_state w t)) = next_hunk t"
  "file_states (fst (baseline_for w p b t)) = file_states t" "next_hunk (fst (baseline_for w p b t)) = next_hunk t"
  by (simp_all add: read_baseline_def read_baselines_batch_def read_repo_sync_state_def baseline_for_def Let_def
      split: option.split)

lemma frame_write_file:
  "write_file w p c t = Inr t' \<Longrightarrow> file_states t' = file_states t \<and> next_hunk t' = next_hunk t"
  "remove_file w p t = Inr t' \<Longrightarrow> file_states t' = file_states t \<and> next_hunk t' = next_hunk t"
  by (auto simp: write_file_def remove_file_def split: if_splits)

lemma frame_put [simp]: "next_hunk (put_state p st t) = next_hunk t" "next_hunk (drop_state p t) = next_hunk t"
  by (simp_all add: put_state_def drop_state_def)

lemma state_of_put [simp]: "state_of (put_state p st t) q = (if q = p then Some st else state_of t q)"
  by (simp add: put_state_def update_conv')

lemmas tracked_frames =
  tracked_frame [OF frame_send_event] tracked_frame [OF frame_turn_index(1,2)]
  tracked_frame [OF frame_count_action] tracked_frame [OF frame_supersede]
  tracked_frame [OF frame_folds(1,2)] tracked_frame [OF frame_folds(3,4)] tracked_frame [OF frame_folds(5,6)]
  tracked_frame [OF frame_git(1,2)] tracked_frame [OF frame_git(3,4)] tracked_frame [OF frame_git(5,6)]
  tracked_frame [OF frame_git(7,8)]

section \<open>Recomputing\<close>

lemma recompute_untracked: "state_of t p = None \<Longrightarrow> recompute_hunks env p cur src t = t"
  by (simp add: recompute_hunks_def)

lemma recompute_states:
  fixes env :: diff_env and cur :: "file_content_state option" and src :: hunk_source
  assumes "state_of t p = Some st"
  defines "current \<equiv> (case cur of None \<Rightarrow> Missing | Some c \<Rightarrow> c)"
  defines "fresh \<equiv> fresh_hunks env (next_hunk t) p (baseline st) current src"
  shows "file_states (recompute_hunks env p cur src t) =
      AList.update p (st\<lparr>current_content := current, hunks := preserve_ids (hunks st) [] fresh\<rparr>) (file_states t)"
    and "next_hunk (recompute_hunks env p cur src t) = next_hunk t + length fresh"
  using assms(1)
  by (simp_all add: recompute_hunks_def emit_hunk_diff_events_def Let_def fold_frame put_state_def current_def fresh_def)

lemma tracked_recompute:
  assumes "tracked env {p} t" and "inj (new_id env)"
  shows "tracked env {} (recompute_hunks env p cur src t)"
proof (cases "state_of t p")
  case None
  with assms(1) show ?thesis
    unfolding tracked_def recompute_untracked [OF None] by (metis option.distinct(1) singletonD)
next
  case (Some st)
  let ?cur = "case cur of None \<Rightarrow> Missing | Some c \<Rightarrow> c"
  let ?fresh = "fresh_hunks env (next_hunk t) p (baseline st) ?cur src"
  let ?new = "preserve_ids (hunks st) [] ?fresh"
  let ?st = "st\<lparr>current_content := ?cur, hunks := ?new\<rparr>"
  let ?n = "next_hunk t" and ?m = "next_hunk t + length ?fresh"
  have ids: "set (map hunk_id ?fresh) = new_id env ` {?n..<?m}" "distinct (map hunk_id ?fresh)"
    unfolding fresh_hunks_ids using assms(2) by (auto simp: distinct_map inj_on_def inj_def)
  have at: "hunk_ids_at (file_states t) p = map hunk_id (hunks st)"
    by (simp add: hunk_ids_at_def Some)
  have "set (map hunk_id (hunks st)) \<subseteq> new_id env ` {..<?n}"
    using assms(1) at unfolding tracked_def ids_ok_def by metis
  then have "set (map hunk_id ?fresh) \<inter> set (map hunk_id (hunks st)) = {}"
    unfolding ids by (fastforce dest: injD [OF assms(2)])
  from preserve_ids_distinct [OF ids(2) this, of "[]"]
  have "ids_ok env (AList.update p ?st (file_states t)) ?m"
    using assms ids at by (intro ids_ok_update [of _ _ ?n]) (auto simp: tracked_def)
  moreover have "file_ok env p ?st"
    by (simp add: file_ok_def shape_preserve_ids fresh_hunks_shape [of env 0 p _ _ External ?n src])
  ultimately show ?thesis
    using assms(1) Some by (auto simp: tracked_def recompute_states update_conv')
qed

lemma recompute_other: "q \<noteq> p \<Longrightarrow> state_of (recompute_hunks env p cur src t) q = state_of t q"
  by (cases "state_of t p") (simp_all add: recompute_untracked recompute_states update_conv')

section \<open>Actions\<close>

text \<open>Accepting or rejecting one hunk is the batch of one.\<close>

lemma accept_hunk_batch: "accept_hunk env p h t = accept_hunks_batch env p [h] t"
  by (simp add: accept_hunk_def accept_hunks_batch_def by_start_descending_def patch_baseline_def send_removed_def Let_def
      split: option.split)

lemma reject_hunk_batch: "reject_hunk env w p h t = reject_hunks_batch env w p [h] t"
  by (auto simp: reject_hunk_def reject_hunks_batch_def by_start_descending_def send_removed_def reject_action_for_def Let_def
      split: option.split sum.split reject_action.split file_content_state.splits)

lemma whole_file_single:
  assumes "file_ok env p st" and "baseline st = Missing \<or> current_content st = Missing"
    and "hs \<noteq> []" and "set hs \<subseteq> set (hunks st)"
  shows "without_ids (map hunk_id hs) (hunks st) = []"
proof -
  let ?fresh = "fresh_hunks env 0 p (baseline st) (current_content st) External"
  have "length ?fresh \<le> 1"
    using assms(2) by (auto simp: fresh_hunks_def split: file_content_state.split)
  moreover have "hunks st = [] \<or> length (hunks st) = length ?fresh"
    using assms(1) by (auto simp: file_ok_def dest: map_eq_imp_length_eq)
  ultimately have "length (hunks st) \<le> 1" by auto
  with assms(3,4) show ?thesis
    by (cases "hunks st"; cases hs) (auto simp: without_ids_def)
qed

lemma distinct_without_ids:
  "distinct (map hunk_id hs) \<Longrightarrow> distinct (map hunk_id (without_ids ids hs))"
  "set (map hunk_id (without_ids ids hs)) \<subseteq> set (map hunk_id hs)"
  by (auto simp: without_ids_def distinct_map_filter)

lemma tracked_put_left:
  assumes "tracked env {} t" and "inj (new_id env)" and "state_of t p = Some st"
    and "hunks st' = without_ids ids (hunks st)"
  shows "tracked env {p} (put_state p st' t)"
proof (rule tracked_put [OF assms(1,2)])
  have at: "hunk_ids_at (file_states t) p = map hunk_id (hunks st)"
    by (simp add: hunk_ids_at_def assms(3))
  then have "distinct (map hunk_id (hunks st))"
    using assms(1) unfolding tracked_def ids_ok_def by metis
  then show "distinct (map hunk_id (hunks st'))"
    unfolding assms(4) by (rule distinct_without_ids)
  show "set (map hunk_id (hunks st')) \<subseteq> set (hunk_ids_at (file_states t) p)"
    unfolding assms(4) at by (rule distinct_without_ids)
qed

lemma tracked_whole_file:
  assumes "tracked env {} t" and "inj (new_id env)" and "state_of t p = Some st"
    and "baseline st = Missing \<or> current_content st = Missing" and "hs \<noteq> []" and "set hs \<subseteq> set (hunks st)"
    and "hunks st' = without_ids (map hunk_id hs) (hunks st)"
  shows "tracked env {} (put_state p st' t)"
proof (rule tracked_put_empty [OF _ assms(2)])
  show "tracked env {p} t" using assms(1) by (rule tracked_mono) simp
  have "file_ok env p st" using assms(1,3) by (simp add: tracked_def)
  then show "hunks st' = []" using whole_file_single assms(4-7) by simp
qed

lemma tracked_accept_batch:
  assumes "tracked env {} t" and "inj (new_id env)" and "\<And>st. state_of t p = Some st \<Longrightarrow> set hs \<subseteq> set (hunks st)"
  shows "tracked env {} (accept_hunks_batch env p hs t)"
proof (cases "state_of t p")
  case (Some st)
  note left = tracked_put_left [OF assms(1,2) Some] and whole = tracked_whole_file [OF assms(1,2) Some]
  show ?thesis
    using assms(3) [OF Some] left whole assms(1) Some
    by (auto simp: accept_hunks_batch_def Let_def tracked_frames intro!: tracked_recompute assms(2))
qed (use assms(1) in \<open>simp add: accept_hunks_batch_def\<close>)

lemma tracked_reject_batch:
  assumes "tracked env {} t" and "inj (new_id env)" and "\<And>st. state_of t p = Some st \<Longrightarrow> set hs \<subseteq> set (hunks st)"
  shows "tracked env {} (fst (reject_hunks_batch env w p hs t))"
proof (cases "state_of t p")
  case (Some st)
  have written: "tracked env {} t' \<and> state_of t' p = Some st"
    if "write_file w p c t = Inr t' \<or> remove_file w p t = Inr t'" for c t'
    using that frame_write_file assms(1) Some tracked_frame by metis
  let ?left = "without_ids (map hunk_id hs) (hunks st)"
  have left: "tracked env {p} (put_state p (st\<lparr>current_content := c', hunks := ?left\<rparr>) t')"
    if "write_file w p c t = Inr t'" for c c' t'
    using written [OF disjI1, OF that]
    by (intro tracked_put_left [OF _ assms(2), where st = st and ids = "map hunk_id hs"]) simp_all
  have whole: "tracked env {} (put_state p (st\<lparr>current_content := c', hunks := ?left\<rparr>) t')"
    if "write_file w p c t = Inr t' \<or> remove_file w p t = Inr t'" "hs \<noteq> []"
      "baseline st = Missing \<or> current_content st = Missing" for c c' t'
    using written [OF that(1)] that(2,3) assms(3) [OF Some]
    by (intro tracked_whole_file [OF _ assms(2), where st = st and hs = hs]) simp_all
  show ?thesis
  proof (cases "reject_action_for st (fold revert (by_start_descending new_start hs))")
    case (RestoreDeleted b)
    then have "current_content st = Missing" by (auto simp: reject_action_for_def split: file_content_state.splits)
    with RestoreDeleted show ?thesis
      using Some assms(1) whole by (auto simp: reject_hunks_batch_def Let_def tracked_frames split: sum.split)
  next
    case DeleteCreated
    then have "baseline st = Missing" by (auto simp: reject_action_for_def split: file_content_state.splits)
    with DeleteCreated show ?thesis
      using Some assms(1) whole by (auto simp: reject_hunks_batch_def Let_def tracked_frames split: sum.split)
  next
    case (RevertChange c)
    then show ?thesis
      using Some assms(1) left
      by (auto simp: reject_hunks_batch_def Let_def tracked_frames split: sum.split intro!: tracked_recompute assms(2))
  next
    case NoOp
    then show ?thesis using Some assms(1) by (simp add: reject_hunks_batch_def Let_def)
  qed
qed (use assms(1) in \<open>simp add: reject_hunks_batch_def\<close>)

lemma accept_batch_other: "q \<noteq> p \<Longrightarrow> state_of (accept_hunks_batch env p hs t) q = state_of t q"
  by (auto simp: accept_hunks_batch_def Let_def recompute_other split: option.split)

lemma reject_batch_other: "q \<noteq> p \<Longrightarrow> state_of (fst (reject_hunks_batch env w p hs t)) q = state_of t q"
  by (auto simp: reject_hunks_batch_def Let_def recompute_other dest!: frame_write_file
      split: option.split sum.split reject_action.split)

lemma tracked_action_batch:
  assumes "inj (new_id env)" and "tracked env {} t" and "distinct (map fst files)"
    and "\<And>p hs st. (p, hs) \<in> set files \<Longrightarrow> state_of t p = Some st \<Longrightarrow> set hs \<subseteq> set (hunks st)"
  shows "tracked env {} (fst (action_batch env w a files ids t))"
  using assms
proof (induction env w a files ids t rule: action_batch.induct)
  case (2 env w a p hs rest ids t)
  let ?t = "fold (count_action a) hs t"
  have start: "tracked env {} ?t" "\<And>st. state_of ?t p = Some st \<Longrightarrow> set hs \<subseteq> set (hunks st)"
    using "2.prems"(2) "2.prems"(4) [of p hs] by (simp_all add: tracked_frames)
  have rest: "\<And>q ks st. (q, ks) \<in> set rest \<Longrightarrow> state_of t q = Some st \<Longrightarrow> set ks \<subseteq> set (hunks st)"
    and other: "\<And>q ks. (q, ks) \<in> set rest \<Longrightarrow> q \<noteq> p" and "distinct (map fst rest)"
    using "2.prems"(3,4) by (force simp: image_iff)+
  show ?case
  proof (cases a)
    case Accept
    with 2 rest other show ?thesis
      using tracked_accept_batch [OF start(1) "2.prems"(1) start(2), where p = p]
      by (simp add: Let_def accept_batch_other)
  next
    case Reject
    show ?thesis
    proof (cases "reject_hunks_batch env w p hs ?t")
      case (Pair t2 r)
      have t2: "tracked env {} t2" "\<And>q. q \<noteq> p \<Longrightarrow> state_of t2 q = state_of t q"
        using tracked_reject_batch [OF start(1) "2.prems"(1) start(2), where w = w and p = p]
          reject_batch_other [of _ p env w hs ?t] Pair by simp_all
      with 2 Reject Pair rest other show ?thesis
        by (cases r) (simp_all add: Let_def)
    qed
  qed
qed simp

lemma tracked_files_with_hunks:
  assumes "tracked env {} t" and "inj (new_id env)"
  shows "tracked env {} (fst (apply_action_batch env w (files_with_hunks P t) a t))"
  unfolding apply_action_batch_def
proof (rule tracked_action_batch [OF assms(2,1)])
  have keys: "distinct (map fst (file_states t))" using assms(1) by (simp add: tracked_def ids_ok_def)
  have "map fst (map (\<lambda>(p, st). (p, filter P (hunks st))) (file_states t)) = map fst (file_states t)"
    by (simp add: case_prod_unfold)
  then show "distinct (map fst (files_with_hunks P t))"
    unfolding files_with_hunks_def using keys distinct_map_filter by metis
  show "set hs \<subseteq> set (hunks st)" if mem: "(p, hs) \<in> set (files_with_hunks P t)" and st: "state_of t p = Some st" for p hs st
  proof -
    obtain st' where "(p, st') \<in> set (file_states t)" and hs: "hs = filter P (hunks st')"
      using mem by (auto simp: files_with_hunks_def)
    then have "st' = st" using map_of_is_SomeI [OF keys] st by fastforce
    with hs show ?thesis by auto
  qed
qed

lemma findSomeD: "find P xs = Some x \<Longrightarrow> P x \<and> x \<in> set xs"
  by (auto simp: find_Some_iff)

lemma find_hunk_in_mem:
  "find_hunk_in hid fs = Some (p, h) \<Longrightarrow> \<exists>st. (p, st) \<in> set fs \<and> h \<in> set (hunks st)"
  by (induction hid fs rule: find_hunk_in.induct) (auto split: option.splits dest: findSomeD)

lemma tracked_hunk_action:
  assumes "tracked env {} t" and "inj (new_id env)"
  shows "tracked env {} (fst (apply_hunk_action env w hid a t))"
proof (cases "find_hunk_in hid (file_states t)")
  case None
  with assms(1) show ?thesis by (simp add: apply_hunk_action_def)
next
  case (Some ph)
  obtain p h where ph: "ph = (p, h)" by (cases ph)
  have keys: "distinct (map fst (file_states t))" using assms(1) by (simp add: tracked_def ids_ok_def)
  obtain st where "(p, st) \<in> set (file_states t)" and "h \<in> set (hunks st)"
    using find_hunk_in_mem Some ph by blast
  with keys have "\<And>st. state_of (count_action a h t) p = Some st \<Longrightarrow> set [h] \<subseteq> set (hunks st)"
    by simp
  then show ?thesis
    using assms Some ph tracked_accept_batch [of env "count_action a h t" p "[h]"]
      tracked_reject_batch [of env "count_action a h t" p "[h]" w]
    by (auto simp: apply_hunk_action_def Let_def accept_hunk_batch reject_hunk_batch tracked_frames
        split: hunk_action.split)
qed

lemma tracked_file_action:
  assumes "tracked env {} t" and "inj (new_id env)"
  shows "tracked env {} (fst (apply_file_action env w p a t))"
proof (cases "state_of t p")
  case (Some st)
  have "tracked env {} (fst (action_batch env w a [(p, hunks st)] [] t))"
    by (rule tracked_action_batch [OF assms(2,1)]) (auto simp: Some)
  with assms(1) Some show ?thesis
    by (simp add: apply_file_action_def apply_action_batch_def del: action_batch.simps)
qed (use assms(1) in \<open>simp add: apply_file_action_def\<close>)

lemma tracked_all_actions:
  assumes "tracked env {} t" and "inj (new_id env)"
  shows "tracked env {} (fst (apply_all_action env w a t))" "tracked env {} (fst (apply_turn_action env w i a t))"
  using tracked_files_with_hunks [OF assms] assms(1)
  by (simp_all add: apply_all_action_def apply_turn_action_def Let_def)

section \<open>File changes\<close>

lemma tracked_recompute_any:
  "tracked env {} t \<Longrightarrow> inj (new_id env) \<Longrightarrow> tracked env {} (recompute_hunks env p cur src t)"
  by (rule tracked_recompute) (auto intro: tracked_mono)

lemma tracked_put_clear:
  "tracked env {} t \<Longrightarrow> inj (new_id env) \<Longrightarrow> hunks st = [] \<Longrightarrow> tracked env {} (put_state p st t)"
  by (rule tracked_put_empty) (auto intro: tracked_mono)

lemma tracked_put_same:
  assumes "tracked env {} t" and "inj (new_id env)" and "state_of t p = Some st" and "hunks st' = hunks st"
  shows "tracked env {p} (put_state p st' t)"
  by (rule tracked_put_left [OF assms(1-3), of _ "[]"]) (simp add: assms(4) without_ids_def)

lemma tracked_start:
  "tracked env {} t \<Longrightarrow> inj (new_id env) \<Longrightarrow> tracked env {} (start_tracking p base cur agent t)"
  by (simp add: start_tracking_def tracked_frames tracked_put_clear tracked_file_def)

lemma tracked_agent_write:
  assumes "tracked env {} t" and "inj (new_id env)"
  shows "tracked env {} (record_agent_write env w p content i prev t)"
proof (cases "state_of t p")
  case None
  have "tracked env {} (fst (read_baseline w p t))" using assms(1) by (simp add: tracked_frames)
  with None assms show ?thesis
    by (auto simp: record_agent_write_def Let_def case_prod_unfold split: option.split
        intro!: tracked_recompute_any tracked_start)
next
  case (Some st)
  with assms show ?thesis
    by (auto simp: record_agent_write_def Let_def intro!: tracked_recompute tracked_put_clear tracked_put_same [OF _ _ Some])
qed

lemma tracked_process_change:
  assumes "tracked env {} t" and "inj (new_id env)"
  shows "tracked env {} (process_file_change env w p preloaded t)"
proof -
  have "tracked env {} (fst (baseline_for w p preloaded t))" using assms(1) by (simp add: tracked_frames)
  with assms show ?thesis
    by (auto simp: process_file_change_def Let_def case_prod_unfold split: option.split
        intro!: tracked_recompute_any tracked_start tracked_put_clear)
qed

lemma tracked_file_deleted:
  assumes "tracked env {} t" and "inj (new_id env)"
  shows "tracked env {} (handle_file_deleted env w p t)"
proof -
  have "tracked env {} (fst (read_baseline w p t))" using assms(1) by (simp add: tracked_frames)
  with assms show ?thesis
    by (auto simp: handle_file_deleted_def handle_file_change_def Let_def case_prod_unfold split: option.split
        intro!: tracked_recompute_any tracked_start tracked_process_change)
qed

lemma tracked_fold:
  assumes "\<And>x t. tracked env {} t \<Longrightarrow> tracked env {} (f x t)" and "tracked env {} t"
  shows "tracked env {} (fold f xs t)"
  using assms(2) by (induction xs arbitrary: t) (simp_all add: assms(1))

lemma tracked_process_changes:
  "tracked env {} t \<Longrightarrow> inj (new_id env) \<Longrightarrow> tracked env {} (process_changes env w ps baselines t)"
  by (induction env w ps baselines t rule: process_changes.induct) (simp_all add: tracked_process_change)

lemma tracked_changes_batch:
  assumes "tracked env {} t" and "inj (new_id env)"
  shows "tracked env {} (handle_file_changes_batch env w ps t)"
proof -
  have "tracked env {} (fst (read_baselines_batch w qs t))" for qs using assms(1) by (simp add: tracked_frames)
  with assms show ?thesis
    by (auto simp: handle_file_changes_batch_def Let_def case_prod_unfold intro!: tracked_process_changes)
qed

lemma tracked_reset: 
  "tracked env {} t \<Longrightarrow> inj (new_id env) \<Longrightarrow> tracked env {} (reset_baseline p t)"
  by (simp add: reset_baseline_def tracked_frames tracked_put_clear split: option.split)

lemma tracked_drop_any: "tracked env {} t \<Longrightarrow> tracked env {} (drop_state p t)"
  by (rule tracked_drop) (auto intro: tracked_mono)

lemma tracked_dirty_cache:
  assumes "tracked env {} t" and "inj (new_id env)"
  shows "tracked env {} (refresh_git_dirty_cache env w scope t)"
proof -
  have "tracked env {} (t\<lparr>git_repo_state := r, git_dirty_cache := d, git_staged_cache := s\<rparr>)" for r d s
    using assms(1) by (simp add: tracked_def)
  with assms show ?thesis
    by (auto simp: refresh_git_dirty_cache_def handle_file_change_def Let_def case_prod_unfold
        intro!: tracked_fold tracked_process_change)
qed

lemma tracked_refresh_file:
  assumes "tracked env {} t" and "inj (new_id env)"
  shows "tracked env {} (refresh_file env w baselines p t)"
proof (cases "state_of t p")
  case (Some st)
  note same = tracked_put_same [OF assms Some]
  with assms Some show ?thesis
    by (simp add: refresh_file_def Let_def tracked_frames tracked_drop_any tracked_put_clear tracked_recompute)
qed (use assms(1) in \<open>simp add: refresh_file_def\<close>)

lemma tracked_refresh_files:
  assumes "tracked env {} t" and "inj (new_id env)"
  shows "tracked env {} (refresh_files env w skip t)"
proof -
  have cleared: "tracked env {} (t\<lparr>git_dirty_cache := [], git_staged_cache := []\<rparr>)"
    using assms(1) by (simp add: tracked_def)
  define t1 where "t1 = (case refresh_scope t of
      Some [] \<Rightarrow> t\<lparr>git_dirty_cache := [], git_staged_cache := []\<rparr>
    | scope \<Rightarrow> refresh_git_dirty_cache env w scope t)"
  have "tracked env {} t1"
    unfolding t1_def using cleared tracked_dirty_cache [OF assms] by (auto split: option.split list.split)
  then show ?thesis
    unfolding refresh_files_def t1_def [symmetric]
    by (auto simp: Let_def case_prod_unfold tracked_frames intro!: tracked_fold tracked_refresh_file assms(2))
qed

lemma tracked_refresh_all:
  assumes "tracked env {} t" and "inj (new_id env)"
  shows "tracked env {} (refresh_all_baselines_except env w skip t)"
proof -
  obtain t1 s where read: "read_repo_sync_state w t = (t1, s)" by (cases "read_repo_sync_state w t")
  then have "tracked env {} t1" using assms(1) tracked_frame [OF frame_git(5,6), of env "{}" w t] by simp
  moreover from this have "tracked env {} (t1\<lparr>repo_sync_state := r\<rparr>)" for r by (simp add: tracked_def)
  ultimately show ?thesis
    using assms(1) by (auto simp: refresh_all_baselines_except_def read split: option.split
        intro!: tracked_refresh_files assms(2))
qed

lemma tracked_set_mode:
  assumes "tracked env {} t" and "inj (new_id env)"
  shows "tracked env {} (set_mode env w m t)"
proof -
  have "tracked env {} (t\<lparr>mode := m\<rparr>)" using assms(1) by (simp add: tracked_def)
  moreover have "tracked env {} (untrack p u)" if "tracked env {} u" for p u
    using that by (simp add: untrack_def tracked_frames tracked_drop_any split: option.split)
  ultimately show ?thesis
    using assms(2) by (auto simp: set_mode_def Let_def intro!: tracked_dirty_cache tracked_fold)
qed

section \<open>Commands\<close>

text \<open>Two commands take their state from outside and are left out: a changed working directory can merge the
  states of two files into one, and a snapshot can hold anything.\<close>

definition self_contained :: "command \<Rightarrow> bool" where
  "self_contained cmd = (case cmd of SetWorkingDir _ \<Rightarrow> False | RestoreState _ \<Rightarrow> False | _ \<Rightarrow> True)"

lemma tracked_command:
  assumes "tracked env {} t" and "inj (new_id env)" and "self_contained cmd"
  shows "tracked env {} (fst (handle_command env w cmd t))"
proof -
  have "tracked env {} (t\<lparr>session_stats := s\<rparr>)" for s using assms(1) by (simp add: tracked_def)
  then show ?thesis
    using assms tracked_agent_write tracked_process_change tracked_file_deleted tracked_dirty_cache tracked_reset
      tracked_set_mode tracked_hunk_action tracked_file_action tracked_all_actions tracked_refresh_all
    by (cases cmd)
      (simp_all add: handle_command_def handle_file_change_def refresh_all_baselines_def self_contained_def
        case_prod_unfold Let_def)
qed

lemma tracked_commands:
  "tracked env {} t \<Longrightarrow> inj (new_id env) \<Longrightarrow> list_all self_contained cmds \<Longrightarrow>
   tracked env {} (fst (handle_commands env w cmds t))"
proof (induction env w cmds t rule: handle_commands.induct)
  case (2 env w cmd cmds t)
  obtain t1 r where "handle_command env w cmd t = (t1, r)" by (cases "handle_command env w cmd t")
  with 2 tracked_command [of env t cmd w] show ?case by (simp add: case_prod_unfold Let_def)
qed simp

lemma tracked_refresh_actions:
  "tracked env {} t \<Longrightarrow> inj (new_id env) \<Longrightarrow> tracked env {} (fst (refresh_actions env w actions already t))"
  by (induction env w actions already t rule: refresh_actions.induct)
    (simp_all add: tracked_file_deleted handle_file_change_def tracked_process_change)

lemma tracked_file_actions:
  assumes "tracked env {} t" and "inj (new_id env)"
  shows "tracked env {} (handle_file_actions env w actions t)"
  unfolding handle_file_actions_def
  by (intro tracked_changes_batch tracked_fold tracked_file_deleted assms)

lemma other_commands_drained:
  "other_commands (fold batch_add cmds b) = other_commands b @ filter (\<lambda>cmd. \<not> is_coalescable cmd) cmds"
  by (induction cmds arbitrary: b)
    (auto simp: batch_add_def is_coalescable_def Let_def split: command.splits)

lemma tracked_batch:
  assumes "tracked env {} t" and "inj (new_id env)" and "list_all self_contained (other_commands b)"
  shows "tracked env {} (fst (handle_coalesced_batch env w b t))"
proof -
  define t1 where
    "t1 = (if refresh_dirty b \<and> \<not> refresh_all b then refresh_git_dirty_cache env w None t else t)"
  have t1: "tracked env {} t1" unfolding t1_def using assms tracked_dirty_cache by auto
  define t2 where
    "t2 = (if refresh_all b then
        let (t', already) = refresh_actions env w (file_actions b) [] t1
        in refresh_all_baselines_except env w already t'
      else handle_file_actions env w (file_actions b) t1)"
  have "tracked env {} t2"
    unfolding t2_def using tracked_refresh_actions [OF t1 assms(2)] t1 assms(2)
    by (auto simp: case_prod_unfold Let_def intro: tracked_refresh_all tracked_file_actions)
  moreover have "handle_coalesced_batch env w b t = handle_commands env w (other_commands b) t2"
    by (simp add: handle_coalesced_batch_def t1_def t2_def Let_def)
  ultimately show ?thesis
    using tracked_commands assms(2,3) by simp
qed

lemma tracked_round:
  assumes "tracked env {} t" and "inj (new_id env)" and "list_all self_contained (cmd # queued)"
  shows "tracked env {} (fst (fst (actor_round env w cmd queued t)))"
proof (cases "is_coalescable cmd")
  case True
  have "list_all self_contained (other_commands (drain_and_coalesce cmd queued))"
    unfolding drain_and_coalesce_def other_commands_drained using assms(3) by (auto simp: batch_new_def list_all_iff)
  from tracked_batch [OF assms(1,2) this] True show ?thesis by (simp add: actor_round_def)
next
  case False
  with tracked_command [OF assms(1,2)] assms(3) show ?thesis
    by (simp add: actor_round_def case_prod_unfold Let_def)
qed

end
