(* ===== verification/Hunk_Guarantees.thy ===== *)
theory Hunk_Guarantees
  imports Hunk_Invariant
begin

text \<open>
  What the hunk tracker guarantees to the user who accepts and rejects hunks, on top of its invariant.
\<close>

section \<open>Hunks of a tracked file\<close>

lemma revert_shape: "shape g = shape h \<Longrightarrow> revert g = revert h"
  by (rule ext) (simp add: shape_def revert_def)

lemma install_shape: "shape g = shape h \<Longrightarrow> install g = install h"
  by (rule ext) (simp add: shape_def install_def)

lemma map_shape_cong:
  assumes "map shape gs = map shape hs" and "\<And>g h. shape g = shape h \<Longrightarrow> f g = f h"
  shows "map f gs = map f hs"
  using assms(1)
proof (induction gs arbitrary: hs)
  case (Cons g gs)
  from Cons.prems obtain h hs' where "hs = h # hs'" and "shape g = shape h" and "map shape gs = map shape hs'"
    by (cases hs) auto
  with Cons.IH [of hs'] assms(2) [of g h] show ?case by simp
qed simp

lemma tracked_hunks:
  assumes "tracked env {} t" and "state_of t p = Some st" and "hunks st \<noteq> []"
    and "baseline st = Full b" and "current_content st = Full c" and "diff_lines env b c = Some cs"
  shows "map shape (hunks st) = map shape (hunk_loop env p External 0 cs 1 1 None)"
proof -
  have "file_ok env p st" using assms(1,2) by (simp add: tracked_def)
  then show ?thesis
    using assms(3-) by (auto simp: file_ok_def fresh_hunks_def compute_hunks_def split: if_splits)
qed

lemma descending_hunks:
  assumes "map shape hs = map shape (hunk_loop env p src n cs 1 1 None)"
  shows "by_start_descending old_start hs = rev hs" and "by_start_descending new_start hs = rev hs"
proof -
  let ?before = "\<lambda>x y. old_start (fst (snd x)) < old_start (fst (snd y)) \<and>
    new_start (fst (snd x)) < new_start (fst (snd y))"
  have "sorted_wrt ?before (map shape (hunk_loop env p src n cs 1 1 None))"
    using hunks_in_order(1) by (simp add: sorted_wrt_map shape_def before_def [abs_def])
  then have "sorted_wrt (\<lambda>g h. ?before (shape g) (shape h)) hs"
    unfolding assms [symmetric] sorted_wrt_map .
  then have "sorted_wrt (\<lambda>g h. old_start (line_info g) < old_start (line_info h)) hs"
    and "sorted_wrt (\<lambda>g h. new_start (line_info g) < new_start (line_info h)) hs"
    by (auto simp: shape_def elim!: sorted_wrt_mono_rel [rotated])
  then show "by_start_descending old_start hs = rev hs" and "by_start_descending new_start hs = rev hs"
    unfolding by_start_descending_def by (simp_all add: sort_key_descending)
qed

lemma revert_hunks:
  assumes "map shape hs = map shape (hunk_loop env p src n cs 1 1 None)"
    and "is_script cs b c" and "text_file b" and "text_file c"
    and "c \<noteq> []" and "b \<noteq> [newline]" and "common_lines cs \<noteq> [[newline]]"
  shows "fold revert (by_start_descending new_start hs) c = b"
proof -
  have "map revert hs = map revert (hunk_loop env p src n cs 1 1 None)"
    by (rule map_shape_cong [OF assms(1) revert_shape])
  then show ?thesis
    unfolding descending_hunks [OF assms(1)] foldr_conv_fold [symmetric]
    using revert_all [OF assms(2-)] foldr_map [of revert] by metis
qed

lemma install_hunks:
  assumes "map shape hs = map shape (hunk_loop env p src n cs 1 1 None)"
    and "is_script cs b c" and "text_file b" and "text_file c"
    and "b \<noteq> []" and "c \<noteq> [newline]" and "common_lines cs \<noteq> [[newline]]"
  shows "fold patch_baseline (by_start_descending old_start hs) (Full b) = Full c"
proof -
  have "map install hs = map install (hunk_loop env p src n cs 1 1 None)"
    by (rule map_shape_cong [OF assms(1) install_shape])
  then have "foldr install hs b = c"
    using install_all [OF assms(2-)] foldr_map [of install] by metis
  moreover have "foldr patch_baseline gs (Full s) = Full (foldr install gs s)" for gs s
    by (induction gs) (simp_all add: patch_baseline_def)
  ultimately show ?thesis
    unfolding descending_hunks [OF assms(1)] foldr_conv_fold [symmetric] by simp
qed

lemma without_all_ids: "without_ids (map hunk_id hs) hs = []"
  by (simp add: without_ids_def filter_empty_conv)

lemma recompute_same:
  assumes "state_of t p = Some st" and "baseline st = Full b"
  shows "state_of (recompute_hunks env p (Some (Full b)) src t) p = Some (st\<lparr>current_content := Full b, hunks := []\<rparr>)"
  using assms by (simp add: recompute_states update_conv' fresh_hunks_def compute_hunks_def)

lemma disk_simps [simp]:
  "disk (send_event e t) = disk t" "disk (put_state p st t) = disk t" "disk (send_removed p r hs t) = disk t"
  "disk (count_action a h t) = disk t" "disk (fold (count_action a) hs t) = disk t"
  "disk (recompute_hunks env p cur src t) = disk t"
proof -
  have fold_disk: "disk (fold f xs t) = disk t" if "\<And>x t. disk (f x t) = disk t"
    for f :: "'x \<Rightarrow> tracker \<Rightarrow> tracker" and xs t
    by (induction xs arbitrary: t) (simp_all add: that)
  have turn: "disk (remove_from_turn_index i src t) = disk t" "disk (add_to_turn_index i src t) = disk t" for i src t
    by (simp_all add: remove_from_turn_index_def add_to_turn_index_def split: option.split)
  show event: "disk (send_event e t) = disk t" for e t by (simp add: send_event_def)
  show put: "disk (put_state p st t) = disk t" for p st t by (simp add: put_state_def)
  show "disk (send_removed p r hs t) = disk t" by (simp add: send_removed_def fold_disk event)
  show count: "disk (count_action a h t) = disk t" for h t
    by (simp add: count_action_def turn update_session_stats_def Let_def)
  show "disk (fold (count_action a) hs t) = disk t" by (simp add: fold_disk count)
  show "disk (recompute_hunks env p cur src t) = disk t"
    by (simp add: recompute_hunks_def emit_hunk_diff_events_def Let_def fold_disk turn put split: option.split)
qed

section \<open>The diff library\<close>

text \<open>What the tracker relies on: on texts in which a carriage return is always followed by a line feed,
  the changes spell out the lines of both texts.\<close>

definition sound_diff :: "diff_env \<Rightarrow> bool" where
  "sound_diff env =
     (\<forall>b c cs. diff_lines env b c = Some cs \<longrightarrow> no_lone_cr b \<longrightarrow> no_lone_cr c \<longrightarrow> is_script cs b c)"

lemma text_file_no_lone_cr: "text_file s \<Longrightarrow> no_lone_cr s"
proof -
  have "carriage_return \<notin> set s \<Longrightarrow> no_lone_cr s" by (induction s) auto
  then show "text_file s \<Longrightarrow> no_lone_cr s" by (simp add: text_file_def)
qed

lemma sound_diffD:
  "sound_diff env \<Longrightarrow> diff_lines env b c = Some cs \<Longrightarrow> no_lone_cr b \<Longrightarrow> no_lone_cr c \<Longrightarrow> is_script cs b c"
  by (simp add: sound_diff_def)

section \<open>Whole sessions\<close>

definition round_step :: "diff_env \<Rightarrow> tracker \<Rightarrow> world \<times> command \<times> command list \<Rightarrow> tracker" where
  "round_step env t r = (case r of (w, cmd, queued) \<Rightarrow> fst (fst (actor_round env w cmd queued t)))"

definition run_rounds :: "diff_env \<Rightarrow> tracker \<Rightarrow> (world \<times> command \<times> command list) list \<Rightarrow> tracker" where
  "run_rounds env = foldl (round_step env)"

definition round_self_contained :: "world \<times> command \<times> command list \<Rightarrow> bool" where
  "round_self_contained r = (case r of (w, cmd, queued) \<Rightarrow> list_all self_contained (cmd # queued))"

interpretation actor: guarded_machine "round_step env" round_self_contained
  "\<lambda>t. inj (new_id env) \<longrightarrow> tracked env {} t" for env
  by unfold_locales
    (auto simp only: round_step_def round_self_contained_def prod.case intro: tracked_round split: prod.splits)

lemma tracked_start_actor:
  "inj (new_id env) \<Longrightarrow> tracked env {} (actor_start env w (tracker_new wd m))"
  by (simp add: actor_start_def tracked_new tracked_dirty_cache)

lemma tracked_run:
  "inj (new_id env) \<Longrightarrow> tracked env {} t \<Longrightarrow> list_all round_self_contained rounds \<Longrightarrow>
   tracked env {} (run_rounds env t rounds)"
  unfolding run_rounds_def using actor.guarded_run_inv by blast

lemma ids_ok_tail: "ids_ok env ((p, st) # fs) n \<Longrightarrow> ids_ok env fs n"
proof -
  assume ok: "ids_ok env ((p, st) # fs) n"
  then have p: "map_of fs p = None" by (auto simp: ids_ok_def map_of_eq_None_iff)
  have at: "hunk_ids_at fs q = (if q = p then [] else hunk_ids_at ((p, st) # fs) q)" for q
    by (simp add: hunk_ids_at_def p)
  from ok show "ids_ok env fs n" unfolding ids_ok_def at by auto
qed

lemma ids_distinct:
  "ids_ok env fs n \<Longrightarrow> distinct (map hunk_id (concat (map (\<lambda>(_, st). hunks st) fs)))"
proof (induction fs)
  case (Cons f fs)
  obtain p st where f: "f = (p, st)" by (cases f)
  note ok = Cons.prems [unfolded f]
  have "hunk_id h \<notin> hunk_id ` set (hunks st)" if "(q, st') \<in> set fs" "h \<in> set (hunks st')" for q st' h
  proof -
    have keys: "distinct (map fst ((p, st) # fs))" using ok by (simp add: ids_ok_def)
    then have "q \<noteq> p" using that(1) by force
    have "map_of ((p, st) # fs) q = Some st'" using keys that(1) by (intro map_of_is_SomeI) auto
    then have "hunk_id h \<in> set (hunk_ids_at ((p, st) # fs) q)"
      using that(2) by (simp add: hunk_ids_at_def)
    moreover have "set (hunk_ids_at ((p, st) # fs) q) \<inter> set (hunk_ids_at ((p, st) # fs) p) = {}"
      using ok \<open>q \<noteq> p\<close> unfolding ids_ok_def by blast
    ultimately show ?thesis by (auto simp: hunk_ids_at_def)
  qed
  moreover have "distinct (hunk_ids_at ((p, st) # fs) p)" using ok unfolding ids_ok_def by blast
  then have "distinct (map hunk_id (hunks st))" by (simp add: hunk_ids_at_def)
  ultimately show ?case
    using Cons.IH [OF ids_ok_tail [OF ok]] by (auto simp: f) (metis imageI)
qed simp

definition patchable :: "file_content_state \<Rightarrow> bool" where
  "patchable c = (is_diffable c \<or> c = Missing)"

lemma fresh_hunks_patchable:
  "fresh_hunks env n p base cur src \<noteq> [] \<Longrightarrow> patchable base \<and> patchable cur"
  by (auto simp: fresh_hunks_def patchable_def is_diffable_def split: file_content_state.splits)

lemma file_ok_patchable: "file_ok env p st \<Longrightarrow> hunks st = [] \<or> patchable (baseline st) \<and> patchable (current_content st)"
  using fresh_hunks_patchable [of env 0 p "baseline st" "current_content st" External]
  by (cases "fresh_hunks env 0 p (baseline st) (current_content st) External = []") (auto simp: file_ok_def)

definition describes_diff :: "diff_env \<Rightarrow> string \<Rightarrow> file_hunk_state \<Rightarrow> bool" where
  "describes_diff env p st =
     (hunks st = [] \<or>
      patchable (baseline st) \<and> patchable (current_content st) \<and>
      map shape (hunks st) = map shape (fresh_hunks env 0 p (baseline st) (current_content st) External))"

text \<open>C4: in a session that neither moves its working directory nor restores a snapshot, no two pending hunks share an
  identifier, and the hunks shown for a file are none at all or exactly the hunks of the diff of its baseline and its current
  content, which then are both texts or missing. This holds after any number of rounds of the actor, for any batches of the
  other commands and any answers of the file system and git. \<open>SetWorkingDir\<close> and \<open>RestoreState\<close> are excluded: the first can merge
  the hunks of two files, the second takes any state it is given.\<close>

theorem hunks_describe_the_diff:
  assumes "inj (new_id env)"
    and "list_all round_self_contained rounds"
  shows "distinct (map hunk_id (get_all_hunks (run_rounds env (actor_start env w (tracker_new wd m)) rounds))) \<and>
    list_all (\<lambda>(p, st). describes_diff env p st)
      (file_states (run_rounds env (actor_start env w (tracker_new wd m)) rounds))"
proof -
  let ?t = "run_rounds env (actor_start env w (tracker_new wd m)) rounds"
  have t: "tracked env {} ?t"
    by (intro tracked_run tracked_start_actor assms)
  then have "distinct (map fst (file_states ?t))" by (simp add: tracked_def ids_ok_def)
  then have "file_ok env p st" if "(p, st) \<in> set (file_states ?t)" for p st
    using t that by (auto simp: tracked_def)
  then have "list_all (\<lambda>(p, st). describes_diff env p st) (file_states ?t)"
    using file_ok_patchable by (fastforce simp: list_all_iff describes_diff_def file_ok_def)
  with t ids_distinct show ?thesis
    by (auto simp: tracked_def get_all_hunks_def)
qed

section \<open>Rejecting and accepting a file\<close>

text \<open>When undoing line by line gives back the baseline exactly: both versions are text files, the current one is
  not empty, the baseline is not a single blank line, and the two do not have just one blank line in common.\<close>

definition restorable :: "diff_env \<Rightarrow> file_content_state \<Rightarrow> file_content_state \<Rightarrow> bool" where
  "restorable env base cur =
     (case (base, cur) of
        (Full b, Full c) \<Rightarrow>
          text_file b \<and> text_file c \<and> c \<noteq> [] \<and> b \<noteq> [newline] \<and>
          (case diff_lines env b c of None \<Rightarrow> False | Some cs \<Rightarrow> common_lines cs \<noteq> [[newline]])
      | _ \<Rightarrow> True)"

definition restoring_write :: "string \<Rightarrow> file_content_state \<Rightarrow> disk_write" where
  "restoring_write p base = (case base of Full b \<Rightarrow> WriteFile p b | _ \<Rightarrow> RemoveFile p)"

definition restoring_ok :: "world \<Rightarrow> string \<Rightarrow> file_content_state \<Rightarrow> bool" where
  "restoring_ok w p base = (case base of Full b \<Rightarrow> write_ok w p b | _ \<Rightarrow> remove_ok w p)"

lemma reject_all_of_file:
  assumes "tracked env {} t" and "sound_diff env" and st: "state_of t p = Some st" and "hunks st \<noteq> []"
    and "restorable env (baseline st) (current_content st)" and "restoring_ok w p (baseline st)"
  shows "\<exists>t'. reject_hunks_batch env w p (hunks st) t = (t', Inr ()) \<and>
    state_of t' p = Some (st\<lparr>current_content := baseline st, hunks := []\<rparr>) \<and>
    disk t' = disk t @ [restoring_write p (baseline st)]"
proof -
  have ok: "file_ok env p st" using assms(1) st by (simp add: tracked_def)
  with assms(4) have fresh: "fresh_hunks env 0 p (baseline st) (current_content st) External \<noteq> []"
    by (auto simp: file_ok_def)
  then consider (changed) b c where "baseline st = Full b" "current_content st = Full c"
    | (deleted) b where "baseline st = Full b" "current_content st = Missing"
    | (created) c where "baseline st = Missing" "current_content st = Full c"
    by (auto simp: fresh_hunks_def split: file_content_state.splits)
  then show ?thesis
  proof cases
    case changed
    with assms(5) obtain cs where cs: "diff_lines env b c = Some cs" "common_lines cs \<noteq> [[newline]]"
      and texts: "text_file b" "text_file c" "c \<noteq> []" "b \<noteq> [newline]"
      by (auto simp: restorable_def split: option.splits)
    have script: "is_script cs b c"
      using sound_diffD [OF assms(2) cs(1)] texts text_file_no_lone_cr by blast
    have "fold revert (by_start_descending new_start (hunks st)) c = b"
      using revert_hunks [OF tracked_hunks [OF assms(1) st assms(4) changed cs(1)] script texts cs(2)] .
    then show ?thesis
      using st assms(4,6) changed
      by (simp add: reject_hunks_batch_def reject_action_for_def write_file_def restoring_ok_def restoring_write_def
          without_all_ids recompute_same Let_def)
  next
    case deleted
    then show ?thesis
      using st assms(4,6)
      by (simp add: reject_hunks_batch_def reject_action_for_def write_file_def restoring_ok_def restoring_write_def
          without_all_ids Let_def)
  next
    case created
    then show ?thesis
      using st assms(4,6)
      by (simp add: reject_hunks_batch_def reject_action_for_def remove_file_def restoring_ok_def restoring_write_def
          without_all_ids Let_def)
  qed
qed

text \<open>C9: rejecting every hunk of a file gives the baseline back. The file on disk is overwritten with the exact
  baseline, or removed when there was none, the tracker's current content is the baseline, no hunk is left,
  and all identifiers are reported. This is for a state with the invariant \<open>tracked\<close>, which sessions without \<open>SetWorkingDir\<close> and
  \<open>RestoreState\<close> keep, a diff that spells out both texts, and a write that succeeds. When there are two texts, both must end every
  line with a line feed and have no carriage return, the current text must not be empty, the baseline must not be one
  blank line, and one blank line must not be all they have in common.\<close>

theorem reject_file_restores_baseline:
  assumes "tracked env {} t" and "sound_diff env" and "state_of t p = Some st" and "hunks st \<noteq> []"
    and "restorable env (baseline st) (current_content st)" and "restoring_ok w p (baseline st)"
  shows "\<exists>t'. apply_file_action env w p Reject t = (t', Inr (map hunk_id (hunks st))) \<and>
    state_of t' p = Some (st\<lparr>current_content := baseline st, hunks := []\<rparr>) \<and>
    disk t' = disk t @ [restoring_write p (baseline st)]"
proof -
  let ?t = "fold (count_action Reject) (hunks st) t"
  have "tracked env {} ?t" and "state_of ?t p = Some st" using assms(1,3) by (simp_all add: tracked_frames)
  from reject_all_of_file [OF this(1) assms(2) this(2) assms(4-6)] assms(3,4)
  show ?thesis by (auto simp: apply_file_action_def apply_action_batch_def Let_def)
qed

definition adoptable :: "diff_env \<Rightarrow> file_content_state \<Rightarrow> file_content_state \<Rightarrow> bool" where
  "adoptable env base cur =
     (case (base, cur) of
        (Full b, Full c) \<Rightarrow>
          text_file b \<and> text_file c \<and> b \<noteq> [] \<and> c \<noteq> [newline] \<and>
          (case diff_lines env b c of None \<Rightarrow> False | Some cs \<Rightarrow> common_lines cs \<noteq> [[newline]])
      | (Missing, Full _) \<Rightarrow> True
      | _ \<Rightarrow> False)"

text \<open>C28: accepting every hunk of a file that has been created or edited makes its current content the baseline. Nothing is
  written to disk, no hunk is left, and a second accept or reject of the file finds nothing to do. This is for a state with the
  invariant \<open>tracked\<close>, which sessions without \<open>SetWorkingDir\<close> and \<open>RestoreState\<close> keep, and a diff that spells out both texts. An
  edited file must have two texts that end every line with a line feed and have no carriage return, the baseline not
  empty, the current text not one blank line, and more in common than one blank line. Deleted files are not covered.\<close>

theorem accept_file_adopts_current:
  assumes "tracked env {} t" and "sound_diff env" and "state_of t p = Some st" and "hunks st \<noteq> []"
    and "adoptable env (baseline st) (current_content st)"
  shows "\<exists>t'. apply_file_action env w p Accept t = (t', Inr (map hunk_id (hunks st))) \<and>
    state_of t' p = Some (st\<lparr>baseline := current_content st, baseline_accepted := True, hunks := []\<rparr>) \<and>
    disk t' = disk t \<and> apply_file_action env w p a t' = (t', Inr [])"
proof -
  let ?t = "fold (count_action Accept) (hunks st) t"
  let ?st = "st\<lparr>baseline := current_content st, baseline_accepted := True, hunks := []\<rparr>"
  have t: "tracked env {} ?t" and st: "state_of ?t p = Some st" using assms(1,3) by (simp_all add: tracked_frames)
  have "state_of (accept_hunks_batch env p (hunks st) ?t) p = Some ?st \<and>
      disk (accept_hunks_batch env p (hunks st) ?t) = disk t"
  proof (cases "baseline st")
    case Missing
    with st assms(4) show ?thesis by (simp add: accept_hunks_batch_def without_all_ids Let_def)
  next
    case (Full b)
    with assms(5) obtain c cs where c: "current_content st = Full c" and cs: "diff_lines env b c = Some cs"
      and "common_lines cs \<noteq> [[newline]]" and texts: "text_file b" "text_file c" "b \<noteq> []" "c \<noteq> [newline]"
      by (auto simp: adoptable_def split: option.splits file_content_state.splits)
    have "is_script cs b c"
      using sound_diffD [OF assms(2) cs] texts text_file_no_lone_cr by blast
    then have "fold patch_baseline (by_start_descending old_start (hunks st)) (Full b) = Full c"
      using install_hunks [OF tracked_hunks [OF t st assms(4) Full c cs]] texts \<open>common_lines cs \<noteq> [[newline]]\<close> by blast
    with st assms(4) Full c show ?thesis
      by (simp add: accept_hunks_batch_def without_all_ids recompute_same Let_def)
  qed (use assms(5) in \<open>simp_all add: adoptable_def\<close>)
  with assms(3,4) show ?thesis
    by (auto simp: apply_file_action_def apply_action_batch_def Let_def)
qed

text \<open>One hunk at a time or in a batch is the same. Acting on one hunk leaves the same state, the same events, the
  same disk writes and the same error as the batch that holds just that hunk.\<close>

theorem hunk_action_is_singleton_batch:
  assumes "find_hunk_in hid (file_states t) = Some (p, h)"
  shows "apply_hunk_action env w hid a t =
    (let (t', r) = apply_action_batch env w [(p, [h])] a t in (t', map_sum id (\<lambda>_. ()) r))"
  using assms
  by (auto simp: apply_hunk_action_def apply_action_batch_def accept_hunk_batch reject_hunk_batch Let_def
      split: hunk_action.split prod.split sum.split)

text \<open>When the disk refuses the write, a rejection reports it and leaves the file, its hunks, the log of events and
  the disk as they were. But the hunk has already been counted as rejected and taken out of its turn.\<close>

theorem failed_reject_is_still_counted:
  assumes "find_hunk_in hid (file_states t) = Some (p, h)" and "state_of t p = Some st"
    and "baseline st = Full b" and "current_content st = Full c" and "\<not> write_ok w p (revert h c)"
  shows "\<exists>t'. apply_hunk_action env w hid Reject t = (t', Inl (WriteError p)) \<and>
    file_states t' = file_states t \<and> disk t' = disk t \<and> events t' = events t \<and>
    rejected_hunks (session_stats t') = sat_add (rejected_hunks (session_stats t)) 1 \<and>
    (case prompt_index (hunk_source h) of None \<Rightarrow> True
      | Some i \<Rightarrow> (case turn_index t' i of None \<Rightarrow> True | Some ids \<Rightarrow> hunk_id h \<notin> set ids))"
  using assms
  by (simp add: apply_hunk_action_def reject_hunk_def reject_action_for_def write_file_def Let_def)
    (simp add: count_action_def update_session_stats_def remove_from_turn_index_def Let_def split: option.split)

section \<open>Accepting writes nothing\<close>

definition currents :: "tracker \<Rightarrow> string \<Rightarrow> file_content_state option" where
  "currents t p = map_option current_content (state_of t p)"

lemma currents_accept_batch:
  "currents (accept_hunks_batch env p hs t) = currents t \<and> disk (accept_hunks_batch env p hs t) = disk t"
proof (cases "hs = [] \<or> state_of t p = None")
  case False
  then obtain st where st: "state_of t p = Some st" by auto
  show ?thesis
    using False st
    by (auto simp: fun_eq_iff currents_def accept_hunks_batch_def Let_def recompute_states update_conv')
qed (auto simp: accept_hunks_batch_def)

lemma currents_count [simp]:
  "currents (fold (count_action a) hs t) = currents t" "currents (count_action a h t) = currents t"
  by (simp_all add: currents_def fun_eq_iff)

lemma currents_action_batch:
  "currents (fst (action_batch env w Accept files ids t)) = currents t \<and>
   disk (fst (action_batch env w Accept files ids t)) = disk t"
  by (induction files arbitrary: ids t) (auto simp: Let_def currents_accept_batch)

text \<open>C29: accepting never touches the user's files. Whatever is accepted, one hunk, a file, a turn or everything,
  nothing is written to or removed from disk, and the content the tracker has for every file stays the same.\<close>

theorem accept_never_writes:
  "disk (fst (apply_hunk_action env w hid Accept t)) = disk t \<and>
   currents (fst (apply_hunk_action env w hid Accept t)) = currents t \<and>
   disk (fst (apply_file_action env w p Accept t)) = disk t \<and>
   currents (fst (apply_file_action env w p Accept t)) = currents t \<and>
   disk (fst (apply_turn_action env w i Accept t)) = disk t \<and>
   currents (fst (apply_turn_action env w i Accept t)) = currents t \<and>
   disk (fst (apply_all_action env w Accept t)) = disk t \<and>
   currents (fst (apply_all_action env w Accept t)) = currents t"
  by (auto simp: apply_hunk_action_def apply_file_action_def apply_turn_action_def apply_all_action_def
      apply_action_batch_def accept_hunk_batch currents_accept_batch currents_action_batch Let_def
      simp del: action_batch.simps split: option.split)

section \<open>Attribution\<close>

lemma preserve_ids_agent:
  assumes "\<And>h. h \<in> set hs \<Longrightarrow> hunk_source h = AgentEdit i" and "h \<in> set (preserve_ids olds claimed hs)"
  shows "hunk_source h = AgentEdit i"
  using assms
  by (induction olds claimed hs rule: preserve_ids.induct)
    (auto simp: inherit_def is_external_def split: option.splits if_splits)

lemma fresh_hunks_source: "h \<in> set (fresh_hunks env n p base cur src) \<Longrightarrow> hunk_source h = src"
proof -
  have "h \<in> set (hunk_loop env p src n cs ol nl b) \<Longrightarrow> hunk_source h = src" for h cs ol nl b
    by (induction env p src n cs ol nl b rule: hunk_loop.induct) (auto simp: build_def)
  then show "h \<in> set (fresh_hunks env n p base cur src) \<Longrightarrow> hunk_source h = src"
    by (auto simp: fresh_hunks_def compute_hunks_def file_created_def file_deleted_def
        split: file_content_state.splits option.splits if_splits)
qed

definition in_turn :: "tracker \<Rightarrow> nat \<Rightarrow> string \<Rightarrow> bool" where
  "in_turn t i hid = (case turn_index t i of None \<Rightarrow> False | Some ids \<Rightarrow> hid \<in> set ids)"

lemma in_turn_add: "in_turn (add_to_turn_index hid (AgentEdit i) t) i hid' = (hid' = hid \<or> in_turn t i hid')"
  by (auto simp: add_to_turn_index_def prompt_index_def in_turn_def split: option.split)

lemma in_turn_fold:
  "list_all (\<lambda>h. hunk_source h = AgentEdit i) hs \<Longrightarrow>
   in_turn (fold (\<lambda>h. add_to_turn_index (hunk_id h) (hunk_source h)) hs t) i hid =
   (hid \<in> hunk_id ` set hs \<or> in_turn t i hid)"
  by (induction hs arbitrary: t) (auto simp: in_turn_add)

lemma recompute_agent:
  assumes "state_of (recompute_hunks env p cur (AgentEdit i) t) p = Some st" and "h \<in> set (hunks st)"
  shows "hunk_source h = AgentEdit i \<and> in_turn (recompute_hunks env p cur (AgentEdit i) t) i (hunk_id h)"
proof (cases "state_of t p")
  case None
  with assms(1) show ?thesis by (simp add: recompute_untracked)
next
  case (Some st0)
  let ?cur = "case cur of None \<Rightarrow> Missing | Some c \<Rightarrow> c"
  let ?new = "preserve_ids (hunks st0) [] (fresh_hunks env (next_hunk t) p (baseline st0) ?cur (AgentEdit i))"
  have src: "hunk_source g = AgentEdit i" if "g \<in> set ?new" for g
    by (rule preserve_ids_agent [OF _ that]) (rule fresh_hunks_source)
  have "hunks st = ?new" using assms(1) Some by (auto simp: recompute_states update_conv')
  with assms(2) have h: "h \<in> set ?new" by simp
  have "list_all (\<lambda>h. hunk_source h = AgentEdit i) ?new" using src by (simp add: list_all_iff)
  note turn = in_turn_fold [OF this]
  have "in_turn (recompute_hunks env p cur (AgentEdit i) t) i (hunk_id h)"
    using h by (simp add: recompute_hunks_def Some Let_def emit_hunk_diff_events_def in_turn_def [of "_\<lparr>events := _\<rparr>"]
        turn [unfolded in_turn_def] )
  with src [OF h] show ?thesis by simp
qed

text \<open>A text the agent writes takes over the whole file. Afterwards every pending hunk of the file is attributed to
  the turn of that write and listed under it, the ones an earlier turn or the user made included.\<close>

theorem agent_write_claims_every_hunk:
  assumes "is_diffable (classify_string content)"
    and "state_of (record_agent_write env w p content i prev t) p = Some st" and "h \<in> set (hunks st)"
  shows "hunk_source h = AgentEdit i \<and> in_turn (record_agent_write env w p content i prev t) i (hunk_id h)"
proof -
  obtain t2 where t2: "record_agent_write env w p content i prev t =
      recompute_hunks env p (Some (classify_string content)) (AgentEdit i) t2"
    using assms(1) by (simp add: record_agent_write_def Let_def)
  show ?thesis using assms(2,3) unfolding t2 by (rule recompute_agent)
qed

section \<open>Coalescing\<close>

definition notifications :: "string \<Rightarrow> command list \<Rightarrow> command list" where
  "notifications p cmds = filter (\<lambda>cmd. cmd = HandleFileChange p \<or> cmd = HandleFileDeleted p) cmds"

definition last_word :: "string \<Rightarrow> command list \<Rightarrow> path_action option" where
  "last_word p cmds =
     (let ns = notifications p cmds
      in if ns = [] then None
         else if last ns = HandleFileDeleted p then Some Deleted
         else if HandleFileDeleted p \<in> set ns then Some DeletedThenChanged
         else Some Changed)"

lemma last_word_snoc:
  "last_word p (cmds @ [cmd]) =
     (if cmd = HandleFileDeleted p then Some Deleted
      else if cmd = HandleFileChange p
      then (case last_word p cmds of
              None \<Rightarrow> Some Changed
            | Some a \<Rightarrow> Some (if a = Deleted then DeletedThenChanged else a))
      else last_word p cmds)"
proof -
  define ns where "ns = notifications p cmds"
  have "notifications p (cmds @ [cmd]) =
      ns @ (if cmd = HandleFileChange p \<or> cmd = HandleFileDeleted p then [cmd] else [])"
    by (simp add: notifications_def ns_def)
  moreover have "HandleFileDeleted p \<in> set ns" if "ns \<noteq> []" "last ns = HandleFileDeleted p"
    using last_in_set [OF that(1)] that(2) by simp
  ultimately show ?thesis
    unfolding last_word_def ns_def [symmetric] Let_def by auto
qed

lemma batch_add_action:
  "map_of (file_actions (batch_add cmd b)) p =
     (if cmd = HandleFileDeleted p then Some Deleted
      else if cmd = HandleFileChange p
      then (case map_of (file_actions b) p of
              None \<Rightarrow> Some Changed
            | Some a \<Rightarrow> Some (if a = Deleted then DeletedThenChanged else a))
      else map_of (file_actions b) p)"
  by (auto simp: batch_add_def Let_def update_conv' split: command.split option.split)

lemma drained_actions: "map_of (file_actions (fold batch_add cmds batch_new)) p = last_word p cmds"
proof (induction cmds rule: rev_induct)
  case Nil
  then show ?case by (simp add: batch_new_def last_word_def notifications_def)
next
  case (snoc cmd cmds)
  then show ?case by (simp add: batch_add_action last_word_snoc)
qed

lemma drained_flags:
  "refresh_all (fold batch_add cmds b) = (refresh_all b \<or> RefreshAllBaselines \<in> set cmds)"
  "refresh_dirty (fold batch_add cmds b) = (refresh_dirty b \<or> RefreshGitDirtyCache \<in> set cmds)"
  "command_count (fold batch_add cmds b) = command_count b + length cmds"
  by (induction cmds arbitrary: b) (auto simp: batch_add_def Let_def split: command.splits)

text \<open>C23: draining the queue loses no command. A path is handled once, as deleted exactly when the last notification
  about it is a deletion, and otherwise as changed, after a deletion if there was one. Refreshes run when asked for, and
  all other commands are kept in their order.\<close>

theorem coalescing_keeps_the_last_word:
  "map_of (file_actions (drain_and_coalesce cmd queued)) p = last_word p (cmd # queued) \<and>
   refresh_all (drain_and_coalesce cmd queued) = (RefreshAllBaselines \<in> set (cmd # queued)) \<and>
   refresh_dirty (drain_and_coalesce cmd queued) = (RefreshGitDirtyCache \<in> set (cmd # queued)) \<and>
   other_commands (drain_and_coalesce cmd queued) = filter (\<lambda>c. \<not> is_coalescable c) (cmd # queued) \<and>
   command_count (drain_and_coalesce cmd queued) = Suc (length queued)"
  unfolding drain_and_coalesce_def
  by (simp only: drained_actions drained_flags other_commands_drained) (simp add: batch_new_def)

section \<open>Patches for display\<close>

definition fits :: "string \<Rightarrow> string \<Rightarrow> hunk_line_info \<Rightarrow> bool" where
  "fits b c li =
     (old_start li - 1 + old_count li \<le> length (lines b) \<and> new_start li - 1 + new_count li \<le> length (lines c))"

lemma generate_hunk_patch_total: "fits b c (line_info h) \<Longrightarrow> generate_hunk_patch b c h \<noteq> None"
  by (auto simp: generate_hunk_patch_def fits_def Let_def min_def)

lemma length_lines: "length (lines s) = length (split_inclusive s)"
  by (simp add: lines_def)

definition text_or_empty :: "file_content_state \<Rightarrow> string" where
  "text_or_empty c = (case as_str c of None \<Rightarrow> [] | Some s \<Rightarrow> s)"

definition no_lone_cr_in :: "file_content_state \<Rightarrow> bool" where
  "no_lone_cr_in c = no_lone_cr (text_or_empty c)"

lemma lines_nonempty: "s \<noteq> [] \<Longrightarrow> 1 \<le> length (lines s)"
  by (cases "split_inclusive s") (auto simp: length_lines)

lemma fresh_hunks_fit:
  assumes "sound_diff env" and "no_lone_cr_in base" and "no_lone_cr_in cur"
    and "h \<in> set (fresh_hunks env n p base cur src)"
  shows "fits (text_or_empty base) (text_or_empty cur) (line_info h)"
proof -
  have changed: "fits b c (line_info h)"
    if "base = Full b" "cur = Full c" "diff_lines env b c = Some cs" "h \<in> set (hunk_loop env p src n cs 1 1 None)"
    for b c cs
  proof -
    have "is_script cs b c"
      using sound_diffD [OF assms(1) that(3)] assms(2,3) that(1,2)
      by (simp add: no_lone_cr_in_def text_or_empty_def as_str_def)
    with hunks_in_order(2) [OF that(4)] show ?thesis
      by (auto simp: in_file_def fits_def is_script_def length_lines)
  qed
  show ?thesis
    using assms(4) changed lines_nonempty
    by (auto simp: fresh_hunks_def compute_hunks_def file_created_def file_deleted_def text_or_empty_def as_str_def
        fits_def lines_def split: file_content_state.splits option.splits if_splits)
qed

lemma with_patch_total:
  assumes "sound_diff env" and "file_ok env p st" and "no_lone_cr_in (baseline st)" and "no_lone_cr_in (current_content st)"
    and "h \<in> set (hunks st)"
  shows "with_patch st h \<noteq> None"
proof -
  let ?fresh = "fresh_hunks env 0 p (baseline st) (current_content st) External"
  have "shape h \<in> set (map shape ?fresh)"
    using assms(2,5) unfolding file_ok_def by (metis empty_iff image_eqI list.set(1) list.set_map)
  then obtain g where "g \<in> set ?fresh" and "line_info h = line_info g"
    by (auto simp: shape_def)
  then have "fits (text_or_empty (baseline st)) (text_or_empty (current_content st)) (line_info h)"
    using fresh_hunks_fit [OF assms(1,3,4)] by simp
  from generate_hunk_patch_total [OF this] show ?thesis
    by (auto simp: with_patch_def hunk_patch_def text_or_empty_def split: option.splits)
qed

text \<open>C34: showing the hunks of a file never fails in a state with the invariant \<open>tracked\<close>, which sessions without \<open>SetWorkingDir\<close> and
  \<open>RestoreState\<close> keep. On texts without lone carriage returns, with a diff that spells out both texts, every hunk lies inside both
  versions of its file, so none of the subtractions that count context lines goes below zero, and every hunk gets its
  patch. After \<open>SetWorkingDir\<close> has merged two files the invariant is lost and with it this guarantee.\<close>

theorem patches_never_underflow:
  assumes "tracked env {} t" and "sound_diff env"
    and "list_all (\<lambda>(_, st). no_lone_cr_in (baseline st) \<and> no_lone_cr_in (current_content st)) (file_states t)"
  shows "get_file_hunk_data p t \<noteq> None"
proof (cases "state_of t p")
  case None
  then show ?thesis by (simp add: get_file_hunk_data_def)
next
  case (Some st)
  then have "(p, st) \<in> set (file_states t)" by (rule map_of_SomeD)
  then have "no_lone_cr_in (baseline st)" and "no_lone_cr_in (current_content st)"
    using assms(3) by (auto simp: list_all_iff)
  moreover have "file_ok env p st" using assms(1) Some by (simp add: tracked_def)
  ultimately have "None \<notin> set (map (with_patch st) (hunks st))"
    using with_patch_total [OF assms(2)] by fastforce
  with Some show ?thesis by (simp add: get_file_hunk_data_def Let_def)
qed

section \<open>A sample session\<close>

text \<open>A diff that compares the texts line by line, a world in which every write succeeds and there is no
  repository, and the tracker after the agent has rewritten two of three lines.\<close>

fun linewise :: "string list \<Rightarrow> string list \<Rightarrow> (change_tag \<times> string) list" where
  "linewise [] ys = map (Pair Insert) ys"
| "linewise (x # xs) [] = map (Pair Delete) (x # xs)"
| "linewise (x # xs) (y # ys) =
     (if x = y then (Equal, x) # linewise xs ys else (Delete, x) # (Insert, y) # linewise xs ys)"

definition sample_diff :: diff_env where
  "sample_diff =
     \<lparr>diff_lines = (\<lambda>b c. Some (linewise (split_inclusive b) (split_inclusive c))),
      new_id = (\<lambda>n. replicate n CHR ''i''), created = (\<lambda>n. n)\<rparr>"

definition sample_world :: world where
  "sample_world =
     \<lparr>lstat = (\<lambda>_. None), open_ok = (\<lambda>_. False), read_some = (\<lambda>_ _. None), read_to_end = (\<lambda>_. None),
      path_exists = (\<lambda>_. False), path_is_dir = (\<lambda>_. False), canonicalize = (\<lambda>_. None),
      write_ok = (\<lambda>_ _. True), remove_ok = (\<lambda>_. True), task_ok = True, repo_workdir = (\<lambda>_. None),
      head_entry = (\<lambda>_. None), index_nonempty = False, git_status = (\<lambda>_. None), sync_state = default_sync_state\<rparr>"

definition sample_before :: string where
  "sample_before = unlines [''a'', ''b'', ''c'']"

definition sample_after :: string where
  "sample_after = unlines [''x'', ''b'', ''y'']"

definition sample_write :: command where
  "sample_write = RecordAgentWrite ''/r/f'' sample_after 3 (Some sample_before)"

definition sample_tracker :: tracker where
  "sample_tracker =
     record_agent_write sample_diff sample_world ''/r/f'' sample_after 3 (Some sample_before) (tracker_new ''/r'' AgentOnly)"

lemma sides_pairwise: "old_side (linewise xs ys) = xs \<and> new_side (linewise xs ys) = ys"
proof -
  have "old_side (map (Pair Insert) ls) = []" "new_side (map (Pair Insert) ls) = ls"
    "old_side (map (Pair Delete) ls) = ls" "new_side (map (Pair Delete) ls) = []" for ls
    by (induction ls) simp_all
  then show ?thesis by (induction xs ys rule: linewise.induct) simp_all
qed

lemma sample_diff_ok: "sound_diff sample_diff" "inj (new_id sample_diff)"
proof -
  show "sound_diff sample_diff"
    by (auto simp: sound_diff_def sample_diff_def is_script_def sides_pairwise)
  show "inj (new_id sample_diff)"
    by (simp add: inj_def sample_diff_def)
qed

lemma sample_tracked: "tracked sample_diff {} sample_tracker"
  unfolding sample_tracker_def by (intro tracked_agent_write tracked_new sample_diff_ok)

definition sample_hunks :: "hunk list" where
  "sample_hunks = hunk_loop sample_diff ''/r/f'' (AgentEdit 3) 0
     (linewise (split_inclusive sample_before) (split_inclusive sample_after)) 1 1 None"

definition sample_state :: file_hunk_state where
  "sample_state =
     \<lparr>baseline = Full sample_before, current_content = Full sample_after, hunks = sample_hunks,
      is_agent_file = True, baseline_accepted = False\<rparr>"

lemma sample_texts:
  "text_file sample_before" "text_file sample_after" "sample_after \<noteq> []" "sample_before \<noteq> sample_after"
  "classify_string sample_before = Full sample_before" "classify_string sample_after = Full sample_after"
  "length sample_before = 6" "length sample_after = 6"
  by (simp_all add: sample_before_def sample_after_def text_file_def classify_string_def MAX_TRACKED_TEXT_BYTES_def
      is_lfs_pointer_def LFS_POINTER_PREFIX_def is_binary_def)

lemma no_old_hunks: "preserve_ids [] claimed hs = hs"
  by (induction hs arbitrary: claimed) (simp_all add: find_matching_old_hunk_def)

lemma sample_state_eq: "state_of sample_tracker ''/r/f'' = Some sample_state"
  by (simp add: sample_tracker_def record_agent_write_def sample_texts is_diffable_def read_baseline_def tracker_new_def
      start_tracking_def tracked_file_def recompute_states update_conv' no_old_hunks fresh_hunks_def compute_hunks_def
      MAX_DIFF_FILE_SIZE_def sample_state_def sample_hunks_def open_or_discover_def sample_world_def Let_def)
    (simp add: sample_diff_def)

lemma sample_script:
  "linewise (split_inclusive sample_before) (split_inclusive sample_after) =
     [(Delete, ''a'' @ [newline]), (Insert, ''x'' @ [newline]), (Equal, ''b'' @ [newline]),
      (Delete, ''c'' @ [newline]), (Insert, ''y'' @ [newline])]"
  by (simp add: sample_before_def sample_after_def)

lemma sample_hunks_eq:
  "sample_hunks =
     [build sample_diff 0 ''/r/f'' (AgentEdit 3)
        \<lparr>b_old_start = 1, b_new_start = 1, b_old_lines = [''a'' @ [newline]], b_new_lines = [''x'' @ [newline]]\<rparr>,
      build sample_diff 1 ''/r/f'' (AgentEdit 3)
        \<lparr>b_old_start = 3, b_new_start = 3, b_old_lines = [''c'' @ [newline]], b_new_lines = [''y'' @ [newline]]\<rparr>]"
  by (simp add: sample_hunks_def sample_script in_progress_def builder_new_def add_old_line_def add_new_line_def
      numeral_3_eq_3)

lemma sample_conditions:
  "hunks sample_state \<noteq> []"
  "restorable sample_diff (baseline sample_state) (current_content sample_state)"
  "adoptable sample_diff (baseline sample_state) (current_content sample_state)"
  "restoring_ok sample_world ''/r/f'' (baseline sample_state)"
  using sample_texts(1-4)
  by (simp_all add: sample_state_def sample_hunks_eq restorable_def adoptable_def restoring_ok_def sample_world_def)
    (simp_all add: sample_diff_def sample_script, simp_all add: sample_before_def sample_after_def)

theorem hunks_describe_the_diff_witness:
  "inj (new_id sample_diff) \<and>
   distinct (map hunk_id (get_all_hunks (run_rounds sample_diff
     (actor_start sample_diff sample_world (tracker_new ''/r'' AgentOnly))
     [(sample_world, sample_write, []), (sample_world, HandleFileDeleted ''/r/f'', [sample_write])]))) \<and>
   list_all (\<lambda>(p, st). describes_diff sample_diff p st)
     (file_states (run_rounds sample_diff (actor_start sample_diff sample_world (tracker_new ''/r'' AgentOnly))
       [(sample_world, sample_write, []), (sample_world, HandleFileDeleted ''/r/f'', [sample_write])]))"
  using hunks_describe_the_diff [OF sample_diff_ok(2),
      of "[(sample_world, sample_write, []), (sample_world, HandleFileDeleted ''/r/f'', [sample_write])]"
        sample_world "''/r''" AgentOnly]
    sample_diff_ok(2)
  by (simp add: round_self_contained_def self_contained_def sample_write_def)

theorem reject_file_restores_baseline_witness:
  "length (hunks sample_state) = 2 \<and> state_of sample_tracker ''/r/f'' = Some sample_state \<and>
   (\<exists>t'. apply_file_action sample_diff sample_world ''/r/f'' Reject sample_tracker =
        (t', Inr (map hunk_id (hunks sample_state))) \<and>
      state_of t' ''/r/f'' = Some (sample_state\<lparr>current_content := baseline sample_state, hunks := []\<rparr>) \<and>
      disk t' = disk sample_tracker @ [WriteFile ''/r/f'' sample_before])"
  using reject_file_restores_baseline [OF sample_tracked sample_diff_ok(1) sample_state_eq sample_conditions(1,2,4)]
    sample_state_eq
  by (simp add: sample_state_def sample_hunks_eq restoring_write_def)

theorem accept_file_adopts_current_witness:
  "length (hunks sample_state) = 2 \<and> state_of sample_tracker ''/r/f'' = Some sample_state \<and>
   (\<exists>t'. apply_file_action sample_diff sample_world ''/r/f'' Accept sample_tracker =
        (t', Inr (map hunk_id (hunks sample_state))) \<and>
      state_of t' ''/r/f'' =
        Some (sample_state\<lparr>baseline := current_content sample_state, baseline_accepted := True, hunks := []\<rparr>) \<and>
      disk t' = disk sample_tracker \<and>
      apply_file_action sample_diff sample_world ''/r/f'' Reject t' = (t', Inr []))"
  using accept_file_adopts_current [OF sample_tracked sample_diff_ok(1) sample_state_eq sample_conditions(1,3),
      of sample_world Reject] sample_state_eq
  by (simp add: sample_state_def sample_hunks_eq)

lemma sample_file_states: "file_states sample_tracker = [(''/r/f'', sample_state)]"
proof -
  have "map fst (file_states sample_tracker) = [''/r/f'']"
    by (simp add: sample_tracker_def record_agent_write_def sample_texts is_diffable_def read_baseline_def tracker_new_def
        start_tracking_def recompute_states update_keys put_state_def open_or_discover_def sample_world_def Let_def)
  then show ?thesis using sample_state_eq by (auto simp: map_eq_Cons_conv)
qed

lemma sample_find: "find_hunk_in [] (file_states sample_tracker) = Some (''/r/f'', hd sample_hunks)"
  by (simp add: sample_file_states sample_state_def sample_hunks_eq build_def sample_diff_def)

lemma sample_first: "hunk_id (hd sample_hunks) = []" "hunk_source (hd sample_hunks) = AgentEdit 3"
  by (simp_all add: sample_hunks_eq build_def sample_diff_def)

theorem hunk_action_is_singleton_batch_witness:
  "find_hunk_in [] (file_states sample_tracker) = Some (''/r/f'', hd sample_hunks) \<and>
   apply_hunk_action sample_diff sample_world [] Reject sample_tracker =
     (let (t', r) = apply_action_batch sample_diff sample_world [(''/r/f'', [hd sample_hunks])] Reject sample_tracker
      in (t', map_sum id (\<lambda>_. ()) r))"
  using hunk_action_is_singleton_batch [OF sample_find, of sample_diff sample_world Reject] sample_find by simp

theorem failed_reject_is_still_counted_witness:
  "\<exists>t'. apply_hunk_action sample_diff (sample_world\<lparr>write_ok := \<lambda>_ _. False\<rparr>) [] Reject sample_tracker =
      (t', Inl (WriteError ''/r/f'')) \<and>
    file_states t' = file_states sample_tracker \<and> disk t' = disk sample_tracker \<and> events t' = events sample_tracker \<and>
    rejected_hunks (session_stats t') = sat_add (rejected_hunks (session_stats sample_tracker)) 1 \<and>
    (case turn_index t' 3 of None \<Rightarrow> True | Some ids \<Rightarrow> hunk_id (hd sample_hunks) \<notin> set ids)"
  using failed_reject_is_still_counted [OF sample_find sample_state_eq, of sample_before sample_after
      "sample_world\<lparr>write_ok := \<lambda>_ _. False\<rparr>" sample_diff]
  by (simp add: sample_state_def sample_first prompt_index_def)

theorem agent_write_claims_every_hunk_witness:
  "list_all (\<lambda>h. hunk_source h = AgentEdit 3 \<and> in_turn sample_tracker 3 (hunk_id h)) (hunks sample_state)"
  using agent_write_claims_every_hunk [of sample_after sample_diff sample_world "''/r/f''" 3 "Some sample_before"
      "tracker_new ''/r'' AgentOnly" sample_state] sample_state_eq
  by (simp add: sample_tracker_def [symmetric] sample_texts is_diffable_def list_all_iff)

theorem patches_never_underflow_witness:
  "get_file_hunk_data ''/r/f'' sample_tracker \<noteq> None"
proof (rule patches_never_underflow [OF sample_tracked sample_diff_ok(1)])
  show "list_all (\<lambda>(_, st). no_lone_cr_in (baseline st) \<and> no_lone_cr_in (current_content st)) (file_states sample_tracker)"
    using sample_texts(1,2) text_file_no_lone_cr
    by (simp add: sample_file_states sample_state_def no_lone_cr_in_def text_or_empty_def as_str_def)
qed

section \<open>Reading files\<close>

text \<open>A path that is an ordinary file with the given bytes, read without errors and without short reads.\<close>

definition holds_bytes :: "world \<Rightarrow> string \<Rightarrow> string \<Rightarrow> bool" where
  "holds_bytes w p bytes =
     (lstat w p = Some (False, length bytes) \<and> open_ok w p \<and>
      read_some w p (min 8000 (length bytes)) = Some (take 8000 bytes) \<and>
      read_to_end w p = Some (drop 8000 bytes))"

lemma is_lfs_pointer_take: "is_lfs_pointer (take 8000 bytes) = is_lfs_pointer bytes"
  by (auto simp: is_lfs_pointer_def)

lemma is_binary_take: "is_binary (take 8000 bytes) = is_binary bytes"
  by (simp add: is_binary_def min_def)

text \<open>The three ways content reaches the tracker agree. Reading a file in two steps with a bounded prefix classifies
  it as the blob with the same bytes is classified, and a text the agent reports is classified as reading it back
  would.\<close>

theorem reading_agrees_with_classifying:
  assumes "holds_bytes w p bytes"
  shows "read_file_bounded w p = classify_bytes bytes \<and>
    (utf8_from 0 bytes \<longrightarrow> classify_string bytes = read_file_bounded w p)"
proof -
  have "(if min 8000 (length bytes) < length bytes then map_option (\<lambda>r. take 8000 bytes @ r) (read_to_end w p)
      else Some (take 8000 bytes)) = Some bytes"
    using assms by (simp add: holds_bytes_def min_def)
  then have "read_file_bounded w p = classify_bytes bytes"
    using assms
    by (simp add: read_file_bounded_def classify_bytes_def holds_bytes_def is_lfs_pointer_take is_binary_take Let_def)
  then show ?thesis
    by (auto simp: classify_bytes_def classify_string_def from_utf8_def)
qed

theorem reading_agrees_with_classifying_witness:
  "read_file_bounded (sample_world\<lparr>lstat := \<lambda>_. Some (False, 3), open_ok := \<lambda>_. True,
       read_some := \<lambda>_ n. Some (take n ''abc''), read_to_end := \<lambda>_. Some []\<rparr>) ''/r/f'' = classify_bytes ''abc'' \<and>
   classify_string ''abc'' = classify_bytes ''abc''"
  using reading_agrees_with_classifying [of "sample_world\<lparr>lstat := \<lambda>_. Some (False, 3), open_ok := \<lambda>_. True,
       read_some := \<lambda>_ n. Some (take n ''abc''), read_to_end := \<lambda>_. Some []\<rparr>" "''/r/f''" "''abc''"]
  by (simp add: holds_bytes_def utf8_width_def)

section \<open>Replies\<close>

definition answers :: "command \<Rightarrow> reply \<Rightarrow> bool" where
  "answers cmd r =
     (case cmd of
        SetWorkingDir _ \<Rightarrow> r = Done
      | HunkActionCmd _ _ \<Rightarrow> (case r of ActionResult _ \<Rightarrow> True | _ \<Rightarrow> False)
      | FileAction _ _ \<Rightarrow> (case r of BatchResult _ \<Rightarrow> True | _ \<Rightarrow> False)
      | AllAction _ \<Rightarrow> (case r of BatchResult _ \<Rightarrow> True | _ \<Rightarrow> False)
      | TurnAction _ _ \<Rightarrow> (case r of BatchResult _ \<Rightarrow> True | _ \<Rightarrow> False)
      | GetAllHunks \<Rightarrow> (case r of Hunks _ \<Rightarrow> True | _ \<Rightarrow> False)
      | GetHunksForPath _ \<Rightarrow> (case r of Hunks _ \<Rightarrow> True | _ \<Rightarrow> False)
      | GetHunksBySource _ \<Rightarrow> (case r of Hunks _ \<Rightarrow> True | _ \<Rightarrow> False)
      | GetTurnHunks _ \<Rightarrow> (case r of Hunks _ \<Rightarrow> True | _ \<Rightarrow> False)
      | GetFileHunkData _ \<Rightarrow> (case r of HunkData _ \<Rightarrow> True | _ \<Rightarrow> False)
      | GetHunk _ \<Rightarrow> (case r of OneHunk _ \<Rightarrow> True | _ \<Rightarrow> False)
      | IsAgentFile _ \<Rightarrow> (case r of Flag _ \<Rightarrow> True | _ \<Rightarrow> False)
      | GetAllTrackedPaths \<Rightarrow> (case r of Paths _ \<Rightarrow> True | _ \<Rightarrow> False)
      | GetStagedFiles \<Rightarrow> (case r of Paths _ \<Rightarrow> True | _ \<Rightarrow> False)
      | GetAllFileContents \<Rightarrow> (case r of Contents _ \<Rightarrow> True | _ \<Rightarrow> False)
      | GetSessionSummary \<Rightarrow> (case r of Summary _ \<Rightarrow> True | _ \<Rightarrow> False)
      | SnapshotState \<Rightarrow> (case r of Snapshot _ \<Rightarrow> True | _ \<Rightarrow> False)
      | SnapshotTurnDelta _ \<Rightarrow> (case r of Delta _ \<Rightarrow> True | _ \<Rightarrow> False)
      | _ \<Rightarrow> r = NoReply)"

lemma handle_command_answers: "answers cmd (snd (handle_command env w cmd t))"
  by (cases cmd) (simp_all add: handle_command_def answers_def case_prod_unfold Let_def)

lemma handle_commands_answer: "list_all2 answers cmds (snd (handle_commands env w cmds t))"
  by (induction cmds arbitrary: t) (auto simp: Let_def case_prod_unfold handle_command_answers)

lemma actor_round_answers:
  "actor_round env w cmd queued t = ((t', rs), rest) \<Longrightarrow>
   (rest = [] \<and> list_all2 answers (filter (\<lambda>c. \<not> is_coalescable c) (cmd # queued)) rs) \<or>
   (rest = queued \<and> \<not> is_coalescable cmd \<and> list_all2 answers [cmd] rs)"
proof (cases "is_coalescable cmd")
  case True
  assume round: "actor_round env w cmd queued t = ((t', rs), rest)"
  have "other_commands (drain_and_coalesce cmd queued) = filter (\<lambda>c. \<not> is_coalescable c) (cmd # queued)"
    unfolding drain_and_coalesce_def other_commands_drained by (simp add: batch_new_def)
  moreover have "snd (handle_coalesced_batch env w b t) = snd (handle_commands env w (other_commands b) t2) \<longrightarrow>
      list_all2 answers (other_commands b) (snd (handle_coalesced_batch env w b t))" for b t2
    using handle_commands_answer by simp
  moreover have "\<exists>t2. handle_coalesced_batch env w b t = handle_commands env w (other_commands b) t2" for b
    by (simp add: handle_coalesced_batch_def Let_def) blast
  ultimately show ?thesis
    using True round by (metis actor_round_def fst_conv prod.inject snd_conv)
next
  case False
  assume "actor_round env w cmd queued t = ((t', rs), rest)"
  with False handle_command_answers [of cmd env w t] show ?thesis
    by (auto simp: actor_round_def case_prod_unfold Let_def)
qed

text \<open>The commands that reach the channel before the token is cancelled.\<close>

fun sent_before_cancel :: "loop_event list \<Rightarrow> command list" where
  "sent_before_cancel [] = []"
| "sent_before_cancel (Cancelled # evs) = []"
| "sent_before_cancel (Sent cmds # evs) = cmds @ sent_before_cancel evs"

abbreviation requests :: "command list \<Rightarrow> command list" where
  "requests \<equiv> filter (\<lambda>c. \<not> is_coalescable c)"

text \<open>\<open>served taken n rs m\<close>: the commands \<open>taken\<close> have got the replies \<open>rs\<close> in the rounds from \<open>n\<close> to \<open>m\<close>.\<close>

definition served :: "command list \<Rightarrow> nat \<Rightarrow> reply list \<Rightarrow> nat \<Rightarrow> bool" where
  "served taken n rs m \<longleftrightarrow> list_all2 answers (requests taken) rs \<and> m \<le> n + length taken"

lemma served_round:
  assumes "actor_round env w cmd queued t = ((t1, rs1), rest)" and "served taken (Suc n) rs2 m" and "rest @ later = taken @ left"
  shows "\<exists>taken'. served taken' n (rs1 @ rs2) m \<and> (cmd # queued) @ later = taken' @ left"
  using actor_round_answers [OF assms(1)]
proof
  assume drained: "rest = [] \<and> list_all2 answers (requests (cmd # queued)) rs1"
  then have "list_all2 answers (requests (cmd # queued) @ requests taken) (rs1 @ rs2)"
    using assms(2) by (simp only: served_def list_all2_appendI)
  then have "served ((cmd # queued) @ taken) n (rs1 @ rs2) m" using assms(2) by (auto simp: served_def)
  moreover have "(cmd # queued) @ later = ((cmd # queued) @ taken) @ left" using drained assms(3) by simp
  ultimately show ?thesis by blast
next
  assume one: "rest = queued \<and> \<not> is_coalescable cmd \<and> list_all2 answers [cmd] rs1"
  then have "list_all2 answers ([cmd] @ requests taken) (rs1 @ rs2)"
    using assms(2) by (simp only: served_def list_all2_appendI)
  then have "served (cmd # taken) n (rs1 @ rs2) m" using one assms(2) by (simp add: served_def)
  moreover have "(cmd # queued) @ later = (cmd # taken) @ left" using one assms(3) by simp
  ultimately show ?thesis by blast
qed

lemma actor_run_serves:
  "actor_run env ws n evs queue t = (t', rs, left, m) \<Longrightarrow>
   (\<exists>taken. served taken n rs m \<and> queue @ sent_before_cancel evs = taken @ left) \<and> (Cancelled \<notin> set evs \<longrightarrow> left = [])"
proof (induction env ws n evs queue t arbitrary: t' rs left m rule: actor_run.induct)
  case (1 env ws n t)
  then show ?case by (auto simp: served_def)
next
  case (2 env ws n cmd queued t)
  obtain t1 rs1 rest where round: "actor_round env (ws n) cmd queued t = ((t1, rs1), rest)" by (metis prod.exhaust)
  obtain t2 rs2 left2 m2 where run: "actor_run env ws (Suc n) [] rest t1 = (t2, rs2, left2, m2)" by (metis prod.exhaust)
  have res: "rs = rs1 @ rs2" "left = left2" "m = m2" using "2.prems" by (simp_all add: round run)
  note IH = "2.IH" [OF refl, unfolded round fst_conv snd_conv, OF run]
  then obtain taken where "served taken (Suc n) rs2 m2" "rest @ [] = taken @ left2" by auto
  from served_round [OF round this] IH show ?case by (auto simp: res)
next
  case (3 env ws n evs queue t)
  then show ?case by (auto simp: served_def)
next
  case (4 env ws n cmds evs queue t)
  show ?case
  proof (cases "queue @ cmds")
    case Nil
    then show ?thesis using "4.IH"(1) [OF Nil] "4.prems" by simp
  next
    case (Cons cmd queued)
    obtain t1 rs1 rest where round: "actor_round env (ws n) cmd queued t = ((t1, rs1), rest)" by (metis prod.exhaust)
    obtain t2 rs2 left2 m2 where run: "actor_run env ws (Suc n) evs rest t1 = (t2, rs2, left2, m2)" by (metis prod.exhaust)
    have res: "rs = rs1 @ rs2" "left = left2" "m = m2" using "4.prems" by (simp_all add: Cons round run)
    note IH = "4.IH"(2) [OF Cons refl, unfolded round fst_conv snd_conv, OF run]
    then obtain taken where "served taken (Suc n) rs2 m2" "rest @ sent_before_cancel evs = taken @ left2" by auto
    from served_round [OF round this] IH Cons show ?thesis by (auto simp: res simp flip: append_assoc)
  qed
qed



end
