(* ===== verification/Hunk_Loc.thy ===== *)
theory Hunk_Loc
  imports Hunk_Guarantees
begin

text \<open>
  Line counts of hunks (\<open>xai-hunk-tracker/src/loc\<close>): the sink that turns the tracker's events into attribution
  records, and what the records of a hunk sum up to.

  The writer is a parameter: \<open>accepts r\<close> says whether writing \<open>r\<close> succeeds, and a record that fails is dropped.
  \<open>i64\<close> is \<open>int\<close>; line counts stay far below its bounds.
\<close>

datatype author_type = Agent | Human

datatype source_type = AgentEditSource | ExternalEditOnAgentFileSource | ExternalSource

datatype event_type = Added | Updated | Removed

definition author_type_display :: "author_type \<Rightarrow> string" where
  "author_type_display a = (case a of Agent \<Rightarrow> ''agent'' | Human \<Rightarrow> ''human'')"

definition source_type_display :: "source_type \<Rightarrow> string" where
  "source_type_display s =
     (case s of AgentEditSource \<Rightarrow> ''agent_edit'' | ExternalEditOnAgentFileSource \<Rightarrow> ''external_edit_on_agent_file''
      | ExternalSource \<Rightarrow> ''external'')"

definition event_type_display :: "event_type \<Rightarrow> string" where
  "event_type_display e = (case e of Added \<Rightarrow> ''added'' | Updated \<Rightarrow> ''updated'' | Removed \<Rightarrow> ''removed'')"

record hunk_record =
  rec_hunk_id :: string
  rec_file_path :: string
  rec_hunk_start :: nat
  rec_hunk_end :: nat
  rec_lines_added :: int
  rec_lines_removed :: int
  rec_author_type :: "author_type option"
  rec_author_id :: "string option"
  rec_agent_id :: string
  rec_session_id :: string
  rec_timestamp :: nat
  rec_prompt_index :: "nat option"
  rec_source_type :: "source_type option"
  rec_event_type :: event_type
  rec_removal_reason :: "removal_reason option"

datatype loc_aggregate =
    LinesChanged author_type int int string
  | LinesReverted int int

record loc_ctx =
  ctx_session_id :: string
  ctx_agent_id :: string
  ctx_user_id :: "string option"
  has_aggregate_tx :: bool

definition attribution ::
  "loc_ctx \<Rightarrow> hunk_source \<Rightarrow> author_type \<times> string option \<times> nat option \<times> source_type" where
  "attribution ctx src =
     (case src of
        AgentEdit i \<Rightarrow> (Agent, Some (ctx_agent_id ctx), Some i, AgentEditSource)
      | ExternalEditOnAgentFile \<Rightarrow> (Human, ctx_user_id ctx, None, ExternalEditOnAgentFileSource)
      | External \<Rightarrow> (Human, ctx_user_id ctx, None, ExternalSource))"

definition from_hunk :: "loc_ctx \<Rightarrow> hunk \<Rightarrow> event_type \<Rightarrow> hunk_source \<Rightarrow> hunk_record" where
  "from_hunk ctx h ev src =
     (let (author, author_id, prompt, source) = attribution ctx src;
          li = line_info h;
          (start, count) = (if new_count li = 0 then (old_start li, old_count li) else (new_start li, new_count li))
      in \<lparr>rec_hunk_id = hunk_id h, rec_file_path = hunk_path h, rec_hunk_start = start,
          rec_hunk_end = (if count = 0 then start else start + count - 1),
          rec_lines_added = int (new_count li), rec_lines_removed = int (old_count li),
          rec_author_type = Some author, rec_author_id = author_id, rec_agent_id = ctx_agent_id ctx,
          rec_session_id = ctx_session_id ctx, rec_timestamp = created_at h, rec_prompt_index = prompt,
          rec_source_type = Some source, rec_event_type = ev, rec_removal_reason = None\<rparr>)"

record loc_sink =
  acc :: "string \<Rightarrow> (int \<times> int) option"
  records :: "hunk_record list"
  aggregates :: "loc_aggregate list"

definition sink_new :: loc_sink where
  "sink_new = \<lparr>acc = (\<lambda>_. None), records = [], aggregates = []\<rparr>"

definition send_aggregate :: "loc_ctx \<Rightarrow> loc_aggregate \<Rightarrow> loc_sink \<Rightarrow> loc_sink" where
  "send_aggregate ctx a s = (if has_aggregate_tx ctx then s\<lparr>aggregates := aggregates s @ [a]\<rparr> else s)"

definition write_record :: "(hunk_record \<Rightarrow> bool) \<Rightarrow> hunk_record \<Rightarrow> loc_sink \<Rightarrow> loc_sink" where
  "write_record accepts r s = (if accepts r then s\<lparr>records := records s @ [r]\<rparr> else s)"

definition accumulate :: "string \<Rightarrow> int \<Rightarrow> int \<Rightarrow> loc_sink \<Rightarrow> loc_sink" where
  "accumulate hid a r s =
     (let (a0, r0) = (case acc s hid of None \<Rightarrow> (0, 0) | Some e \<Rightarrow> e)
      in s\<lparr>acc := (acc s)(hid \<mapsto> (a0 + a, r0 + r))\<rparr>)"

definition count_lines ::
  "loc_ctx \<Rightarrow> (hunk_record \<Rightarrow> bool) \<Rightarrow> author_type \<Rightarrow> hunk_record \<Rightarrow> loc_sink \<Rightarrow> loc_sink" where
  "count_lines ctx accepts default_author r s =
     write_record accepts r
       (send_aggregate ctx
          (LinesChanged (case rec_author_type r of None \<Rightarrow> default_author | Some a \<Rightarrow> a)
             (rec_lines_added r) (rec_lines_removed r) (rec_file_path r))
          (accumulate (rec_hunk_id r) (rec_lines_added r) (rec_lines_removed r) s))"

definition removal_record ::
  "loc_ctx \<Rightarrow> nat \<Rightarrow> string \<Rightarrow> string \<Rightarrow> removal_reason \<Rightarrow> int \<Rightarrow> int \<Rightarrow> hunk_record" where
  "removal_record ctx now p hid reason a r =
     \<lparr>rec_hunk_id = hid, rec_file_path = p, rec_hunk_start = 0, rec_hunk_end = 0,
      rec_lines_added = - a, rec_lines_removed = - r, rec_author_type = None, rec_author_id = None,
      rec_agent_id = ctx_agent_id ctx, rec_session_id = ctx_session_id ctx, rec_timestamp = now,
      rec_prompt_index = None, rec_source_type = None, rec_event_type = Removed, rec_removal_reason = Some reason\<rparr>"

definition handle_event ::
  "loc_ctx \<Rightarrow> (hunk_record \<Rightarrow> bool) \<Rightarrow> nat \<Rightarrow> hunk_event \<Rightarrow> loc_sink \<Rightarrow> loc_sink" where
  "handle_event ctx accepts now ev s =
     (case ev of
        HunkAdded _ h \<Rightarrow> count_lines ctx accepts Agent (from_hunk ctx h Added (hunk_source h)) s
      | HunkContentChanged _ h trigger prev_added prev_removed \<Rightarrow>
          count_lines ctx accepts Human
            ((from_hunk ctx h Updated trigger)
               \<lparr>rec_lines_added := int (new_count (line_info h)) - int prev_added,
                rec_lines_removed := int (old_count (line_info h)) - int prev_removed\<rparr>) s
      | HunkRemoved p hid reason \<Rightarrow>
          (let s1 = s\<lparr>acc := (acc s)(hid := None)\<rparr>
           in if reason = Accepted then s1
              else case acc s hid of
                     None \<Rightarrow> s1
                   | Some (a, r) \<Rightarrow>
                       if a \<noteq> 0 \<or> r \<noteq> 0
                       then write_record accepts (removal_record ctx now p hid reason a r)
                              (send_aggregate ctx (LinesReverted (max a 0) (max r 0)) s1)
                       else s1)
      | _ \<Rightarrow> s)"

text \<open>The task's loop over the events it receives, on cancellation the ones still queued included; \<open>clock n\<close> is the time
  of the \<open>n\<close>-th event.\<close>

fun run_loc_sink ::
  "loc_ctx \<Rightarrow> (hunk_record \<Rightarrow> bool) \<Rightarrow> (nat \<Rightarrow> nat) \<Rightarrow> nat \<Rightarrow> hunk_event list \<Rightarrow> loc_sink \<Rightarrow> loc_sink" where
  "run_loc_sink ctx accepts clock n [] s = s"
| "run_loc_sink ctx accepts clock n (ev # evs) s =
     run_loc_sink ctx accepts clock (Suc n) evs (handle_event ctx accepts (clock n) ev s)"

section \<open>Sums of records\<close>

definition lines_of :: "string \<Rightarrow> hunk_record list \<Rightarrow> int \<times> int" where
  "lines_of hid rs =
     (sum_list (map rec_lines_added (filter (\<lambda>r. rec_hunk_id r = hid) rs)),
      sum_list (map rec_lines_removed (filter (\<lambda>r. rec_hunk_id r = hid) rs)))"

definition pending_lines :: "string \<Rightarrow> loc_sink \<Rightarrow> int \<times> int" where
  "pending_lines hid s = (case acc s hid of None \<Rightarrow> (0, 0) | Some e \<Rightarrow> e)"

definition accepts_hunk :: "string \<Rightarrow> hunk_event \<Rightarrow> bool" where
  "accepts_hunk hid ev = (case ev of HunkRemoved _ h reason \<Rightarrow> h = hid \<and> reason = Accepted | _ \<Rightarrow> False)"

lemma lines_of_append: "lines_of hid (rs @ [r]) =
    (if rec_hunk_id r = hid then (fst (lines_of hid rs) + rec_lines_added r, snd (lines_of hid rs) + rec_lines_removed r)
     else lines_of hid rs)"
  by (simp add: lines_of_def)

lemma count_lines_balance:
  assumes "\<And>r. accepts r" and "lines_of hid (records s) = pending_lines hid s"
  shows "lines_of hid (records (count_lines ctx accepts a r s)) = pending_lines hid (count_lines ctx accepts a r s)"
  using assms
  by (auto simp: count_lines_def write_record_def send_aggregate_def accumulate_def lines_of_append pending_lines_def
      split: option.splits)

lemma handle_event_balance:
  assumes "\<And>r. accepts r" and "\<not> accepts_hunk hid ev" and "lines_of hid (records s) = pending_lines hid s"
  shows "lines_of hid (records (handle_event ctx accepts now ev s)) = pending_lines hid (handle_event ctx accepts now ev s)"
proof (cases ev)
  case (HunkRemoved p h reason)
  with assms show ?thesis
    by (auto simp: handle_event_def write_record_def send_aggregate_def removal_record_def lines_of_append
        pending_lines_def accepts_hunk_def Let_def split: option.splits)
qed (use assms count_lines_balance in \<open>simp_all add: handle_event_def\<close>)

text \<open>The run as a fold over the events with their times, as a machine on which only accepting the hunk breaks the balance.\<close>

definition sink_step ::
  "loc_ctx \<Rightarrow> (hunk_record \<Rightarrow> bool) \<Rightarrow> loc_sink \<Rightarrow> nat \<times> hunk_event \<Rightarrow> loc_sink" where
  "sink_step ctx accepts s e = handle_event ctx accepts (fst e) (snd e) s"

interpretation sink: guarded_machine "sink_step ctx accepts" "\<lambda>e. \<not> accepts_hunk hid (snd e)"
  "\<lambda>s. (\<forall>r. accepts r) \<longrightarrow> lines_of hid (records s) = pending_lines hid s" for ctx accepts hid
  by unfold_locales (unfold sink_step_def, blast intro: handle_event_balance)

lemma run_loc_sink_foldl:
  "run_loc_sink ctx accepts clock n evs s =
   foldl (sink_step ctx accepts) s (zip (map clock [n..<n + length evs]) evs)"
  by (induction evs arbitrary: n s) (simp_all add: upt_conv_Cons sink_step_def del: upt_Suc)

lemma records_balance:
  assumes "\<And>r. accepts r" and "list_all (\<lambda>ev. \<not> accepts_hunk hid ev) evs"
    and "lines_of hid (records s) = pending_lines hid s"
  shows "lines_of hid (records (run_loc_sink ctx accepts clock n evs s)) =
    pending_lines hid (run_loc_sink ctx accepts clock n evs s)"
proof -
  have "list_all (\<lambda>e. \<not> accepts_hunk hid (snd e)) (zip (map clock [n..<n + length evs]) evs)"
    using assms(2) by (auto simp: list_all_iff dest: set_zip_rightD)
  with assms(1,3) show ?thesis
    unfolding run_loc_sink_foldl using sink.guarded_run_inv [of accepts hid s _ ctx] by blast
qed

lemma run_append:
  "run_loc_sink ctx accepts clock n (evs @ evs') s =
   run_loc_sink ctx accepts clock (n + length evs) evs' (run_loc_sink ctx accepts clock n evs s)"
  by (induction evs arbitrary: n s) simp_all

text \<open>C22: undone work counts for nothing. When no record is lost, the records of a hunk that was never accepted sum up to
  the lines it has pending, and to zero for lines added and removed once it has been rejected or superseded.\<close>

theorem undone_hunks_sum_to_zero:
  assumes "\<And>r. accepts r" and "list_all (\<lambda>ev. \<not> accepts_hunk hid ev) evs" and "reason \<noteq> Accepted"
  shows "lines_of hid (records (run_loc_sink ctx accepts clock n evs sink_new)) =
      pending_lines hid (run_loc_sink ctx accepts clock n evs sink_new) \<and>
    lines_of hid (records (run_loc_sink ctx accepts clock n (evs @ [HunkRemoved p hid reason]) sink_new)) = (0, 0)"
proof -
  have start: "lines_of hid (records sink_new) = pending_lines hid sink_new"
    by (simp add: lines_of_def sink_new_def pending_lines_def)
  have whole: "list_all (\<lambda>ev. \<not> accepts_hunk hid ev) (evs @ [HunkRemoved p hid reason])"
    using assms(2,3) by (simp add: accepts_hunk_def)
  have "pending_lines hid (run_loc_sink ctx accepts clock n (evs @ [HunkRemoved p hid reason]) sink_new) = (0, 0)"
    using assms(3)
    by (simp add: run_append handle_event_def pending_lines_def write_record_def send_aggregate_def Let_def
        split: option.split prod.split)
  with records_balance [OF assms(1) assms(2) start] records_balance [OF assms(1) whole start] show ?thesis by simp
qed

definition sample_ctx :: loc_ctx where
  "sample_ctx = \<lparr>ctx_session_id = ''s'', ctx_agent_id = ''a'', ctx_user_id = None, has_aggregate_tx = True\<rparr>"

definition sample_events :: "hunk_event list" where
  "sample_events = [HunkAdded ''/r/f'' (hd sample_hunks)]"

lemma sample_not_accepted: "list_all (\<lambda>ev. \<not> accepts_hunk [] ev) sample_events"
  by (simp add: sample_events_def accepts_hunk_def)

lemma count_lines_pending:
  "pending_lines (rec_hunk_id r) (count_lines ctx accepts a r s) =
     (fst (pending_lines (rec_hunk_id r) s) + rec_lines_added r, snd (pending_lines (rec_hunk_id r) s) + rec_lines_removed r)"
  by (simp add: count_lines_def write_record_def send_aggregate_def accumulate_def pending_lines_def split: option.splits)

lemma from_hunk_fields [simp]:
  "rec_hunk_id (from_hunk ctx h ev src) = hunk_id h"
  "rec_lines_added (from_hunk ctx h ev src) = int (new_count (line_info h))"
  "rec_lines_removed (from_hunk ctx h ev src) = int (old_count (line_info h))"
  by (simp_all add: from_hunk_def Let_def split: prod.split)

lemma sample_pending: "pending_lines [] (run_loc_sink sample_ctx (\<lambda>_. True) id 0 sample_events sink_new) = (1, 1)"
proof -
  have "pending_lines (hunk_id (hd sample_hunks))
      (run_loc_sink sample_ctx (\<lambda>_. True) id 0 sample_events sink_new) =
    (int (new_count (line_info (hd sample_hunks))), int (old_count (line_info (hd sample_hunks))))"
    using count_lines_pending [of "from_hunk sample_ctx (hd sample_hunks) Added (hunk_source (hd sample_hunks))"]
    by (simp add: sample_events_def handle_event_def) (simp add: pending_lines_def sink_new_def)
  then show ?thesis by (simp add: sample_first) (simp add: sample_hunks_eq build_def)
qed

theorem undone_hunks_sum_to_zero_witness:
  "lines_of [] (records (run_loc_sink sample_ctx (\<lambda>_. True) id 0 sample_events sink_new)) = (1, 1) \<and>
   lines_of [] (records (run_loc_sink sample_ctx (\<lambda>_. True) id 0
     (sample_events @ [HunkRemoved ''/r/f'' [] Rejected]) sink_new)) = (0, 0)"
  using undone_hunks_sum_to_zero [of "\<lambda>_. True", OF TrueI sample_not_accepted, of Rejected sample_ctx id 0 "''/r/f''"]
  unfolding sample_pending by blast

end
