(* ===== verification/Bash_Wrappers.thy ===== *)
theory Bash_Wrappers
  imports Rust_Prelude
begin

text \<open>
  Command words (\<open>bash_command_splitting.rs\<close>, the part that works on an argument vector): shell
  literals, the scan of \<open>env\<close> options, peeling of wrapper commands (\<open>timeout\<close>, \<open>nice\<close>, \<open>env\<close>, ...)
  and of the transparent prefixes \<open>exec\<close>, \<open>command\<close> and \<open>builtin\<close>, and their bounded alternation
  \<open>normalize_command_words\<close>.

  An argument vector is a \<open>string list\<close>. The slices the code returns are suffixes of the vector it
  got, so two slices are the same object exactly when they have the same length. The \<open>while\<close> loops
  over an index are recursions on the words from that index on; the index is carried where the
  result needs it.
\<close>

section \<open>Shell literals\<close>

definition shell_escapable :: "char \<Rightarrow> bool" where
  "shell_escapable n =
     (n = CHR ''$'' \<or> n = CHR ''`'' \<or> n = CHR 0x22 \<or> n = backslash \<or> n = newline)"

abbreviation single_quote :: char where
  "single_quote \<equiv> CHR 0x27"

abbreviation double_quote :: char where
  "double_quote \<equiv> CHR 0x22"

text \<open>The loop of \<open>decode_shell_literal_spelling\<close>, with the open quote and the output so far.\<close>

fun decode_literal_loop :: "char option \<Rightarrow> string \<Rightarrow> string \<Rightarrow> string option" where
  "decode_literal_loop quote [] out = (if quote = None then Some out else None)"
| "decode_literal_loop quote (ch # chars) out =
     (if quote = None \<and> (ch = single_quote \<or> ch = double_quote)
        then decode_literal_loop (Some ch) chars out
      else if quote = Some ch then decode_literal_loop None chars out
      else if quote = None \<and> ch = backslash then
        (case chars of [] \<Rightarrow> None | n # chars' \<Rightarrow> decode_literal_loop quote chars' (out @ [n]))
      else if quote = Some double_quote \<and> ch = backslash then
        (case chars of
           [] \<Rightarrow> None
         | n # chars' \<Rightarrow>
             if shell_escapable n then decode_literal_loop quote chars' (out @ [n])
             else decode_literal_loop quote chars' (out @ [backslash, n]))
      else decode_literal_loop quote chars (out @ [ch]))"

definition decode_shell_literal_spelling :: "string \<Rightarrow> string option" where
  "decode_shell_literal_spelling raw = decode_literal_loop None raw []"

section \<open>The scan of \<open>env\<close>\<close>

definition is_setup_command :: "string list \<Rightarrow> bool" where
  "is_setup_command cmd =
     (case cmd of
        [] \<Rightarrow> True
      | h # _ \<Rightarrow> h \<in> {''cd'', ''pushd'', ''popd'', ''export'', ''unset'', ''set'', ''sleep'', ''timeout''})"

definition is_env_assignment :: "string \<Rightarrow> bool" where
  "is_env_assignment tok =
     (case find_char tok (CHR ''='') of
        None \<Rightarrow> False
      | Some eq \<Rightarrow>
          (case get_to tok eq of
             None \<Rightarrow> False
           | Some [] \<Rightarrow> False
           | Some (b # name) \<Rightarrow>
               (is_ascii_alphabetic b \<or> b = CHR ''_'') \<and>
               list_all (\<lambda>c. is_ascii_alphanumeric c \<or> c = CHR ''_'') (b # name)))"

definition decode_env_option_token :: "string \<Rightarrow> string" where
  "decode_env_option_token raw =
     (if single_quote \<notin> set raw \<and> double_quote \<notin> set raw then raw
      else case decode_shell_literal_spelling raw of Some decoded \<Rightarrow> decoded | None \<Rightarrow> raw)"

definition is_high_confidence_env_s_payload :: "string \<Rightarrow> bool" where
  "is_high_confidence_env_s_payload s =
     (s \<noteq> [] \<and> CHR 0x00 \<notin> set s \<and>
      \<not> list_ex (\<lambda>c. c = single_quote \<or> c = double_quote \<or> c = backslash \<or> c = CHR ''#'' \<or>
                     c = CHR ''`'' \<or> c = CHR ''$'' \<or> c = newline \<or> c = CHR 0x0D) s)"

definition take_high_confidence_payload :: "string \<Rightarrow> string option" where
  "take_high_confidence_payload raw =
     (if is_high_confidence_env_s_payload raw then Some raw else None)"

datatype env_short =
  SplitStringNext
| SplitStringGlued string
| SplitStringDetect
| NoArg
| ArgNeedNext char
| ArgGlued char
| Uncertain

text \<open>The loop over the option letters; all letters before the current one are ASCII, so a glued
  operand exists exactly when bytes are left.\<close>

fun classify_env_letters :: "string \<Rightarrow> env_short" where
  "classify_env_letters [] = NoArg"
| "classify_env_letters (c # rest) =
     (if c = CHR ''i'' \<or> c = CHR ''v'' \<or> c = CHR ''0'' then classify_env_letters rest
      else if c = CHR ''S'' then SplitStringDetect
      else if c = CHR ''u'' \<or> c = CHR ''C'' \<or> c = CHR ''P'' \<or> c = CHR ''a''
        then (if rest \<noteq> [] then ArgGlued c else ArgNeedNext c)
      else Uncertain)"

definition classify_env_short :: "string \<Rightarrow> env_short" where
  "classify_env_short tok =
     (if \<not> starts_with tok ''-'' \<or> starts_with tok ''--'' \<or> tok = ''-'' then Uncertain
      else case get_from tok 1 of
        None \<Rightarrow> Uncertain
      | Some [] \<Rightarrow> Uncertain
      | Some (b # body) \<Rightarrow>
          (case strip_prefix (b # body) ''S'' of
             Some rest \<Rightarrow> (if rest = [] then SplitStringNext else SplitStringGlued rest)
           | None \<Rightarrow> classify_env_letters (b # body)))"

record env_scan =
  chdir :: "string option"
  scan_split_string :: bool
  options_uncertain :: bool
  split_string_script :: "string option"
  command_start :: nat

definition scan_end :: "string option \<Rightarrow> nat \<Rightarrow> env_scan" where
  "scan_end dir i =
     \<lparr>chdir = dir, scan_split_string = False, options_uncertain = False,
      split_string_script = None, command_start = i\<rparr>"

definition scan_uncertain :: "string option \<Rightarrow> nat \<Rightarrow> env_scan" where
  "scan_uncertain dir i = (scan_end dir i)\<lparr>options_uncertain := True\<rparr>"

definition scan_split :: "string option \<Rightarrow> nat \<Rightarrow> string option \<Rightarrow> env_scan" where
  "scan_split dir i script =
     (scan_end dir i)\<lparr>scan_split_string := True, split_string_script := script\<rparr>"

text \<open>The payload of \<open>-S\<close> or \<open>--split-string\<close> given as a word of its own.\<close>

definition next_payload :: "string list \<Rightarrow> string option" where
  "next_payload rest = (case rest of [] \<Rightarrow> None | raw # _ \<Rightarrow> take_high_confidence_payload raw)"

text \<open>The body of the loop of \<open>env_scan\<close> for one word: it ends the scan, or goes on after this word
  (\<open>Advance\<close>) or after this word and its operand (\<open>AdvanceTwo\<close>, the effect of
  \<open>take_option_operand\<close>), with the last \<open>-C\<close> or \<open>--chdir\<close> seen.\<close>

datatype scan_step =
  Finished env_scan
| Advance "string option"
| AdvanceTwo "string option"

definition take_option_operand ::
  "string list \<Rightarrow> nat \<Rightarrow> string option \<Rightarrow> (string \<Rightarrow> string option) \<Rightarrow> scan_step" where
  "take_option_operand rest i dir k =
     (case rest of [] \<Rightarrow> Finished (scan_uncertain dir i) | v # _ \<Rightarrow> AdvanceTwo (k v))"

definition env_long_option :: "string \<Rightarrow> string list \<Rightarrow> nat \<Rightarrow> string option \<Rightarrow> scan_step" where
  "env_long_option tok rest i dir =
     (if tok = ''--chdir'' then take_option_operand rest i dir Some
      else case strip_prefix tok ''--chdir='' of
        Some d \<Rightarrow> Advance (Some d)
      | None \<Rightarrow>
      if tok = ''--unset'' \<or> tok = ''--path'' \<or> tok = ''--argv0''
        then take_option_operand rest i dir (\<lambda>_. dir)
      else if starts_with tok ''--unset='' \<or> starts_with tok ''--path='' \<or> starts_with tok ''--argv0=''
        then Advance dir
      else if tok = ''--ignore-environment'' \<or> tok = ''--null'' \<or> tok = ''--debug'' \<or>
          tok = ''--version'' \<or> tok = ''--help''
        then Advance dir
      else if tok = ''--split-string'' then Finished (scan_split dir i (next_payload rest))
      else case strip_prefix tok ''--split-string='' of
        Some payload \<Rightarrow>
          Finished (scan_split dir i
            (take_high_confidence_payload
              (case strip_prefix (decode_env_option_token tok) ''--split-string='' of
                 Some p \<Rightarrow> p | None \<Rightarrow> payload)))
      | None \<Rightarrow> Finished (scan_uncertain dir i))"

definition env_short_option :: "string \<Rightarrow> string list \<Rightarrow> nat \<Rightarrow> string option \<Rightarrow> scan_step" where
  "env_short_option tok rest i dir =
     (case classify_env_short (decode_env_option_token tok) of
        SplitStringNext \<Rightarrow> Finished (scan_split dir i (next_payload rest))
      | SplitStringGlued payload \<Rightarrow>
          Finished (scan_split dir i (take_high_confidence_payload payload))
      | SplitStringDetect \<Rightarrow> Finished (scan_split dir i None)
      | NoArg \<Rightarrow> Advance dir
      | ArgNeedNext kind \<Rightarrow>
          take_option_operand rest i dir (\<lambda>v. if kind = CHR ''C'' then Some v else dir)
      | ArgGlued kind \<Rightarrow>
          Advance (if kind = CHR ''C''
                   then Some (case strip_prefix tok ''-C'' of Some d \<Rightarrow> d | None \<Rightarrow> [])
                   else dir)
      | Uncertain \<Rightarrow> Finished (scan_uncertain dir i))"

definition env_scan_word :: "string \<Rightarrow> string list \<Rightarrow> nat \<Rightarrow> string option \<Rightarrow> scan_step" where
  "env_scan_word tok rest i dir =
     (if tok = ''--'' then Finished (scan_end dir (i + 1))
      else if tok = ''-'' then Advance dir
      else if \<not> starts_with tok ''-'' then
        (if is_env_assignment tok then Advance dir else Finished (scan_end dir i))
      else if starts_with tok ''--'' then env_long_option tok rest i dir
      else env_short_option tok rest i dir)"

fun env_scan_loop :: "string list \<Rightarrow> nat \<Rightarrow> string option \<Rightarrow> env_scan" where
  "env_scan_loop [] i dir = scan_end dir i"
| "env_scan_loop (tok # rest) i dir =
     (case env_scan_word tok rest i dir of
        Finished s \<Rightarrow> s
      | Advance dir' \<Rightarrow> env_scan_loop rest (i + 1) dir'
      | AdvanceTwo dir' \<Rightarrow> env_scan_loop (drop 1 rest) (i + 2) dir')"

definition env_scan :: "string list \<Rightarrow> env_scan" where
  "env_scan cmd = env_scan_loop (drop 1 cmd) 1 None"

definition head_basename :: "string list \<Rightarrow> string option" where
  "head_basename cmd = (case cmd of [] \<Rightarrow> None | h # _ \<Rightarrow> Some (basename h))"

definition env_split_string_script :: "string list \<Rightarrow> string option" where
  "env_split_string_script words =
     (if head_basename words \<noteq> Some ''env'' then None
      else let scan = env_scan words
           in if \<not> scan_split_string scan then None else split_string_script scan)"

section \<open>Wrapper commands\<close>

text \<open>The option loop of the wrappers: a word starting with a dash is skipped, with its operand when
  it is one of the options that take one. The result is the index after the options, which lies
  one past the end when such an operand is missing.\<close>

fun skip_options :: "string list \<Rightarrow> string list \<Rightarrow> nat \<Rightarrow> nat" where
  "skip_options with_operand [] i = i"
| "skip_options with_operand (t # rest) i =
     (if \<not> starts_with t ''-'' then i
      else if t \<in> set with_operand then
        (case rest of [] \<Rightarrow> i + 2 | _ # rest' \<Rightarrow> skip_options with_operand rest' (i + 2))
      else skip_options with_operand rest (i + 1))"

text \<open>\<open>cmd.get(i..)\<close>, refusing an empty rest.\<close>

definition inner_from :: "string list \<Rightarrow> nat \<Rightarrow> string list option" where
  "inner_from cmd i = (if i < length cmd then Some (drop i cmd) else None)"

text \<open>A wrapper with one mandatory word (a duration, a priority) after its options.\<close>

definition inner_after_mandatory :: "string list \<Rightarrow> nat \<Rightarrow> string list option" where
  "inner_after_mandatory cmd i = (if length cmd \<le> i then None else inner_from cmd (i + 1))"

definition strip_wrapper_command :: "string list \<Rightarrow> string list option" where
  "strip_wrapper_command cmd =
     (case head_basename cmd of
        None \<Rightarrow> None
      | Some head \<Rightarrow>
          if head = ''timeout'' then
            inner_after_mandatory cmd
              (skip_options [''-k'', ''-s'', ''--kill-after'', ''--signal''] (drop 1 cmd) 1)
          else if head = ''nice'' then
            inner_from cmd (skip_options [''-n'', ''--adjustment''] (drop 1 cmd) 1)
          else if head = ''ionice'' then
            inner_from cmd
              (skip_options [''-c'', ''-n'', ''-p'', ''-P'', ''-u'', ''--class'', ''--classdata'', ''--pid'',
                 ''--pgid'', ''--uid''] (drop 1 cmd) 1)
          else if head = ''chrt'' then
            inner_after_mandatory cmd (skip_options [] (drop 1 cmd) 1)
          else if head = ''stdbuf'' then
            inner_from cmd (skip_options [''-i'', ''-o'', ''-e''] (drop 1 cmd) 1)
          else if head = ''env'' then
            (let scan = env_scan cmd
             in if scan_split_string scan \<or> options_uncertain scan then None
                else inner_from cmd (command_start scan))
          else None)"

definition is_wrapper_command :: "string list \<Rightarrow> bool" where
  "is_wrapper_command words =
     (case head_basename words of
        None \<Rightarrow> False
      | Some h \<Rightarrow> h \<in> {''timeout'', ''nice'', ''ionice'', ''chrt'', ''stdbuf'', ''env''})"

definition MAX_WRAPPER_DEPTH :: nat where
  "MAX_WRAPPER_DEPTH = 8"

definition MAX_INLINE_SHELL_DEPTH :: nat where
  "MAX_INLINE_SHELL_DEPTH = 8"

record checked_wrapper_peel =
  peel_words :: "string list"
  peel_chdir :: bool
  peel_split_string :: bool
  peel_env_uncertain :: bool
  peel_exhausted :: bool

text \<open>\<open>for _ in 0..n\<close> with the flags gathered so far in \<open>acc\<close>.\<close>

definition scan_into :: "string list \<Rightarrow> checked_wrapper_peel \<Rightarrow> checked_wrapper_peel" where
  "scan_into current acc =
     (if head_basename current = Some ''env'' then
        let scan = env_scan current
        in acc\<lparr>peel_words := current,
               peel_chdir := peel_chdir acc \<or> chdir scan \<noteq> None,
               peel_split_string := peel_split_string acc \<or> scan_split_string scan,
               peel_env_uncertain := peel_env_uncertain acc \<or> options_uncertain scan\<rparr>
      else acc\<lparr>peel_words := current\<rparr>)"

fun unwrap_loop :: "nat \<Rightarrow> string list \<Rightarrow> checked_wrapper_peel \<Rightarrow> checked_wrapper_peel" where
  "unwrap_loop 0 current acc =
     acc\<lparr>peel_words := current,
         peel_exhausted := is_wrapper_command current \<and> strip_wrapper_command current \<noteq> None\<rparr>"
| "unwrap_loop (Suc n) current acc =
     (let acc' = scan_into current acc
      in case strip_wrapper_command current of
           Some inner \<Rightarrow> unwrap_loop n inner acc'
         | None \<Rightarrow> acc'\<lparr>peel_exhausted := False\<rparr>)"

definition unwrap_wrappers_checked :: "string list \<Rightarrow> checked_wrapper_peel" where
  "unwrap_wrappers_checked words =
     unwrap_loop MAX_WRAPPER_DEPTH words
       \<lparr>peel_words = words, peel_chdir = False, peel_split_string = False,
        peel_env_uncertain = False, peel_exhausted = False\<rparr>"

definition unwrap_wrappers :: "string list \<Rightarrow> string list" where
  "unwrap_wrappers words = peel_words (unwrap_wrappers_checked words)"

definition unwrap_command_wrappers :: "string list \<Rightarrow> string list" where
  "unwrap_command_wrappers words = unwrap_wrappers words"

section \<open>Transparent prefixes\<close>

datatype transparent_strip = NotPrefix | Peeled "string list" | StripAmbiguous

abbreviation nul_word :: string where
  "nul_word \<equiv> [CHR 0x00]"

definition peeled_from :: "string list \<Rightarrow> transparent_strip" where
  "peeled_from rest = (if rest = [] then NotPrefix else Peeled rest)"

text \<open>\<open>exec [-cl] [-a name] [command]\<close>: the loop on the words after \<open>exec\<close>.\<close>

definition all_letters :: "(char \<Rightarrow> bool) \<Rightarrow> string \<Rightarrow> bool" where
  "all_letters P tok = list_all P (drop 1 tok)"

fun exec_prefix_loop :: "string list \<Rightarrow> transparent_strip" where
  "exec_prefix_loop [] = NotPrefix"
| "exec_prefix_loop (tok # rest) =
     (if tok = ''--'' then peeled_from rest
      else if tok = ''-'' \<or> \<not> starts_with tok ''-'' then Peeled (tok # rest)
      else if tok = ''-c'' \<or> tok = ''-l'' \<or> tok = ''-cl'' \<or> tok = ''-lc'' then exec_prefix_loop rest
      else if tok = ''-a'' then
        (case rest of
           [] \<Rightarrow> StripAmbiguous
         | v # rest' \<Rightarrow>
             if v \<noteq> nul_word \<and> v \<noteq> [] then exec_prefix_loop rest' else StripAmbiguous)
      else if starts_with tok ''-a'' then
        (if drop 2 tok = nul_word then StripAmbiguous else exec_prefix_loop rest)
      else if \<not> starts_with tok ''--'' \<and> all_letters (\<lambda>c. c = CHR ''c'' \<or> c = CHR ''l'') tok
        then exec_prefix_loop rest
      else StripAmbiguous)"

fun command_prefix_loop :: "string list \<Rightarrow> transparent_strip" where
  "command_prefix_loop [] = NotPrefix"
| "command_prefix_loop (tok # rest) =
     (if tok = ''--'' then peeled_from rest
      else if tok = ''-'' \<or> \<not> starts_with tok ''-'' then Peeled (tok # rest)
      else if tok = ''-v'' \<or> tok = ''-V'' \<or> tok = ''--help'' \<or> tok = ''--version'' \<or>
          (\<not> starts_with tok ''--'' \<and> list_ex (\<lambda>c. c = CHR ''v'' \<or> c = CHR ''V'') (drop 1 tok))
        then NotPrefix
      else if tok = ''-p'' \<or> (\<not> starts_with tok ''--'' \<and> all_letters (\<lambda>c. c = CHR ''p'') tok)
        then command_prefix_loop rest
      else StripAmbiguous)"

definition strip_exec_prefix :: "string list \<Rightarrow> transparent_strip" where
  "strip_exec_prefix cmd = exec_prefix_loop (drop 1 cmd)"

definition strip_command_prefix :: "string list \<Rightarrow> transparent_strip" where
  "strip_command_prefix cmd = command_prefix_loop (drop 1 cmd)"

definition strip_builtin_prefix :: "string list \<Rightarrow> transparent_strip" where
  "strip_builtin_prefix cmd =
     (case drop 1 cmd of
        [] \<Rightarrow> NotPrefix
      | tok # rest \<Rightarrow>
          if starts_with tok ''-'' \<and> tok \<noteq> ''-'' then StripAmbiguous else Peeled (tok # rest))"

definition strip_transparent_prefix :: "string list \<Rightarrow> transparent_strip" where
  "strip_transparent_prefix cmd =
     (case cmd of
        [] \<Rightarrow> NotPrefix
      | h # _ \<Rightarrow>
          if h = [] \<or> h = nul_word then NotPrefix
          else if basename h = ''exec'' then strip_exec_prefix cmd
          else if basename h = ''command'' then strip_command_prefix cmd
          else if basename h = ''builtin'' then strip_builtin_prefix cmd
          else NotPrefix)"

datatype transparent_prefix_peel = Ready "string list" | PeelAmbiguous

definition MAX_TRANSPARENT_PREFIX_DEPTH :: nat where
  "MAX_TRANSPARENT_PREFIX_DEPTH = 8"

definition MAX_NORMALIZE_ROUNDS :: nat where
  "MAX_NORMALIZE_ROUNDS = MAX_WRAPPER_DEPTH + MAX_TRANSPARENT_PREFIX_DEPTH"

fun peel_transparent_loop :: "nat \<Rightarrow> string list \<Rightarrow> transparent_prefix_peel" where
  "peel_transparent_loop 0 current =
     (case strip_transparent_prefix current of NotPrefix \<Rightarrow> Ready current | _ \<Rightarrow> PeelAmbiguous)"
| "peel_transparent_loop (Suc n) current =
     (case strip_transparent_prefix current of
        NotPrefix \<Rightarrow> Ready current
      | Peeled inner \<Rightarrow> peel_transparent_loop n inner
      | StripAmbiguous \<Rightarrow> PeelAmbiguous)"

definition peel_transparent_prefixes :: "string list \<Rightarrow> transparent_prefix_peel" where
  "peel_transparent_prefixes words = peel_transparent_loop MAX_TRANSPARENT_PREFIX_DEPTH words"

section \<open>Alternating both peels\<close>

record normalized_command_peel =
  norm_words :: "string list"
  norm_chdir :: bool
  norm_split_string :: bool
  norm_env_uncertain :: bool
  norm_exhausted :: bool
  norm_ambiguous :: bool

text \<open>One round of the loop of \<open>normalize_command_words\<close>: the new state and whether the loop goes on.\<close>

definition absorb_wrapped :: "normalized_command_peel \<Rightarrow> normalized_command_peel" where
  "absorb_wrapped acc =
     (let wrapped = unwrap_wrappers_checked (norm_words acc)
      in acc\<lparr>norm_words := peel_words wrapped,
             norm_chdir := norm_chdir acc \<or> peel_chdir wrapped,
             norm_split_string := norm_split_string acc \<or> peel_split_string wrapped,
             norm_env_uncertain := norm_env_uncertain acc \<or> peel_env_uncertain wrapped,
             norm_exhausted := norm_exhausted acc \<or> peel_exhausted wrapped\<rparr>)"

definition normalize_round :: "normalized_command_peel \<Rightarrow> normalized_command_peel \<times> bool" where
  "normalize_round acc =
     (let acc1 = absorb_wrapped acc
      in if norm_split_string acc1 \<or> norm_env_uncertain acc1 then (acc1, False)
         else case peel_transparent_prefixes (norm_words acc1) of
           PeelAmbiguous \<Rightarrow> (acc1\<lparr>norm_ambiguous := True\<rparr>, False)
         | Ready inner \<Rightarrow>
             (acc1\<lparr>norm_words := inner\<rparr>, length inner \<noteq> length (norm_words acc)))"

fun normalize_loop :: "nat \<Rightarrow> normalized_command_peel \<Rightarrow> normalized_command_peel" where
  "normalize_loop 0 acc = acc"
| "normalize_loop (Suc n) acc =
     (case normalize_round acc of (acc', continue) \<Rightarrow> if continue then normalize_loop n acc' else acc')"

definition normalize_start :: "string list \<Rightarrow> normalized_command_peel" where
  "normalize_start words =
     \<lparr>norm_words = words, norm_chdir = False, norm_split_string = False,
      norm_env_uncertain = False, norm_exhausted = False, norm_ambiguous = False\<rparr>"

definition still_peelable :: "string list \<Rightarrow> bool" where
  "still_peelable current =
     ((is_wrapper_command current \<and> strip_wrapper_command current \<noteq> None) \<or>
      strip_transparent_prefix current \<noteq> NotPrefix)"

definition normalize_command_words :: "string list \<Rightarrow> normalized_command_peel" where
  "normalize_command_words words =
     (let acc = normalize_loop MAX_NORMALIZE_ROUNDS (normalize_start words)
      in if \<not> norm_ambiguous acc \<and> \<not> norm_split_string acc \<and> \<not> norm_env_uncertain acc \<and>
            still_peelable (norm_words acc)
         then acc\<lparr>norm_exhausted := True\<rparr>
         else acc)"

section \<open>Splitting for display\<close>

text \<open>\<open>sh_split_simple\<close>: the loop with the finished words, the word being read and the two quote
  flags. A backslash takes the next character literally, also inside quotes; a whitespace character
  may have several bytes.\<close>

definition flush_word :: "string list \<Rightarrow> string \<Rightarrow> string list" where
  "flush_word result current = (if current = [] then result else result @ [current])"

function sh_split_loop ::
  "string \<Rightarrow> bool \<Rightarrow> bool \<Rightarrow> string list \<Rightarrow> string \<Rightarrow> string list" where
  "sh_split_loop [] in_single in_double result current = flush_word result current"
| "sh_split_loop (c # chars) in_single in_double result current =
     (if c = single_quote \<and> \<not> in_double
        then sh_split_loop chars (\<not> in_single) in_double result current
      else if c = double_quote \<and> \<not> in_single
        then sh_split_loop chars in_single (\<not> in_double) result current
      else if c = backslash then
        (case chars of
           [] \<Rightarrow> sh_split_loop [] in_single in_double result current
         | n # chars' \<Rightarrow> sh_split_loop chars' in_single in_double result (current @ [n]))
      else if 0 < ws_len (c # chars) \<and> \<not> in_single \<and> \<not> in_double
        then sh_split_loop (drop (ws_len (c # chars)) (c # chars)) in_single in_double
               (flush_word result current) []
      else sh_split_loop chars in_single in_double result (current @ [c]))"
  by pat_completeness auto
termination
  by (relation "measure (\<lambda>(s, _). length s)") auto

definition sh_split_simple :: "string \<Rightarrow> string list" where
  "sh_split_simple s = sh_split_loop s False False [] []"

section \<open>Peeling yields proper suffixes\<close>

lemma skip_options_ge: "i \<le> skip_options ws cmd i"
proof (induction cmd arbitrary: i rule: length_induct)
  case (1 cmd)
  show ?case
  proof (cases cmd)
    case (Cons t rest)
    have "i + 1 \<le> skip_options ws rest (i + 1)" using 1 Cons by simp
    moreover have "i + 2 \<le> skip_options ws r (i + 2)" if "rest = v # r" for v r
      using 1 Cons that by simp
    ultimately show ?thesis by (cases rest) (simp_all add: Cons, (linarith+)?)
  qed simp
qed

lemma inner_from_SomeD: "inner_from cmd i = Some inner \<Longrightarrow> inner = drop i cmd \<and> i < length cmd"
  by (auto simp: inner_from_def split: if_splits)

text \<open>A scan that ends at index \<open>i\<close> starts the command at \<open>i\<close> or after it.\<close>

definition ends_from :: "nat \<Rightarrow> scan_step \<Rightarrow> bool" where
  "ends_from i st = (case st of Finished s \<Rightarrow> i \<le> command_start s | _ \<Rightarrow> True)"

lemma ends_from_if: "ends_from i a \<Longrightarrow> ends_from i b \<Longrightarrow> ends_from i (if c then a else b)"
  by simp

lemma ends_from_option:
  "ends_from i a \<Longrightarrow> (\<And>x. ends_from i (f x)) \<Longrightarrow>
   ends_from i (case opt of None \<Rightarrow> a | Some x \<Rightarrow> f x)"
  by (cases opt) simp_all

lemma ends_from_simps [simp]:
  "ends_from i (Advance d)" "ends_from i (AdvanceTwo d)"
  "ends_from i (Finished (scan_end d j)) = (i \<le> j)"
  "ends_from i (Finished (scan_uncertain d j)) = (i \<le> j)"
  "ends_from i (Finished (scan_split d j sc)) = (i \<le> j)"
  "ends_from i (take_option_operand rest i d k)"
  by (simp_all add: ends_from_def scan_end_def scan_uncertain_def scan_split_def
      take_option_operand_def split: list.splits)

lemma ends_from_word: "ends_from i (env_scan_word tok rest i dir)"
proof -
  have "ends_from i (env_long_option tok rest i dir)"
    unfolding env_long_option_def by (intro ends_from_if ends_from_option) simp_all
  moreover have "ends_from i (env_short_option tok rest i dir)"
    unfolding env_short_option_def
    by (cases "classify_env_short (decode_env_option_token tok)") simp_all
  ultimately show ?thesis
    unfolding env_scan_word_def by (intro ends_from_if) simp_all
qed

lemma env_scan_loop_start: "i \<le> command_start (env_scan_loop rest i dir)"
proof (induction rest i dir rule: env_scan_loop.induct)
  case (2 tok rest i dir)
  show ?case
  proof (cases "env_scan_word tok rest i dir")
    case (Finished s)
    then show ?thesis using ends_from_word [of i tok rest dir] by (simp add: ends_from_def)
  next
    case (Advance d)
    then show ?thesis using 2(1) [of d] by simp
  next
    case (AdvanceTwo d)
    then show ?thesis using 2(2) [of d] by simp
  qed
qed (simp add: scan_end_def)

definition peels :: "string list \<Rightarrow> string list option \<Rightarrow> bool" where
  "peels cmd r = (case r of None \<Rightarrow> True | Some inner \<Rightarrow> strict_suffix inner cmd \<and> inner \<noteq> [])"

lemma peels_if: "peels cmd a \<Longrightarrow> peels cmd b \<Longrightarrow> peels cmd (if c then a else b)"
  by simp

lemma peels_None [simp]: "peels cmd None"
  by (simp add: peels_def)

lemma peels_inner_from: "0 < i \<Longrightarrow> peels cmd (inner_from cmd i)"
proof (cases "i < length cmd")
  case True
  assume "0 < i"
  with True have "length (drop i cmd) < length cmd" by simp
  then have "drop i cmd \<noteq> cmd" by (metis less_irrefl)
  then show ?thesis using True by (simp add: peels_def inner_from_def strict_suffix_def suffix_drop)
qed (simp add: inner_from_def)

lemma peels_inner_after: "peels cmd (inner_after_mandatory cmd i)"
  unfolding inner_after_mandatory_def by (intro peels_if peels_inner_from) simp_all

lemma strip_wrapper_command_peels: "peels cmd (strip_wrapper_command cmd)"
proof (cases "head_basename cmd")
  case (Some head)
  have pos: "0 < skip_options ws (drop 1 cmd) 1" for ws
    using skip_options_ge [of 1 ws "drop 1 cmd"] by linarith
  have start: "0 < command_start (env_scan cmd)"
    using env_scan_loop_start [of 1 "drop 1 cmd" None] by (simp add: env_scan_def)
  show ?thesis
    unfolding strip_wrapper_command_def Some option.case Let_def
    by (intro peels_if peels_inner_from peels_inner_after peels_None pos start)
qed (simp add: strip_wrapper_command_def)

lemma strip_wrapper_command_suffix:
  assumes "strip_wrapper_command cmd = Some inner"
  shows "strict_suffix inner cmd" and "inner \<noteq> []"
  using strip_wrapper_command_peels [of cmd] assms by (simp_all add: peels_def)

lemma strict_suffix_length: "strict_suffix xs ys \<Longrightarrow> length xs < length ys"
  by (auto simp: strict_suffix_def suffix_def)

definition strips :: "string list \<Rightarrow> transparent_strip \<Rightarrow> bool" where
  "strips cmd r = (case r of Peeled inner \<Rightarrow> suffix inner cmd \<and> inner \<noteq> [] | _ \<Rightarrow> True)"

lemma strips_if: "strips cmd a \<Longrightarrow> strips cmd b \<Longrightarrow> strips cmd (if c then a else b)"
  by simp

lemma strips_simps [simp]:
  "strips cmd NotPrefix" "strips cmd StripAmbiguous" "strips cmd (Peeled cmd) = (cmd \<noteq> [])"
  by (simp_all add: strips_def)

lemma strips_peeled_from [simp]: "strips (t # rest) (peeled_from rest)"
  by (simp add: strips_def peeled_from_def suffix_ConsI)

lemma strips_Cons: "strips rest r \<Longrightarrow> strips (t # rest) r"
  by (cases r) (auto simp: strips_def intro: suffix_ConsI)

lemma strips_exec_loop: "strips cmd (exec_prefix_loop cmd)"
proof (induction cmd rule: length_induct)
  case (1 cmd)
  show ?case
  proof (cases cmd)
    case (Cons tok rest)
    have one: "strips (tok # rest) (exec_prefix_loop rest)"
      using 1 Cons by (auto intro: strips_Cons)
    have two: "strips (tok # v # r) (exec_prefix_loop r)" if "rest = v # r" for v r
      using 1 Cons that by (auto intro!: strips_Cons)
    have operand: "strips (tok # rest) (case rest of [] \<Rightarrow> StripAmbiguous | v # rest' \<Rightarrow>
        if v \<noteq> nul_word \<and> v \<noteq> [] then exec_prefix_loop rest' else StripAmbiguous)"
    proof (cases rest)
      case (Cons v r)
      show ?thesis unfolding Cons list.case
        by (intro strips_if two [OF Cons] strips_simps)
    qed simp
    show ?thesis
      unfolding Cons exec_prefix_loop.simps
      by (intro strips_if one operand strips_simps strips_peeled_from) simp
  qed simp
qed

lemma strips_command_loop: "strips cmd (command_prefix_loop cmd)"
proof (induction cmd)
  case (Cons tok rest)
  have one: "strips (tok # rest) (command_prefix_loop rest)"
    using Cons by (rule strips_Cons)
  show ?case
    unfolding command_prefix_loop.simps
    by (intro strips_if one strips_simps strips_peeled_from) simp
qed simp

lemma strip_transparent_strips: "strips (drop 1 cmd) (strip_transparent_prefix cmd)"
proof (cases cmd)
  case (Cons h rest)
  have "strips rest (strip_builtin_prefix cmd)"
    by (cases rest) (auto simp: strip_builtin_prefix_def Cons)
  moreover have "strips rest (strip_exec_prefix cmd)" "strips rest (strip_command_prefix cmd)"
    by (simp_all add: strip_exec_prefix_def strip_command_prefix_def strips_exec_loop
        strips_command_loop Cons)
  ultimately have "strips rest (strip_transparent_prefix (h # rest))"
    unfolding strip_transparent_prefix_def list.case Cons
    by (intro strips_if strips_simps)
  then show ?thesis by (simp add: Cons)
qed (simp add: strip_transparent_prefix_def)

lemma strip_transparent_prefix_suffix:
  assumes "strip_transparent_prefix cmd = Peeled inner"
  shows "strict_suffix inner cmd" and "inner \<noteq> []"
proof -
  have s: "suffix inner (drop 1 cmd)" "inner \<noteq> []"
    using strip_transparent_strips [of cmd] assms by (simp_all add: strips_def)
  then show "inner \<noteq> []" by simp
  from s obtain h t where cmd: "cmd = h # t" by (cases cmd) auto
  with s have "suffix inner cmd" "length inner < length cmd"
    using suffix_length_le [OF s(1)] by (auto intro: suffix_ConsI)
  then show "strict_suffix inner cmd" by (auto simp: strict_suffix_def)
qed

lemma strip_wrapper_command_is_wrapper:
  "strip_wrapper_command cmd \<noteq> None \<Longrightarrow> is_wrapper_command cmd"
  by (rule ccontr)
    (simp add: strip_wrapper_command_def is_wrapper_command_def split: option.splits)

lemma not_wrapper_not_stripped: "\<not> is_wrapper_command cmd \<Longrightarrow> strip_wrapper_command cmd = None"
  using strip_wrapper_command_is_wrapper by blast

lemma unwrap_loop_suffix:
  "suffix (peel_words (unwrap_loop n cur acc)) cur \<and>
   (cur \<noteq> [] \<longrightarrow> peel_words (unwrap_loop n cur acc) \<noteq> [])"
proof (induction n arbitrary: cur acc)
  case (Suc n)
  show ?case
  proof (cases "strip_wrapper_command cur")
    case None
    then show ?thesis by (simp add: scan_into_def Let_def)
  next
    case (Some inner)
    have "suffix inner cur" "inner \<noteq> []"
      using strip_wrapper_command_suffix [OF Some] by (auto simp: strict_suffix_def)
    with Suc [of inner] Some show ?thesis
      by (auto simp: Let_def intro: suffix_order.trans)
  qed
qed simp

lemma unwrap_loop_done:
  "\<not> peel_exhausted (unwrap_loop n cur acc) \<Longrightarrow>
   strip_wrapper_command (peel_words (unwrap_loop n cur acc)) = None"
proof (induction n arbitrary: cur acc)
  case 0
  then show ?case using not_wrapper_not_stripped by auto
next
  case (Suc n)
  then show ?case
    by (cases "strip_wrapper_command cur") (simp_all add: Let_def scan_into_def)
qed

lemma unwrap_loop_flags:
  "peel_split_string acc \<or> peel_env_uncertain acc \<Longrightarrow>
   peel_split_string (unwrap_loop n cur acc) \<or> peel_env_uncertain (unwrap_loop n cur acc)"
proof (induction n arbitrary: cur acc)
  case (Suc n)
  have "peel_split_string (scan_into cur acc) \<or> peel_env_uncertain (scan_into cur acc)"
    using Suc.prems by (auto simp: scan_into_def Let_def)
  with Suc.IH show ?case
    by (cases "strip_wrapper_command cur") (auto simp: Let_def)
qed simp

text \<open>An \<open>env\<close> whose options rewrite the command line or are not modelled.\<close>

definition opaque_env :: "string list \<Rightarrow> bool" where
  "opaque_env cmd =
     (head_basename cmd = Some ''env'' \<and>
      (scan_split_string (env_scan cmd) \<or> options_uncertain (env_scan cmd)))"

lemma unwrap_wrappers_opaque:
  assumes "opaque_env cmd"
  shows "peel_split_string (unwrap_wrappers_checked cmd) \<or> peel_env_uncertain (unwrap_wrappers_checked cmd)"
proof -
  have depth: "MAX_WRAPPER_DEPTH = Suc 7" by (simp add: MAX_WRAPPER_DEPTH_def)
  have scanned: "peel_split_string (scan_into cmd acc) \<or> peel_env_uncertain (scan_into cmd acc)" for acc
    using assms by (auto simp: scan_into_def opaque_env_def Let_def)
  show ?thesis
    unfolding unwrap_wrappers_checked_def depth unwrap_loop.simps Let_def
    using scanned unwrap_loop_flags [OF scanned]
    by (cases "strip_wrapper_command cmd") simp_all
qed

lemma unwrap_wrappers_suffix:
  "suffix (peel_words (unwrap_wrappers_checked cmd)) cmd"
  "cmd \<noteq> [] \<Longrightarrow> peel_words (unwrap_wrappers_checked cmd) \<noteq> []"
  using unwrap_loop_suffix by (auto simp: unwrap_wrappers_checked_def)

lemma peel_transparent_loop_suffix:
  "peel_transparent_loop n cur = Ready inner \<Longrightarrow>
   suffix inner cur \<and> (cur \<noteq> [] \<longrightarrow> inner \<noteq> []) \<and> strip_transparent_prefix inner = NotPrefix"
proof (induction n arbitrary: cur)
  case 0
  then show ?case by (auto split: transparent_strip.splits)
next
  case (Suc n)
  show ?case
  proof (cases "strip_transparent_prefix cur")
    case (Peeled x)
    have "suffix x cur" "x \<noteq> []"
      using strip_transparent_prefix_suffix [OF Peeled] by (auto simp: strict_suffix_def)
    with Suc Peeled show ?thesis by (auto intro: suffix_order.trans)
  qed (use Suc in auto)
qed

lemma peel_transparent_suffix:
  assumes "peel_transparent_prefixes cur = Ready inner"
  shows "suffix inner cur" and "cur \<noteq> [] \<Longrightarrow> inner \<noteq> []"
    and "strip_transparent_prefix inner = NotPrefix"
  using peel_transparent_loop_suffix assms unfolding peel_transparent_prefixes_def by blast+

section \<open>What a normal form is\<close>

definition unflagged :: "normalized_command_peel \<Rightarrow> bool" where
  "unflagged r =
     (\<not> norm_exhausted r \<and> \<not> norm_ambiguous r \<and> \<not> norm_split_string r \<and> \<not> norm_env_uncertain r)"

lemma normalize_round_suffix:
  assumes "normalize_round acc = (acc', go)"
  shows "suffix (norm_words acc') (norm_words acc) \<and> (norm_words acc \<noteq> [] \<longrightarrow> norm_words acc' \<noteq> []) \<and>
    (go \<longrightarrow> length (norm_words acc') < length (norm_words acc))"
proof -
  let ?w = "peel_words (unwrap_wrappers_checked (norm_words acc))"
  note w = unwrap_wrappers_suffix [of "norm_words acc"]
  have words: "norm_words (absorb_wrapped acc) = ?w" by (simp add: absorb_wrapped_def Let_def)
  show ?thesis
  proof (cases "peel_transparent_prefixes ?w")
    case (Ready inner)
    note i = peel_transparent_suffix [OF Ready]
    have "suffix inner (norm_words acc)" using i(1) w(1) by (rule suffix_order.trans)
    moreover from this have "length inner \<le> length (norm_words acc)" by (rule suffix_length_le)
    ultimately show ?thesis
      using assms w i(2) by (auto simp: normalize_round_def Let_def words Ready split: if_splits)
  next
    case PeelAmbiguous
    then show ?thesis
      using assms w by (auto simp: normalize_round_def Let_def words split: if_splits)
  qed
qed

lemma normalize_loop_suffix:
  "suffix (norm_words (normalize_loop n acc)) (norm_words acc) \<and>
   (norm_words acc \<noteq> [] \<longrightarrow> norm_words (normalize_loop n acc) \<noteq> [])"
proof (induction n arbitrary: acc)
  case (Suc n)
  obtain acc' go where r: "normalize_round acc = (acc', go)" by (cases "normalize_round acc")
  show ?case using Suc [of acc'] normalize_round_suffix [OF r]
    by (auto simp: r intro: suffix_order.trans)
qed simp

lemma suffix_same_length: "suffix xs ys \<Longrightarrow> length xs = length ys \<Longrightarrow> xs = ys"
  by (auto simp: suffix_def)

lemma normalize_round_opaque:
  assumes "normalize_round acc = (acc', False)" and "opaque_env (norm_words acc')"
  shows "norm_split_string acc' \<or> norm_env_uncertain acc' \<or> norm_ambiguous acc'"
proof (rule ccontr)
  assume unset: "\<not> ?thesis"
  let ?a = "absorb_wrapped acc"
  from unset assms(1) have quiet: "\<not> norm_split_string ?a" "\<not> norm_env_uncertain ?a"
    by (auto simp: normalize_round_def Let_def split: if_splits transparent_prefix_peel.splits)
  with assms(1) unset obtain inner where inner: "peel_transparent_prefixes (norm_words ?a) = Ready inner"
      "acc' = ?a\<lparr>norm_words := inner\<rparr>" "length inner = length (norm_words acc)"
    by (auto simp: normalize_round_def Let_def split: if_splits transparent_prefix_peel.splits)
  have "suffix inner (norm_words acc)"
    using normalize_round_suffix [OF assms(1)] inner(2) by simp
  then have "inner = norm_words acc" using inner(3) by (rule suffix_same_length)
  with assms(2) inner(2) have "opaque_env (norm_words acc)" by simp
  from unwrap_wrappers_opaque [OF this] quiet show False
    by (auto simp: absorb_wrapped_def Let_def)
qed

lemma normalize_loop_opaque:
  "norm_words acc \<noteq> [] \<Longrightarrow> length (norm_words acc) \<le> n \<Longrightarrow>
   opaque_env (norm_words (normalize_loop n acc)) \<Longrightarrow>
   norm_split_string (normalize_loop n acc) \<or> norm_env_uncertain (normalize_loop n acc) \<or>
   norm_ambiguous (normalize_loop n acc)"
proof (induction n arbitrary: acc)
  case (Suc n)
  obtain acc' go where r: "normalize_round acc = (acc', go)" by (cases "normalize_round acc")
  show ?case
  proof (cases go)
    case True
    then have "norm_words acc' \<noteq> []" "length (norm_words acc') \<le> n"
      using normalize_round_suffix [OF r] Suc.prems by auto
    with Suc True show ?thesis by (simp add: r)
  next
    case False
    then show ?thesis using normalize_round_opaque [of acc acc'] Suc.prems r by simp
  qed
qed simp

lemma normalize_words_eq:
  "norm_words (normalize_command_words words) =
   norm_words (normalize_loop MAX_NORMALIZE_ROUNDS (normalize_start words))"
  by (simp add: normalize_command_words_def Let_def)

section \<open>Shell literals and display splitting\<close>

lemma decode_literal_loop_out:
  "decode_literal_loop q a (u @ out) = map_option ((@) u) (decode_literal_loop q a out)"
proof (induction q a out rule: decode_literal_loop.induct)
  case (2 quote ch chars out)
  then show ?case by (cases chars) simp_all
qed simp

text \<open>The usual single quoting of a text: an inner quote closes, escapes and reopens.\<close>

definition single_quoted_body :: "string \<Rightarrow> string" where
  "single_quoted_body s =
     concat (map (\<lambda>c. if c = single_quote
                      then [single_quote, backslash, single_quote, single_quote] else [c]) s)"

definition shell_single_quoted :: "string \<Rightarrow> string" where
  "shell_single_quoted s = single_quote # single_quoted_body s @ [single_quote]"

lemma decode_single_quoted_body:
  "decode_literal_loop (Some single_quote) (single_quoted_body s @ single_quote # t) out =
   decode_literal_loop None t (out @ s)"
  by (induction s arbitrary: out) (simp_all add: single_quoted_body_def)

text \<open>A word that needs no quoting.\<close>

definition plain_word :: "string \<Rightarrow> bool" where
  "plain_word w =
     (w \<noteq> [] \<and> \<not> contains_ws w \<and> single_quote \<notin> set w \<and> double_quote \<notin> set w \<and> backslash \<notin> set w)"

lemma ws_len_before_space:
  assumes "ws_len (c # s) = 0" and "rest = [] \<or> (\<exists>r. rest = CHR '' '' # r)"
  shows "ws_len (c # s @ rest) = 0"
proof -
  have "\<not> is_ws2 a (CHR '' '')" "\<not> is_ws3 a (CHR '' '') d" "\<not> is_ws3 a d (CHR '' '')" for a d
    by (simp_all add: is_ws2_def is_ws3_def)
  then show ?thesis
    using assms unfolding ws_len_eq_0 by (cases s; cases "tl s") auto
qed

lemma sh_split_loop_word:
  assumes "rest = [] \<or> (\<exists>r. rest = CHR '' '' # r)"
  shows "\<not> contains_ws w \<Longrightarrow> single_quote \<notin> set w \<Longrightarrow> double_quote \<notin> set w \<Longrightarrow> backslash \<notin> set w \<Longrightarrow>
    sh_split_loop (w @ rest) False False result cur = sh_split_loop rest False False result (cur @ w)"
proof (induction w arbitrary: cur)
  case (Cons c w)
  then have "ws_len (c # w @ rest) = 0" using assms by (intro ws_len_before_space) auto
  moreover have "c \<noteq> single_quote" "c \<noteq> double_quote" "c \<noteq> backslash" using Cons.prems by auto
  ultimately show ?case using Cons by simp
qed simp

lemma sh_split_loop_space:
  "sh_split_loop (CHR '' '' # r) False False result cur = sh_split_loop r False False (flush_word result cur) []"
proof -
  have "ws_len (CHR '' '' # r) = 1"
    by (cases r; cases "tl r") (simp_all add: is_ascii_ws_def)
  then show ?thesis by simp
qed

lemma sh_split_loop_join:
  "list_all plain_word ws \<Longrightarrow>
   sh_split_loop (join '' '' ws) False False result [] = result @ ws"
proof (induction "'' ''" ws arbitrary: result rule: join.induct)
  case (2 w)
  then show ?case
    using sh_split_loop_word [of "[]" w result "[]"] by (simp add: plain_word_def flush_word_def)
next
  case (3 w v ws)
  then show ?case
    using sh_split_loop_word [of "'' '' @ join '' '' (v # ws)" w result "[]"]
    by (simp add: plain_word_def flush_word_def sh_split_loop_space del: sh_split_loop.simps)
qed (simp add: flush_word_def)

lemma notin_set_if: "(c \<Longrightarrow> x \<notin> set a) \<Longrightarrow> x \<notin> set b \<Longrightarrow> x \<notin> set (if c then a else b)"
  by simp

lemma sh_split_loop_nonempty:
  "[] \<notin> set result \<Longrightarrow> [] \<notin> set (sh_split_loop s a b result cur)"
proof (induction s arbitrary: a b result cur rule: length_induct)
  case (1 s)
  show ?case
  proof (cases s)
    case (Cons c chars)
    have flush: "[] \<notin> set (flush_word result cur)" using 1(2) by (simp add: flush_word_def)
    have IH: "[] \<notin> set (sh_split_loop t a' b' result' cur')"
      if "length t < length s" "[] \<notin> set result'" for t a' b' result' cur'
      using 1(1) that by blast
    have escaped: "[] \<notin> set (case chars of [] \<Rightarrow> sh_split_loop [] a b result cur
        | n # chars' \<Rightarrow> sh_split_loop chars' a b result (cur @ [n]))"
      using 1(2) Cons flush IH [of "tl chars" result] by (cases chars) simp_all
    show ?thesis
      unfolding Cons sh_split_loop.simps(2)
      by (intro notin_set_if IH escaped flush) (use 1(2) Cons in simp_all)
  qed (use 1(2) in \<open>simp add: flush_word_def\<close>)
qed

section \<open>Properties\<close>

text \<open>C18: a clean verdict means a bare command. The normal form is a suffix of the command words,
  never empty for a command that is not; and when none of the four flags is raised, no wrapper
  and no transparent prefix can be peeled off it any more, whatever the depth of the original.\<close>

theorem normalize_fully_peeled:
  "suffix (norm_words (normalize_command_words words)) words \<and>
   (words \<noteq> [] \<longrightarrow> norm_words (normalize_command_words words) \<noteq> []) \<and>
   (unflagged (normalize_command_words words) \<longrightarrow>
      strip_wrapper_command (norm_words (normalize_command_words words)) = None \<and>
      strip_transparent_prefix (norm_words (normalize_command_words words)) = NotPrefix)"
proof -
  let ?acc = "normalize_loop MAX_NORMALIZE_ROUNDS (normalize_start words)"
  have "\<not> still_peelable (norm_words ?acc)" if "unflagged (normalize_command_words words)"
    using that by (auto simp: normalize_command_words_def unflagged_def Let_def split: if_splits)
  then have "strip_wrapper_command (norm_words ?acc) = None \<and>
      strip_transparent_prefix (norm_words ?acc) = NotPrefix"
    if "unflagged (normalize_command_words words)"
    using that not_wrapper_not_stripped by (auto simp: still_peelable_def)
  moreover have "norm_words (normalize_start words) = words" by (simp add: normalize_start_def)
  ultimately show ?thesis
    using normalize_loop_suffix [of MAX_NORMALIZE_ROUNDS "normalize_start words"]
    by (simp add: normalize_words_eq)
qed

theorem normalize_fully_peeled_witness:
  "let r = normalize_command_words
             [''timeout'', ''-k'', ''5'', ''30'', ''command'', ''nice'', ''-n'', ''10'', ''rm'', ''-rf'', ''/'']
   in unflagged r \<and> norm_words r = [''rm'', ''-rf'', ''/''] \<and> strip_wrapper_command (norm_words r) = None"
proof -
  let ?w = "[''timeout'', ''-k'', ''5'', ''30'', ''command'', ''nice'', ''-n'', ''10'', ''rm'', ''-rf'', ''/'']"
  have "unflagged (normalize_command_words ?w)" by code_simp
  moreover have "norm_words (normalize_command_words ?w) = [''rm'', ''-rf'', ''/'']" by code_simp
  ultimately show ?thesis using normalize_fully_peeled [of ?w] by (simp add: Let_def)
qed

text \<open>On command lines of at most as many words as there are normalization rounds, a clean
  verdict also means that no \<open>env\<close> that rewrites its command line (\<open>-S\<close>, \<open>--split-string\<close>) and no
  \<open>env\<close> with unknown options is left at the head: each such \<open>env\<close> raises a flag.\<close>

theorem normalize_short_flags_opaque_env:
  assumes "length words \<le> MAX_NORMALIZE_ROUNDS" and "unflagged (normalize_command_words words)"
  shows "\<not> opaque_env (norm_words (normalize_command_words words)) \<and>
    env_split_string_script (norm_words (normalize_command_words words)) = None"
proof -
  let ?acc = "normalize_loop MAX_NORMALIZE_ROUNDS (normalize_start words)"
  have "\<not> opaque_env (norm_words ?acc)"
  proof
    assume opaque: "opaque_env (norm_words ?acc)"
    then have "norm_words ?acc \<noteq> []" by (auto simp: opaque_env_def head_basename_def)
    then have "words \<noteq> []"
      using normalize_loop_suffix [of MAX_NORMALIZE_ROUNDS "normalize_start words"]
      by (auto simp: normalize_start_def)
    then have "norm_split_string ?acc \<or> norm_env_uncertain ?acc \<or> norm_ambiguous ?acc"
      using normalize_loop_opaque [OF _ _ opaque] assms(1) by (simp add: normalize_start_def)
    then show False using assms(2)
      by (auto simp: normalize_command_words_def unflagged_def Let_def split: if_splits)
  qed
  then show ?thesis
    by (auto simp: normalize_words_eq env_split_string_script_def opaque_env_def Let_def)
qed

theorem normalize_short_flags_opaque_env_witness:
  "\<not> opaque_env (norm_words (normalize_command_words [''env'', ''A=1'', ''ls'']))"
proof -
  have "length [''env'', ''A=1'', ''ls''] \<le> MAX_NORMALIZE_ROUNDS" by code_simp
  moreover have "unflagged (normalize_command_words [''env'', ''A=1'', ''ls''])" by code_simp
  ultimately show ?thesis using normalize_short_flags_opaque_env by blast
qed

text \<open>The bound on the length matters. Sixteen \<open>timeout 1 command\<close> layers use up all rounds; an
  \<open>env -S\<close> behind them is left at the head with its packed script readable, and no flag is raised,
  while behind fifteen layers the split-string flag is.\<close>

theorem normalize_misses_deep_packed_env:
  "let layers = (\<lambda>n. concat (replicate n [''timeout'', ''1'', ''command'']));
       packed = [''env'', ''-S'', ''rm -rf /'']
   in unflagged (normalize_command_words (layers 16 @ packed)) \<and>
      norm_words (normalize_command_words (layers 16 @ packed)) = packed \<and>
      env_split_string_script packed = Some ''rm -rf /'' \<and>
      norm_split_string (normalize_command_words (layers 15 @ packed))"
  by code_simp

text \<open>Decoding shell literals. Single-quoting any text, quotes inside included, decodes to that
  text, and adjacent literals decode to the concatenation of what they decode to, as the shell
  joins them into one word.\<close>

theorem decode_shell_literal_round_trip:
  assumes "decode_shell_literal_spelling b = Some y"
  shows "decode_shell_literal_spelling (shell_single_quoted x) = Some x \<and>
    decode_shell_literal_spelling (shell_single_quoted x @ b) = Some (x @ y)"
proof -
  have quoted: "decode_literal_loop None (shell_single_quoted x @ c) [] = decode_literal_loop None c x" for c
    using decode_single_quoted_body [of x c "[]"] by (simp add: shell_single_quoted_def)
  show ?thesis
    using quoted [of "[]"] quoted [of b] decode_literal_loop_out [of None b x "[]"] assms
    by (simp add: decode_shell_literal_spelling_def)
qed

theorem decode_shell_literal_round_trip_witness:
  "decode_shell_literal_spelling (shell_single_quoted [CHR ''a'', single_quote] @ ''-b'') =
   Some ([CHR ''a'', single_quote] @ ''-b'')"
  using decode_shell_literal_round_trip [of "''-b''" "''-b''" "[CHR ''a'', single_quote]"]
  by (simp add: decode_shell_literal_spelling_def)

text \<open>Splitting for display never yields an empty word, and inverts joining with spaces on
  words without quotes, backslashes and whitespace.\<close>

theorem sh_split_simple_join:
  assumes "list_all plain_word ws"
  shows "sh_split_simple (join '' '' ws) = ws \<and> [] \<notin> set (sh_split_simple s)"
  using sh_split_loop_join [OF assms, of "[]"] sh_split_loop_nonempty [of "[]" s False False "[]"]
  by (simp add: sh_split_simple_def)

theorem sh_split_simple_join_witness: "sh_split_simple (join '' '' [''rm'', ''-rf'', ''/tmp'']) = [''rm'', ''-rf'', ''/tmp'']"
proof -
  have "list_all plain_word [''rm'', ''-rf'', ''/tmp'']" by code_simp
  then show ?thesis using sh_split_simple_join by blast
qed

end
