(* ===== verification/Exec_Risk.thy ===== *)
theory Exec_Risk
  imports Bash_Wrappers Path_Match "HOL-Library.List_Lexorder" "HOL-Library.Char_ord"
begin

text \<open>
  Execution risk of a command (\<open>exec_risk.rs\<close>, \<open>git_content_filters.rs\<close>): flags of \<open>git\<close> and \<open>sort\<close> that run
  programs, the read-only git queries that may be approved without asking, the directories whose git
  configuration a script would use, and the content filters that are switched off for unattended git.

  \<open>libgit2\<close> is a parameter, a record of what it answers about a directory. The \<open>while\<close> loops over an index are
  recursions on the words from that index on.
\<close>

section \<open>Splitting text\<close>

text \<open>\<open>tok.split_once('=').map(|(f, _)| f).unwrap_or(tok)\<close>.\<close>

definition before_equals :: "string \<Rightarrow> string" where
  "before_equals tok = (case split_once tok (CHR ''='') of Some (f, _) \<Rightarrow> f | None \<Rightarrow> tok)"

section \<open>Normal form of a segment\<close>

datatype normalized_argv = ArgvReady "string list" | ArgvFailClosed

text \<open>The slices are suffixes of the vector, so two of them are the same object when they are equally long.\<close>

fun exec_normalize_loop :: "nat \<Rightarrow> string list \<Rightarrow> normalized_argv" where
  "exec_normalize_loop 0 current = ArgvFailClosed"
| "exec_normalize_loop (Suc n) current =
     (let checked = unwrap_wrappers_checked current
      in if peel_exhausted checked \<or> peel_split_string checked \<or> peel_chdir checked then ArgvFailClosed
         else case peel_transparent_prefixes (peel_words checked) of
           PeelAmbiguous \<Rightarrow> ArgvFailClosed
         | Ready after_trans \<Rightarrow>
             if length after_trans = length current then ArgvReady after_trans
             else if length after_trans = length (peel_words checked) then ArgvReady after_trans
             else exec_normalize_loop n after_trans)"

definition normalize_for_exec_risk :: "string list \<Rightarrow> normalized_argv" where
  "normalize_for_exec_risk ws = exec_normalize_loop MAX_NORMALIZE_ROUNDS ws"

definition is_accepted_long_option_prefix :: "string \<Rightarrow> string \<Rightarrow> nat \<Rightarrow> bool" where
  "is_accepted_long_option_prefix flag full min_len =
     (starts_with flag ''--'' \<and> min_len \<le> length flag \<and> starts_with full flag \<and>
      list_all (\<lambda>b. is_ascii_alphanumeric b \<or> b = CHR ''-'') flag)"

definition normalized_token_basename :: "string \<Rightarrow> string" where
  "normalized_token_basename token =
     (let name = to_ascii_lowercase (basename token)
      in case strip_suffix name ''.exe'' of Some stem \<Rightarrow> stem | None \<Rightarrow> name)"

definition normalized_program_name :: "string list \<Rightarrow> string option" where
  "normalized_program_name ws =
     (case ws of
        [] \<Rightarrow> None
      | raw # _ \<Rightarrow>
          if basename raw = [] then None
          else let name = to_ascii_lowercase (basename raw)
               in Some (case strip_suffix name ''.exe'' of Some stem \<Rightarrow> stem | None \<Rightarrow> name))"

definition is_git_program :: "string list \<Rightarrow> bool" where
  "is_git_program ws = (normalized_program_name ws = Some ''git'')"

definition is_sort_program :: "string list \<Rightarrow> bool" where
  "is_sort_program ws = (normalized_program_name ws = Some ''sort'')"

section \<open>Flags that run programs\<close>

fun compress_flag_loop :: "string list \<Rightarrow> bool" where
  "compress_flag_loop [] = False"
| "compress_flag_loop (w # ws) =
     (if w = ''--'' then False
      else if w = ''--compress-program'' \<or> starts_with w ''--compress-program='' then True
      else if is_accepted_long_option_prefix (before_equals w) ''--compress-program'' 4 then True
      else compress_flag_loop ws)"

definition sort_has_compress_program_flag :: "string list \<Rightarrow> bool" where
  "sort_has_compress_program_flag ws = compress_flag_loop (drop 1 ws)"

definition is_git_config_env_flag :: "string \<Rightarrow> bool" where
  "is_git_config_env_flag tok =
     (tok = ''--config-env'' \<or> starts_with tok ''--config-env='' \<or>
      is_accepted_long_option_prefix (before_equals tok) ''--config-env'' 4)"

definition is_git_repo_retarget_flag :: "string \<Rightarrow> bool" where
  "is_git_repo_retarget_flag tok =
     (tok = ''--git-dir'' \<or> starts_with tok ''--git-dir='' \<or>
      tok = ''--work-tree'' \<or> starts_with tok ''--work-tree='' \<or>
      is_accepted_long_option_prefix (before_equals tok) ''--git-dir'' 4 \<or>
      is_accepted_long_option_prefix (before_equals tok) ''--work-tree'' 4)"

definition is_attached_git_config_c :: "string \<Rightarrow> bool" where
  "is_attached_git_config_c tok = (starts_with tok ''-c'' \<and> 2 < length tok \<and> \<not> starts_with tok ''--'')"

definition attached_git_c_path :: "string \<Rightarrow> string option" where
  "attached_git_c_path tok =
     (case strip_prefix tok ''-C'' of
        None \<Rightarrow> None
      | Some rest \<Rightarrow> if rest \<noteq> [] \<and> \<not> starts_with tok ''--'' then Some rest else None)"

definition git_global_option_takes_value :: "string \<Rightarrow> bool" where
  "git_global_option_takes_value tok =
     (tok \<in> {''-C'', ''-c'', ''--git-dir'', ''--work-tree'', ''--namespace'', ''--super-prefix'', ''--exec-path'',
             ''--list-cmds'', ''--attr-source'', ''--config-env''} \<or>
      is_accepted_long_option_prefix tok ''--config-env'' 4 \<or>
      is_accepted_long_option_prefix tok ''--git-dir'' 4 \<or>
      is_accepted_long_option_prefix tok ''--work-tree'' 4 \<or>
      is_accepted_long_option_prefix tok ''--namespace'' 7 \<or>
      is_accepted_long_option_prefix tok ''--super-prefix'' 8 \<or>
      is_accepted_long_option_prefix tok ''--exec-path'' 7 \<or>
      is_accepted_long_option_prefix tok ''--list-cmds'' 7 \<or>
      is_accepted_long_option_prefix tok ''--attr-source'' 8)"

text \<open>Whether the option at the front takes the next word as its value.\<close>

definition consumes_value :: "string \<Rightarrow> string list \<Rightarrow> bool" where
  "consumes_value tok rest =
     (CHR ''='' \<notin> set tok \<and> git_global_option_takes_value tok \<and>
      (case rest of n # _ \<Rightarrow> \<not> starts_with n ''-'' \<or> n = ''-'' | [] \<Rightarrow> False))"

definition is_subcommand_start :: "string \<Rightarrow> bool" where
  "is_subcommand_start tok = (tok = ''--'' \<or> \<not> starts_with tok ''-'' \<or> tok = ''-'')"

fun git_globals_risk :: "string list \<Rightarrow> bool" where
  "git_globals_risk [] = False"
| "git_globals_risk (tok # rest) =
     (if is_subcommand_start tok then False
      else if tok = ''-c'' \<or> is_attached_git_config_c tok \<or> is_git_config_env_flag tok \<or>
              is_git_repo_retarget_flag tok then True
      else if attached_git_c_path tok \<noteq> None then git_globals_risk rest
      else git_globals_risk (if consumes_value tok rest then drop 1 rest else rest))"

definition git_has_exec_risk_global :: "string list \<Rightarrow> bool" where
  "git_has_exec_risk_global ws = git_globals_risk (drop 1 ws)"

definition segment_has_exec_risk_flag :: "string list \<Rightarrow> bool" where
  "segment_has_exec_risk_flag ws =
     (if is_sort_program ws then sort_has_compress_program_flag ws
      else if is_git_program ws then git_has_exec_risk_global ws
      else False)"

record segment_exec_facts =
  exec_risk :: bool
  has_git :: bool

definition segment_exec_facts :: "string list \<Rightarrow> segment_exec_facts" where
  "segment_exec_facts ws =
     (case normalize_for_exec_risk ws of
        ArgvFailClosed \<Rightarrow> \<lparr>exec_risk = True, has_git = False\<rparr>
      | ArgvReady inner \<Rightarrow> \<lparr>exec_risk = segment_has_exec_risk_flag inner, has_git = is_git_program inner\<rparr>)"

section \<open>Read-only git queries\<close>

definition SAFE_GIT_SUBCOMMANDS :: "string list" where
  "SAFE_GIT_SUBCOMMANDS =
     [''status'', ''branch'', ''log'', ''diff'', ''ls-files'', ''show'', ''rev-parse'', ''blame'', ''grep'', ''describe'',
      ''merge-base'', ''check-ignore'', ''check-attr'', ''cat-file'', ''ls-tree'', ''show-ref'', ''for-each-ref'',
      ''rev-list'', ''name-rev'', ''count-objects'', ''shortlog'']"

definition GIT_QUERY_UNSAFE_OPTIONS :: "string list" where
  "GIT_QUERY_UNSAFE_OPTIONS = [''--filters'', ''--textconv'', ''--output'', ''--ext-diff'', ''--open-files-in-pager'']"

definition git_query_option_is_unsafe :: "string \<Rightarrow> bool" where
  "git_query_option_is_unsafe word =
     (let flag = before_equals word
      in 2 < length flag \<and> list_ex (\<lambda>full. starts_with full flag) GIT_QUERY_UNSAFE_OPTIONS)"

fun verb_index_loop :: "nat \<Rightarrow> string list \<Rightarrow> nat option" where
  "verb_index_loop i [] = None"
| "verb_index_loop i (tok # rest) =
     (if tok = ''-'' \<or> tok = ''--'' then None
      else if \<not> starts_with tok ''-'' then Some i
      else if tok = ''-C'' then verb_index_loop (i + 2) (drop 1 rest)
      else if attached_git_c_path tok \<noteq> None \<or> tok = ''--no-pager'' \<or> tok = ''-P'' then verb_index_loop (i + 1) rest
      else None)"

definition git_safe_query_verb_index :: "string list \<Rightarrow> nat option" where
  "git_safe_query_verb_index ws = verb_index_loop 1 (drop 1 ws)"

definition git_words_have_unsafe_query_option :: "string list \<Rightarrow> bool" where
  "git_words_have_unsafe_query_option ws =
     (if nth_opt ws 0 \<noteq> Some ''git'' then False
      else if list_ex git_query_option_is_unsafe (drop 1 ws) then True
      else (case git_safe_query_verb_index ws of Some i \<Rightarrow> nth_opt ws i = Some ''grep'' | None \<Rightarrow> False) \<and>
           list_ex (\<lambda>w. starts_with w ''-O'') (drop 1 ws))"

definition git_words_are_read_only_query :: "string list \<Rightarrow> bool" where
  "git_words_are_read_only_query ws =
     (if nth_opt ws 0 \<noteq> Some ''git'' then False
      else if git_has_exec_risk_global ws then False
      else case git_safe_query_verb_index ws of
        None \<Rightarrow> False
      | Some verb_idx \<Rightarrow>
          (case nth_opt ws verb_idx of None \<Rightarrow> False | Some w \<Rightarrow> w \<in> set SAFE_GIT_SUBCOMMANDS) \<and>
          \<not> git_words_have_unsafe_query_option ws)"

section \<open>Repository configuration\<close>

definition filter_command_driver :: "string \<Rightarrow> string option" where
  "filter_command_driver name =
     (case get_to name 7 of
        None \<Rightarrow> None
      | Some head \<Rightarrow>
          if \<not> eq_ignore_ascii_case head ''filter.'' then None
          else case get_from name 7 of
            None \<Rightarrow> None
          | Some rest \<Rightarrow>
              (case rsplit_once rest (CHR ''.'') of
                 None \<Rightarrow> None
               | Some (driver, prop) \<Rightarrow>
                   if driver \<noteq> [] \<and>
                      (eq_ignore_ascii_case prop ''clean'' \<or> eq_ignore_ascii_case prop ''smudge'' \<or>
                       eq_ignore_ascii_case prop ''process'')
                   then Some driver else None))"

definition filter_driver_name_is_pinnable :: "string \<Rightarrow> bool" where
  "filter_driver_name_is_pinnable driver =
     (case driver of
        [] \<Rightarrow> False
      | c # cs \<Rightarrow>
          is_ascii_alphanumeric c \<and>
          list_all (\<lambda>c. is_ascii_alphanumeric c \<or> c = CHR ''_'' \<or> c = CHR ''-'') cs)"

definition local_includeif_unsupported :: "string \<Rightarrow> bool" where
  "local_includeif_unsupported name =
     (case get_to name 10 of
        None \<Rightarrow> False
      | Some head \<Rightarrow>
          if \<not> eq_ignore_ascii_case head ''includeif.'' then False
          else let rest = (case get_from name 10 of Some r \<Rightarrow> r | None \<Rightarrow> []);
                   condition = (case split_once rest (CHR '':'') of Some (c, _) \<Rightarrow> c | None \<Rightarrow> rest)
               in to_ascii_lowercase condition \<notin> {''gitdir'', ''gitdir/i'', ''onbranch''})"

text \<open>What the file system and \<open>libgit2\<close> answer: opening a file, discovering the repository of a directory (its git
  directory and common directory), and the entries of its configuration; \<open>None\<close> is an error.\<close>

datatype open_answer = Opened "bool option" | OpenNotFound | OpenFailed

datatype discovery = NoRepository | DiscoveryFailed | Repository string string

record config_entry =
  entry_local :: bool
  entry_name :: "string option"
  entry_has_value :: bool
  entry_value :: "string option"

record git_library =
  open_file :: "string \<Rightarrow> open_answer"
  discover :: "string \<Rightarrow> discovery"
  config_entries :: "string \<Rightarrow> config_entry option list option"
  parse_bool_ok :: "string \<Rightarrow> bool"

definition path_unreadable :: "git_library \<Rightarrow> string \<Rightarrow> bool" where
  "path_unreadable g path =
     (case open_file g path of
        Opened (Some is_file) \<Rightarrow> \<not> is_file
      | Opened None \<Rightarrow> True
      | OpenNotFound \<Rightarrow> False
      | OpenFailed \<Rightarrow> True)"

text \<open>The loop over the entries; \<open>out\<close> is what has been read.\<close>

fun config_entries_loop ::
  "config_entry option list \<Rightarrow> (string \<times> string) list \<Rightarrow> (string \<times> string) list option" where
  "config_entries_loop [] out = Some out"
| "config_entries_loop (None # es) out = None"
| "config_entries_loop (Some e # es) out =
     (if \<not> entry_local e then config_entries_loop es out
      else case entry_name e of
        None \<Rightarrow> None
      | Some name \<Rightarrow>
          if local_includeif_unsupported name then None
          else if entry_has_value e then
            (case entry_value e of
               None \<Rightarrow> if filter_command_driver name \<noteq> None then None else config_entries_loop es out
             | Some value \<Rightarrow> config_entries_loop es (out @ [(name, value)]))
          else if filter_command_driver name \<noteq> None then None
          else config_entries_loop es (out @ [(name, ''true'')]))"

definition read_local_git_config_entries :: "git_library \<Rightarrow> string \<Rightarrow> (string \<times> string) list option" where
  "read_local_git_config_entries g cwd =
     (case discover g cwd of
        NoRepository \<Rightarrow> Some []
      | DiscoveryFailed \<Rightarrow> None
      | Repository git_dir common \<Rightarrow>
          if path_unreadable g (push_path common ''config'') \<or> path_unreadable g (push_path git_dir ''config'') \<or>
             path_unreadable g (push_path git_dir ''config.worktree'')
          then None
          else case config_entries g cwd of
            None \<Rightarrow> None
          | Some es \<Rightarrow> config_entries_loop es [])"

text \<open>The set of drivers is ordered, as a list in byte order.\<close>

fun filter_drivers_loop :: "(string \<times> string) list \<Rightarrow> string list \<Rightarrow> string list option" where
  "filter_drivers_loop [] drivers = Some drivers"
| "filter_drivers_loop ((name, value) # es) drivers =
     (if trim value = [] then filter_drivers_loop es drivers
      else case filter_command_driver name of
        None \<Rightarrow> filter_drivers_loop es drivers
      | Some driver \<Rightarrow>
          if \<not> filter_driver_name_is_pinnable driver then None
          else filter_drivers_loop es (insort_insert driver drivers))"

definition local_content_filter_drivers :: "git_library \<Rightarrow> string \<Rightarrow> string list option" where
  "local_content_filter_drivers g cwd =
     (case read_local_git_config_entries g cwd of None \<Rightarrow> None | Some es \<Rightarrow> filter_drivers_loop es [])"

definition driver_pins :: "string \<Rightarrow> string list" where
  "driver_pins driver =
     [''filter.'' @ driver @ ''.clean='', ''filter.'' @ driver @ ''.smudge='', ''filter.'' @ driver @ ''.process='',
      ''filter.'' @ driver @ ''.required=false'']"

definition content_filter_config_pins :: "git_library \<Rightarrow> string \<Rightarrow> string list option" where
  "content_filter_config_pins g cwd =
     map_option (\<lambda>ds. concat (map driver_pins ds)) (local_content_filter_drivers g cwd)"

definition local_git_config_entry_is_exec :: "git_library \<Rightarrow> string \<Rightarrow> string \<Rightarrow> bool" where
  "local_git_config_entry_is_exec g raw_name raw_value =
     (let name = to_ascii_lowercase raw_name; value = trim raw_value
      in if value = [] then False
         else if name = ''core.fsmonitor'' then \<not> parse_bool_ok g value
         else if name = ''diff.external'' then True
         else if (case strip_prefix name ''diff.'' of
                    Some rest \<Rightarrow> ends_with rest ''.command'' \<or> ends_with rest ''.textconv'' \<or> ends_with rest ''.external''
                  | None \<Rightarrow> False) then True
         else if filter_command_driver name \<noteq> None then True
         else case strip_prefix name ''alias.'' of
           Some alias \<Rightarrow> alias \<in> set SAFE_GIT_SUBCOMMANDS \<and> starts_with value ''!''
         | None \<Rightarrow> False)"

definition local_repo_config_has_exec_risk :: "git_library \<Rightarrow> string \<Rightarrow> bool" where
  "local_repo_config_has_exec_risk g cwd =
     (case read_local_git_config_entries g cwd of
        None \<Rightarrow> True
      | Some es \<Rightarrow> list_ex (\<lambda>(name, value). local_git_config_entry_is_exec g name value) es)"

section \<open>Where git would run\<close>

definition is_static_path_operand :: "string \<Rightarrow> bool" where
  "is_static_path_operand p =
     (p \<noteq> [] \<and> p \<noteq> ''-'' \<and> \<not> starts_with p ''-'' \<and> CHR ''$'' \<notin> set p \<and> CHR 0x60 \<notin> set p \<and>
      \<not> contains_str p ''$('')"

definition join_operand :: "string \<Rightarrow> string \<Rightarrow> string" where
  "join_operand base operand = (if is_absolute operand then operand else push_path base operand)"

text \<open>The loop over the operands of \<open>cd\<close>: \<open>None\<close> when it gives up, otherwise the target.\<close>

fun chdir_target :: "string option \<Rightarrow> string list \<Rightarrow> string option option" where
  "chdir_target target [] = Some target"
| "chdir_target target (tok # rest) =
     (if tok = ''--'' then Some (nth_opt rest 0)
      else if starts_with tok ''-'' then None
      else if target \<noteq> None then None
      else chdir_target (Some tok) rest)"

definition apply_literal_chdir :: "string \<Rightarrow> string list \<Rightarrow> string option" where
  "apply_literal_chdir cwd ws =
     (case chdir_target None (drop 1 ws) of
        Some (Some target) \<Rightarrow> if is_static_path_operand target then Some (join_operand cwd target) else None
      | _ \<Rightarrow> None)"

fun effective_cwd_loop :: "string \<Rightarrow> string list \<Rightarrow> string option" where
  "effective_cwd_loop cwd [] = Some cwd"
| "effective_cwd_loop cwd (tok # rest) =
     (if is_subcommand_start tok then Some cwd
      else if is_git_repo_retarget_flag tok then None
      else if tok = ''-C'' then
        (case rest of
           [] \<Rightarrow> None
         | path # rest' \<Rightarrow>
             if is_static_path_operand path then effective_cwd_loop (join_operand cwd path) rest' else None)
      else case attached_git_c_path tok of
        Some path \<Rightarrow>
          if is_static_path_operand path then effective_cwd_loop (join_operand cwd path) rest else None
      | None \<Rightarrow> effective_cwd_loop cwd (if consumes_value tok rest then drop 1 rest else rest))"

definition git_effective_cwd :: "string list \<Rightarrow> string \<Rightarrow> string option" where
  "git_effective_cwd ws start_cwd = effective_cwd_loop start_cwd (drop 1 ws)"

datatype ambient_scan_plan = PlanFailClosed | CheckDirs "string list"

fun scan_plan_loop :: "string list list \<Rightarrow> string \<Rightarrow> string list \<Rightarrow> ambient_scan_plan" where
  "scan_plan_loop [] cwd git_cwds = (if git_cwds = [] then PlanFailClosed else CheckDirs git_cwds)"
| "scan_plan_loop (raw # segments) cwd git_cwds =
     (case normalize_for_exec_risk raw of
        ArgvFailClosed \<Rightarrow> PlanFailClosed
      | ArgvReady ws \<Rightarrow>
          let name = normalized_program_name ws
          in if name = Some ''cd'' \<or> name = Some ''pushd'' then
               (case apply_literal_chdir cwd ws of
                  Some next \<Rightarrow> scan_plan_loop segments next git_cwds
                | None \<Rightarrow> PlanFailClosed)
             else if name = Some ''popd'' then PlanFailClosed
             else if name = Some ''git'' then
               (case git_effective_cwd ws cwd of
                  Some effective \<Rightarrow> scan_plan_loop segments cwd (git_cwds @ [effective])
                | None \<Rightarrow> PlanFailClosed)
             else scan_plan_loop segments cwd git_cwds)"

definition ambient_scan_plan_from_segments :: "string list list \<Rightarrow> string \<Rightarrow> ambient_scan_plan" where
  "ambient_scan_plan_from_segments raw_segments session_cwd = scan_plan_loop raw_segments session_cwd []"

definition ambient_exec_risk_from_plan :: "git_library \<Rightarrow> ambient_scan_plan \<Rightarrow> bool" where
  "ambient_exec_risk_from_plan g plan =
     (case plan of
        PlanFailClosed \<Rightarrow> True
      | CheckDirs dirs \<Rightarrow> list_ex (local_repo_config_has_exec_risk g) dirs)"

definition is_script_separator :: "char \<Rightarrow> bool" where
  "is_script_separator c =
     (c \<in> {CHR ''|'', CHR ''&'', CHR '';'', CHR ''('', CHR '')'', CHR 0x60, newline, CHR ''<'', CHR ''>''})"

function script_tokens :: "string \<Rightarrow> string list" where
  "script_tokens [] = [[]]"
| "script_tokens (c # s) =
     (if is_script_separator c then [] # script_tokens s
      else if ws_len (c # s) \<noteq> 0 then [] # script_tokens (drop (ws_len (c # s)) (c # s))
      else case script_tokens s of [] \<Rightarrow> [[c]] | t # ts \<Rightarrow> (c # t) # ts)"
  by pat_completeness auto
termination
  by (relation "measure length") auto

definition script_may_invoke_git :: "string \<Rightarrow> bool" where
  "script_may_invoke_git cmd =
     list_ex (\<lambda>token.
         let trimmed = trim_matches (\<lambda>c. c \<in> {CHR 0x27, CHR 0x22, CHR 0x60}) token
         in trimmed \<noteq> [] \<and> normalized_token_basename trimmed = ''git'') (script_tokens cmd)"

end
