(* ===== verification/Exec_Guarantees.thy ===== *)
theory Exec_Guarantees
  imports Exec_Risk
begin

text \<open>
  What the scan for execution risk guarantees: the read-only git queries have a fixed shape, a script without ambient
  risk runs git only where the repository's own settings run nothing, and the pins for unattended git name every
  content filter of the repository in a form git reads back.
\<close>

section \<open>Read-only git queries\<close>

text \<open>The options between \<open>git\<close> and its verb that a read-only query may have.\<close>

inductive query_globals :: "string list \<Rightarrow> bool" where
  none: "query_globals []"
| directory: "query_globals gs \<Longrightarrow> query_globals (''-C'' # path # gs)"
| attached_directory: "query_globals gs \<Longrightarrow> path \<noteq> [] \<Longrightarrow> query_globals ((''-C'' @ path) # gs)"
| no_pager: "query_globals gs \<Longrightarrow> g = ''--no-pager'' \<or> g = ''-P'' \<Longrightarrow> query_globals (g # gs)"

lemma attached_path_eq: "attached_git_c_path tok \<noteq> None \<longleftrightarrow> (\<exists>path. path \<noteq> [] \<and> tok = ''-C'' @ path)"
proof
  assume "\<exists>path. path \<noteq> [] \<and> tok = ''-C'' @ path"
  then show "attached_git_c_path tok \<noteq> None" by (auto simp: attached_git_c_path_def strip_prefix_def)
qed (auto simp: attached_git_c_path_def strip_prefix_eq_Some split: option.splits if_splits)

lemma globals_verb_index:
  "query_globals gs \<Longrightarrow> \<not> starts_with verb ''-'' \<Longrightarrow> verb_index_loop i (gs @ verb # args) = Some (i + length gs)"
proof (induction arbitrary: i rule: query_globals.induct)
  case none
  then show ?case by auto
next
  case (attached_directory gs path)
  have "attached_git_c_path (''-C'' @ path) \<noteq> None" using attached_directory.hyps(2) attached_path_eq by blast
  then show ?case using attached_directory by (auto simp: starts_with_iff_append)
qed (auto simp: starts_with_iff_append)

lemma verb_index_globals:
  "verb_index_loop i ws = Some j \<Longrightarrow>
   \<exists>gs verb args. ws = gs @ verb # args \<and> query_globals gs \<and> \<not> starts_with verb ''-'' \<and> j = i + length gs"
proof (induction i ws rule: verb_index_loop.induct)
  case (2 i tok rest)
  consider "\<not> starts_with tok ''-''" "j = i" | "tok = ''-C''" "verb_index_loop (i + 2) (drop 1 rest) = Some j"
    | "starts_with tok ''-''" "tok \<noteq> ''-''" "tok \<noteq> ''--''" "tok \<noteq> ''-C''"
      "attached_git_c_path tok \<noteq> None \<or> tok = ''--no-pager'' \<or> tok = ''-P''"
      "verb_index_loop (i + 1) rest = Some j"
    using 2(3) by (auto split: if_splits)
  then show ?case
  proof cases
    case 1
    then show ?thesis by (intro exI [of _ "[]"] exI [of _ tok] exI [of _ rest]) (auto intro: query_globals.none)
  next
    case 2
    then obtain gs verb args where rest: "drop 1 rest = gs @ verb # args" "query_globals gs" "\<not> starts_with verb ''-''"
      "j = i + 2 + length gs"
      using "2.IH"(1) by (auto simp: starts_with_iff_append)
    obtain path where "rest = path # gs @ verb # args" using rest(1) by (cases rest) auto
    then show ?thesis
      using rest \<open>tok = ''-C''\<close> query_globals.directory [OF rest(2), of path] by (intro exI [of _ "''-C'' # path # gs"]) auto
  next
    case 3
    then obtain gs verb args where rest: "rest = gs @ verb # args" "query_globals gs" "\<not> starts_with verb ''-''"
      "j = i + 1 + length gs"
      using "2.IH"(2) by auto
    have "query_globals (tok # gs)"
      using 3(5) unfolding attached_path_eq
      by (elim disjE exE conjE) (simp_all only: query_globals.attached_directory query_globals.no_pager rest(2) simp_thms)
    then show ?thesis using rest by (intro exI [of _ "tok # gs"]) auto
  qed
qed simp

lemma verb_index_iff:
  "verb_index_loop i ws = Some j \<longleftrightarrow>
   (\<exists>gs verb args. ws = gs @ verb # args \<and> query_globals gs \<and> \<not> starts_with verb ''-'' \<and> j = i + length gs)"
  using verb_index_globals globals_verb_index by blast

lemma safe_verbs: "verb \<in> set SAFE_GIT_SUBCOMMANDS \<Longrightarrow> \<not> starts_with verb ''-''"
  by (auto simp: SAFE_GIT_SUBCOMMANDS_def)

lemma before_equals_prefix: "prefix (before_equals w) w"
  by (auto simp: before_equals_def split_once_def take_is_prefix split: option.split)

text \<open>A long option that git would read as an abbreviation of an option with side effects.\<close>

definition abbreviates :: "string \<Rightarrow> string \<Rightarrow> bool" where
  "abbreviates w option = (prefix (before_equals w) option \<and> 3 \<le> length (before_equals w))"

lemma unsafe_iff: "git_query_option_is_unsafe w \<longleftrightarrow> list_ex (abbreviates w) GIT_QUERY_UNSAFE_OPTIONS"
  by (auto simp: git_query_option_is_unsafe_def abbreviates_def starts_with_prefix list_ex_iff Let_def)

lemma unsafe_options_dashed: "list_ex (abbreviates w) GIT_QUERY_UNSAFE_OPTIONS \<Longrightarrow> starts_with w ''-''"
proof -
  assume "list_ex (abbreviates w) GIT_QUERY_UNSAFE_OPTIONS"
  then obtain opt where "opt \<in> set GIT_QUERY_UNSAFE_OPTIONS" "prefix (before_equals w) opt"
    "3 \<le> length (before_equals w)"
    by (auto simp: list_ex_iff abbreviates_def)
  moreover from this(1) obtain rest where "opt = CHR ''-'' # rest"
    by (auto simp: GIT_QUERY_UNSAFE_OPTIONS_def)
  ultimately have "prefix ''-'' (before_equals w)"
    by (cases "before_equals w") auto
  then show ?thesis using before_equals_prefix prefix_order.trans starts_with_prefix by blast
qed

text \<open>The words around the verb: none abbreviates an option that runs a driver or writes a file, and \<open>git grep\<close> opens no
  pager.\<close>

definition harmless :: "string \<Rightarrow> string list \<Rightarrow> bool" where
  "harmless verb ws =
     list_all (\<lambda>w. \<not> list_ex (abbreviates w) GIT_QUERY_UNSAFE_OPTIONS \<and> \<not> (verb = ''grep'' \<and> prefix ''-O'' w)) ws"

lemma query_options_harmless:
  assumes "query_globals gs" and "verb \<in> set SAFE_GIT_SUBCOMMANDS"
  shows "\<not> git_words_have_unsafe_query_option (''git'' # gs @ verb # args) \<longleftrightarrow> harmless verb (gs @ args)"
proof -
  have dash: "\<not> starts_with verb ''-''" by (rule safe_verbs [OF assms(2)])
  have index: "git_safe_query_verb_index (''git'' # gs @ verb # args) = Some (Suc (length gs))"
    using globals_verb_index [OF assms(1) dash, of 1 args] by (simp add: git_safe_query_verb_index_def)
  have verb: "\<not> list_ex (abbreviates verb) GIT_QUERY_UNSAFE_OPTIONS" using dash unsafe_options_dashed by blast
  have pager: "\<not> starts_with verb ''-O''" using dash by (cases verb) auto
  have nth: "nth_opt (''git'' # gs @ verb # args) (Suc (length gs)) = Some verb" by (simp add: nth_opt_def)
  show ?thesis
    using verb pager
    by (auto simp: git_words_have_unsafe_query_option_def harmless_def index nth nth_opt_def [of _ 0] unsafe_iff list_all_iff
        list_ex_iff starts_with_prefix)
qed

text \<open>C38: The commands approved as read-only git queries are exactly those of the form \<open>git\<close>, options that only move to a
  directory or switch the pager off, a verb of the table, and words among which none abbreviates an option that runs a
  driver or writes a file (nor, for \<open>grep\<close>, opens a pager), provided no option in front of the verb changes
  the configuration or the repository.\<close>

theorem read_only_queries:
  "git_words_are_read_only_query ws \<longleftrightarrow>
   (\<exists>gs verb args. ws = ''git'' # gs @ verb # args \<and> query_globals gs \<and> verb \<in> set SAFE_GIT_SUBCOMMANDS \<and>
      harmless verb (gs @ args)) \<and>
   \<not> git_has_exec_risk_global ws"
proof
  assume "git_words_are_read_only_query ws"
  then obtain i where i: "nth_opt ws 0 = Some ''git''" "\<not> git_has_exec_risk_global ws"
      "git_safe_query_verb_index ws = Some i" "\<exists>w. nth_opt ws i = Some w \<and> w \<in> set SAFE_GIT_SUBCOMMANDS"
      "\<not> git_words_have_unsafe_query_option ws"
    by (auto simp: git_words_are_read_only_query_def split: if_splits option.splits)
  obtain rest where ws: "ws = ''git'' # rest" using i(1) by (cases ws) (auto simp: nth_opt_def)
  obtain gs verb args where q: "rest = gs @ verb # args" "query_globals gs" "i = 1 + length gs"
    using verb_index_globals [of 1 rest i] i(3) by (auto simp: git_safe_query_verb_index_def ws)
  have "verb \<in> set SAFE_GIT_SUBCOMMANDS" using i(4) by (auto simp: ws q nth_opt_def)
  moreover from query_options_harmless [OF q(2) this, of args] i(5) have "harmless verb (gs @ args)" by (simp add: ws q(1))
  ultimately show "(\<exists>gs verb args. ws = ''git'' # gs @ verb # args \<and> query_globals gs \<and> verb \<in> set SAFE_GIT_SUBCOMMANDS \<and>
      harmless verb (gs @ args)) \<and> \<not> git_has_exec_risk_global ws"
    using ws q i(2) by blast
next
  assume "(\<exists>gs verb args. ws = ''git'' # gs @ verb # args \<and> query_globals gs \<and> verb \<in> set SAFE_GIT_SUBCOMMANDS \<and>
      harmless verb (gs @ args)) \<and> \<not> git_has_exec_risk_global ws"
  then obtain gs verb args where q: "ws = ''git'' # gs @ verb # args" "query_globals gs" "verb \<in> set SAFE_GIT_SUBCOMMANDS"
    "harmless verb (gs @ args)" "\<not> git_has_exec_risk_global ws" by blast
  have "git_safe_query_verb_index ws = Some (1 + length gs)"
    using globals_verb_index [OF q(2) safe_verbs [OF q(3)], of 1 args] by (simp add: git_safe_query_verb_index_def q(1))
  moreover have "nth_opt ws (1 + length gs) = Some verb" "nth_opt ws 0 = Some ''git''" by (simp_all add: nth_opt_def q(1))
  moreover have "\<not> git_words_have_unsafe_query_option ws" using query_options_harmless [OF q(2,3)] q(4) by (simp add: q(1))
  ultimately show "git_words_are_read_only_query ws" using q(3,5) by (simp add: git_words_are_read_only_query_def)
qed

section \<open>Entries of the repository's configuration\<close>

text \<open>The value of an entry: a bare key is true, and text that is not UTF-8 is none.\<close>

definition entry_text :: "config_entry \<Rightarrow> string option" where
  "entry_text e = (if entry_has_value e then entry_value e else Some ''true'')"

text \<open>What one entry contributes; \<open>None\<close> makes the whole reading fail.\<close>

definition entry_pairs :: "config_entry \<Rightarrow> (string \<times> string) list option" where
  "entry_pairs e =
     (if \<not> entry_local e then Some []
      else case entry_name e of
        None \<Rightarrow> None
      | Some name \<Rightarrow>
          if local_includeif_unsupported name then None
          else if filter_command_driver name \<noteq> None \<and> \<not> (entry_has_value e \<and> entry_value e \<noteq> None) then None
          else Some (case entry_text e of None \<Rightarrow> [] | Some value \<Rightarrow> [(name, value)]))"

lemma config_entries_step:
  "config_entries_loop (Some e # es) out =
   (case entry_pairs e of None \<Rightarrow> None | Some ps \<Rightarrow> config_entries_loop es (out @ ps))"
  by (auto simp: entry_pairs_def entry_text_def split: option.split)

lemma config_entries_read:
  assumes "config_entries_loop es out = Some res"
  shows "\<exists>pss. map (\<lambda>e. Option.bind e entry_pairs) es = map Some pss \<and> res = out @ concat pss"
  using assms
proof (induction es arbitrary: out)
  case (Cons e es)
  from Cons.prems obtain e' where e: "e = Some e'" by (cases e) auto
  with Cons.prems obtain ps where ps: "entry_pairs e' = Some ps" "config_entries_loop es (out @ ps) = Some res"
    by (auto simp: config_entries_step simp del: config_entries_loop.simps split: option.splits)
  from Cons.IH [OF ps(2)] obtain pss where
    "map (\<lambda>e. Option.bind e entry_pairs) es = map Some pss" "res = (out @ ps) @ concat pss" by blast
  then show ?case using e ps(1) by (intro exI [of _ "ps # pss"]) simp
qed simp

lemma local_entries_read:
  assumes "config_entries_loop es [] = Some res" and "Some e \<in> set es"
  obtains ps where "entry_pairs e = Some ps" and "set ps \<subseteq> set res"
proof -
  from config_entries_read [OF assms(1)] obtain pss where
    pss: "map (\<lambda>e. Option.bind e entry_pairs) es = map Some pss" "res = concat pss" by auto
  have "Option.bind (Some e) entry_pairs \<in> set (map (\<lambda>e. Option.bind e entry_pairs) es)" using assms(2) by force
  then obtain ps where "entry_pairs e = Some ps" "ps \<in> set pss" unfolding pss(1) by auto
  with that show thesis using pss(2) by auto
qed

lemma read_entry_origin:
  assumes "config_entries_loop es [] = Some res" and "p \<in> set res"
  obtains e where "Some e \<in> set es" and "entry_local e" and "entry_name e = Some (fst p)" and "entry_text e = Some (snd p)"
proof -
  from config_entries_read [OF assms(1)] obtain pss where
    pss: "map (\<lambda>e. Option.bind e entry_pairs) es = map Some pss" "res = concat pss" by auto
  obtain ps where ps: "ps \<in> set pss" "p \<in> set ps" using assms(2) pss(2) by auto
  then have "Some ps \<in> set (map (\<lambda>e. Option.bind e entry_pairs) es)" unfolding pss(1) by simp
  then obtain e where e: "Some e \<in> set es" "entry_pairs e = Some ps" by (auto simp: bind_eq_Some_conv dest!: sym [of "Some ps"])
  from e(2) ps(2) have "entry_local e \<and> entry_name e = Some (fst p) \<and> entry_text e = Some (snd p)"
    by (auto simp: entry_pairs_def split: if_splits option.splits)
  then show thesis using that [OF e(1)] by blast
qed

section \<open>Where a script runs git\<close>

text \<open>
  \<open>acts_as raw ws\<close>: the command \<open>raw\<close> runs the program and arguments \<open>ws\<close>, directly or through \<open>nice\<close>, \<open>timeout\<close>, \<open>command\<close> and
  \<open>env\<close> written in their plain form.
\<close>

definition plain_program :: "string \<Rightarrow> bool" where
  "plain_program p \<longleftrightarrow>
     basename p \<notin> {''timeout'', ''nice'', ''ionice'', ''chrt'', ''stdbuf'', ''env'', ''exec'', ''command'', ''builtin''}"

inductive acts_as :: "string list \<Rightarrow> string list \<Rightarrow> bool" where
  direct: "plain_program p \<Longrightarrow> acts_as (p # args) (p # args)"
| under_nice: "acts_as (w # ws) inner \<Longrightarrow> \<not> starts_with w ''-'' \<Longrightarrow> acts_as (''nice'' # w # ws) inner"
| under_timeout: "acts_as (w # ws) inner \<Longrightarrow> \<not> starts_with limit ''-'' \<Longrightarrow> acts_as (''timeout'' # limit # w # ws) inner"
| under_env: "acts_as (w # ws) inner \<Longrightarrow> \<not> starts_with w ''-'' \<Longrightarrow> \<not> is_env_assignment w \<Longrightarrow> list_all is_env_assignment vars \<Longrightarrow>
    acts_as (''env'' # vars @ w # ws) inner"
| under_command: "acts_as (w # ws) inner \<Longrightarrow> \<not> starts_with w ''-'' \<Longrightarrow> acts_as (''command'' # w # ws) inner"

text \<open>The directory git works in, given what follows the word \<open>git\<close>.\<close>

inductive git_directory :: "string \<Rightarrow> string list \<Rightarrow> string \<Rightarrow> bool" where
  alone: "git_directory cwd [] cwd"
| verb: "\<not> starts_with v ''-'' \<Longrightarrow> git_directory cwd (v # args) cwd"
| no_pager: "g = ''--no-pager'' \<or> g = ''-P'' \<Longrightarrow> git_directory cwd rest d \<Longrightarrow> git_directory cwd (g # rest) d"
| directory: "git_directory (join_operand cwd path) rest d \<Longrightarrow> git_directory cwd (''-C'' # path # rest) d"
| attached_directory: "path \<noteq> [] \<Longrightarrow> git_directory (join_operand cwd path) rest d \<Longrightarrow> git_directory cwd ((''-C'' @ path) # rest) d"

text \<open>
  \<open>runs_git cwd segments d\<close>: one of the commands is a git that works in directory \<open>d\<close>, when the script starts in \<open>cwd\<close> and
  its commands are run one after the other, each \<open>cd\<close> taking effect.
\<close>

inductive runs_git :: "string \<Rightarrow> string list list \<Rightarrow> string \<Rightarrow> bool" where
  here: "acts_as raw (''git'' # options) \<Longrightarrow> git_directory cwd options d \<Longrightarrow> runs_git cwd (raw # segments) d"
| moved: "p = ''cd'' \<or> p = ''pushd'' \<Longrightarrow> is_static_path_operand dir \<Longrightarrow> runs_git (join_operand cwd dir) segments d \<Longrightarrow>
    runs_git cwd ([p, dir] # segments) d"
| later: "acts_as raw ws \<Longrightarrow> normalized_program_name ws \<notin> {Some ''cd'', Some ''pushd'', Some ''popd''} \<Longrightarrow>
    runs_git cwd segments d \<Longrightarrow> runs_git cwd (raw # segments) d"

text \<open>One layer: a plain program is left alone, a wrapper or \<open>command\<close> gives way to what it runs.\<close>

definition plain_layer :: "string list \<Rightarrow> string list \<Rightarrow> bool" where
  "plain_layer raw ws \<longleftrightarrow>
     (head_basename raw = Some ''env'' \<longrightarrow> chdir (env_scan raw) = None \<and> \<not> scan_split_string (env_scan raw)) \<and>
     ((strip_wrapper_command raw = None \<and> strip_transparent_prefix raw = NotPrefix \<and> raw = ws) \<or>
      (\<exists>inner. strip_wrapper_command raw = Some inner \<and> strip_transparent_prefix raw = NotPrefix \<and> acts_as inner ws \<and>
         length inner < length raw) \<or>
      (\<exists>inner. strip_wrapper_command raw = None \<and> strip_transparent_prefix raw = Peeled inner \<and> acts_as inner ws \<and>
         length inner < length raw))"

lemma acts_as_nonempty: "acts_as raw ws \<Longrightarrow> raw \<noteq> []"
  by (cases rule: acts_as.cases) auto

lemma env_assignment_dashless: "is_env_assignment w \<Longrightarrow> \<not> starts_with w ''-''"
  by (cases w) (auto simp: is_env_assignment_def is_ascii_alphabetic_def is_ascii_upper_def is_ascii_lower_def
      is_ascii_alphanumeric_def is_ascii_digit_def get_to_def split: option.splits list.splits if_splits)

lemma env_scan_plain:
  assumes "\<not> starts_with w ''-''" "\<not> is_env_assignment w" "list_all is_env_assignment vars"
  shows "env_scan_loop (vars @ w # ws) i dir = scan_end dir (i + length vars)"
  using assms(3)
proof (induction vars arbitrary: i)
  case Nil
  have "w \<noteq> ''--'' \<and> w \<noteq> ''-''" using assms(1) by auto
  then show ?case using assms(1,2) by (simp add: env_scan_word_def)
next
  case (Cons v vars)
  then have "v \<noteq> ''--'' \<and> v \<noteq> ''-'' \<and> \<not> starts_with v ''-''" using env_assignment_dashless [of v] by auto
  then show ?case using Cons by (simp add: env_scan_word_def)
qed

lemma literal_basenames:
  "basename ''nice'' = ''nice''" "basename ''timeout'' = ''timeout''" "basename ''env'' = ''env''" "basename ''command'' = ''command''"
  "basename ''git'' = ''git''" "basename ''cd'' = ''cd''" "basename ''pushd'' = ''pushd''"
  by code_simp+

lemmas layer_simps = plain_layer_def strip_wrapper_command_def strip_transparent_prefix_def head_basename_def inner_from_def
  inner_after_mandatory_def strip_command_prefix_def literal_basenames

lemma acts_as_layer:
  assumes "acts_as raw ws"
  shows "plain_layer raw ws"
  using assms
proof cases
  case (direct p args)
  then show ?thesis by (auto simp: layer_simps plain_program_def)
next
  case (under_nice w rest)
  then show ?thesis by (simp add: layer_simps)
next
  case (under_timeout w rest limit)
  then show ?thesis by (simp add: layer_simps)
next
  case (under_env w rest vars)
  then have "env_scan raw = scan_end None (1 + length vars)"
    using env_scan_plain [of w vars rest 1 None] by (simp add: env_scan_def)
  then show ?thesis using under_env by (simp add: layer_simps scan_end_def)
next
  case (under_command w rest)
  then have "w \<noteq> ''--''" by auto
  then show ?thesis using under_command by (simp add: layer_simps)
qed

lemma unwrap_layers:
  assumes "acts_as raw ws"
  shows "\<exists>raw'. peel_words (unwrap_loop n raw acc) = raw' \<and> acts_as raw' ws \<and> length raw' \<le> length raw \<and>
    (\<not> peel_exhausted (unwrap_loop n raw acc) \<longrightarrow> strip_wrapper_command raw' = None)"
  using assms
proof (induction n arbitrary: raw acc)
  case 0
  have "is_wrapper_command raw" if "strip_wrapper_command raw \<noteq> None"
    using that by (auto simp: strip_wrapper_command_def is_wrapper_command_def split: option.splits if_splits)
  then show ?case using 0 by force
next
  case (Suc n)
  show ?case
  proof (cases "strip_wrapper_command raw")
    case None
    then show ?thesis using Suc.prems by (simp add: scan_into_def Let_def)
  next
    case (Some inner)
    have inner: "acts_as inner ws" "length inner < length raw"
      using acts_as_layer [OF Suc.prems] by (auto simp: plain_layer_def Some)
    show ?thesis using Suc.IH [OF inner(1), of "scan_into raw acc"] inner(2) by (auto simp: Some Let_def)
  qed
qed

lemma peel_layers:
  assumes "acts_as raw ws" and "peel_transparent_loop n raw = Ready raw'"
  shows "acts_as raw' ws \<and> strip_transparent_prefix raw' = NotPrefix \<and> (raw' = raw \<or> length raw' < length raw)"
  using assms
proof (induction n arbitrary: raw)
  case 0
  then show ?case by (auto split: transparent_strip.splits)
next
  case (Suc n)
  show ?case
  proof (cases "strip_transparent_prefix raw")
    case (Peeled inner)
    then have inner: "acts_as inner ws" "length inner < length raw"
      using acts_as_layer [OF Suc.prems(1)] by (auto simp: plain_layer_def)
    show ?thesis using Suc.IH [OF inner(1)] Suc.prems(2) Peeled inner(2) by auto
  qed (use Suc.prems in auto)
qed

lemma normalize_acts_as:
  assumes "acts_as raw ws" and "exec_normalize_loop n raw = ArgvReady x"
  shows "x = ws"
  using assms
proof (induction n arbitrary: raw)
  case (Suc n)
  let ?checked = "unwrap_wrappers_checked raw"
  have words: "acts_as (peel_words ?checked) ws" "length (peel_words ?checked) \<le> length raw"
    "\<not> peel_exhausted ?checked \<longrightarrow> strip_wrapper_command (peel_words ?checked) = None"
    using unwrap_layers [OF Suc.prems(1)] unfolding unwrap_wrappers_checked_def by metis+
  obtain after where after: "\<not> peel_exhausted ?checked" "peel_transparent_prefixes (peel_words ?checked) = Ready after"
    "(if length after = length raw \<or> length after = length (peel_words ?checked) then ArgvReady after
      else exec_normalize_loop n after) = ArgvReady x"
    using Suc.prems(2) by (auto simp: Let_def split: if_splits transparent_prefix_peel.splits)
  note peeled = peel_layers [OF words(1) after(2) [unfolded peel_transparent_prefixes_def]]
  show ?case
  proof (cases "length after = length raw \<or> length after = length (peel_words ?checked)")
    case True
    then have same: "after = peel_words ?checked" using peeled words(2) by auto
    have "after = ws"
      using acts_as_layer [OF words(1)] peeled words(3) after(1) by (auto simp: plain_layer_def same)
    then show ?thesis using after(3) True by simp
  next
    case False
    then show ?thesis using Suc.IH [of after] peeled after(3) by simp
  qed
qed simp

lemma git_directory_found: "git_directory cwd options d \<Longrightarrow> effective_cwd_loop cwd options = Some e \<Longrightarrow> e = d"
proof (induction rule: git_directory.induct)
  case (verb v cwd args)
  then show ?case by (simp add: is_subcommand_start_def)
next
  case (no_pager g cwd rest d)
  have "\<not> is_subcommand_start g \<and> \<not> is_git_repo_retarget_flag g \<and> g \<noteq> ''-C'' \<and> attached_git_c_path g = None \<and> \<not> consumes_value g rest"
    using no_pager.hyps(1) by (elim disjE; simp only: simp_thms; code_simp)
  then show ?case using no_pager by simp
next
  case (directory cwd path rest d)
  have "\<not> is_subcommand_start ''-C'' \<and> \<not> is_git_repo_retarget_flag ''-C''" by code_simp
  then show ?case using directory by (simp split: if_splits)
next
  case (attached_directory path cwd rest d)
  have "\<not> is_subcommand_start (''-C'' @ path) \<and> ''-C'' @ path \<noteq> ''-C'' \<and> attached_git_c_path (''-C'' @ path) = Some path"
    using attached_directory.hyps(1) by (simp add: is_subcommand_start_def attached_git_c_path_def strip_prefix_def)
  then show ?case using attached_directory by (simp split: if_splits)
qed simp

lemma scan_plan_keeps:
  "scan_plan_loop segments cwd git_cwds = CheckDirs dirs \<Longrightarrow> set git_cwds \<subseteq> set dirs"
proof (induction segments arbitrary: cwd git_cwds)
  case (Cons raw segments)
  then show ?case
    using Cons.IH by (fastforce simp: Let_def split: normalized_argv.splits if_splits option.splits)
qed (auto split: if_splits)

lemma literal_program_names:
  "normalized_program_name (''git'' # args) = Some ''git''" "normalized_program_name (''cd'' # args) = Some ''cd''"
  "normalized_program_name (''pushd'' # args) = Some ''pushd''"
proof -
  have "(let name = to_ascii_lowercase w in Some (case strip_suffix name ''.exe'' of Some stem \<Rightarrow> stem | None \<Rightarrow> name)) = Some w"
    if "w \<in> {''git'', ''cd'', ''pushd''}" for w
    using that by (elim insertE; (simp only: empty_iff)?; code_simp)
  then show "normalized_program_name (''git'' # args) = Some ''git''" "normalized_program_name (''cd'' # args) = Some ''cd''"
    "normalized_program_name (''pushd'' # args) = Some ''pushd''"
    by (simp_all add: normalized_program_name_def literal_basenames)
qed

lemma scan_plan_runs:
  "runs_git cwd segments d \<Longrightarrow> scan_plan_loop segments cwd git_cwds = CheckDirs dirs \<Longrightarrow> d \<in> set dirs"
proof (induction arbitrary: git_cwds rule: runs_git.induct)
  case (here raw options cwd d segments)
  obtain ws where ready: "normalize_for_exec_risk raw = ArgvReady ws"
    using here.prems by (cases "normalize_for_exec_risk raw") auto
  then have ws: "ws = ''git'' # options" using normalize_acts_as [OF here.hyps(1)] by (simp add: normalize_for_exec_risk_def)
  obtain e where e: "git_effective_cwd ws cwd = Some e" "scan_plan_loop segments cwd (git_cwds @ [e]) = CheckDirs dirs"
    using here.prems by (auto simp: ready ws literal_program_names split: option.splits)
  have "e = d" using git_directory_found [OF here.hyps(2)] e(1) by (simp add: git_effective_cwd_def ws)
  then show ?case using scan_plan_keeps [OF e(2)] by auto
next
  case (moved p dir cwd segments d)
  have "acts_as [p, dir] [p, dir]"
    using moved.hyps(1) by (intro acts_as.direct) (auto simp: plain_program_def literal_basenames)
  moreover obtain ws where ready: "normalize_for_exec_risk [p, dir] = ArgvReady ws"
    using moved.prems by (cases "normalize_for_exec_risk [p, dir]") auto
  ultimately have ws: "ws = [p, dir]" using normalize_acts_as by (simp add: normalize_for_exec_risk_def)
  have "dir \<noteq> ''--'' \<and> \<not> starts_with dir ''-''" using moved.hyps(2) by (auto simp: is_static_path_operand_def)
  then have "apply_literal_chdir cwd [p, dir] = Some (join_operand cwd dir)"
    using moved.hyps(2) by (simp add: apply_literal_chdir_def)
  moreover have "normalized_program_name [p, dir] = Some p" using moved.hyps(1) literal_program_names by auto
  ultimately have "scan_plan_loop segments (join_operand cwd dir) git_cwds = CheckDirs dirs"
    using moved.prems moved.hyps(1) by (auto simp: ready ws)
  then show ?case by (rule moved.IH)
next
  case (later raw ws cwd segments d)
  obtain ws' where ready: "normalize_for_exec_risk raw = ArgvReady ws'"
    using later.prems by (cases "normalize_for_exec_risk raw") auto
  then have "ws' = ws" using normalize_acts_as [OF later.hyps(1)] by (simp add: normalize_for_exec_risk_def)
  then obtain acc where "scan_plan_loop segments cwd acc = CheckDirs dirs"
    using later.prems later.hyps(2) ready by (auto split: if_splits option.splits)
  then show ?case by (rule later.IH)
qed

lemma scan_plan_sees_git:
  "scan_plan_loop segments cwd git_cwds = CheckDirs dirs \<Longrightarrow>
   git_cwds \<noteq> [] \<or> (\<exists>raw ws. raw \<in> set segments \<and> normalize_for_exec_risk raw = ArgvReady ws \<and> is_git_program ws)"
proof (induction segments arbitrary: cwd git_cwds)
  case (Cons raw segments)
  show ?case
  proof (cases "\<exists>ws. normalize_for_exec_risk raw = ArgvReady ws \<and> is_git_program ws")
    case False
    obtain ws where ready: "normalize_for_exec_risk raw = ArgvReady ws"
      using Cons.prems by (cases "normalize_for_exec_risk raw") auto
    then obtain cwd' where "scan_plan_loop segments cwd' git_cwds = CheckDirs dirs"
      using Cons.prems False by (auto simp: is_git_program_def Let_def split: if_splits option.splits)
    from Cons.IH [OF this] show ?thesis by auto
  qed auto
qed (auto split: if_splits)

section \<open>Settings that run a program\<close>

text \<open>
  The settings with which a repository makes a git query run a program: a file-system monitor that is no truth value, an external
  diff, a command or text conversion of a diff driver, a command of a content filter, and an alias that turns one of the query
  verbs into a shell command. Keys are compared in lower case, and a blank value sets nothing. The name of a filter is text, so it
  does not start within a character.
\<close>

definition filter_key :: "string \<Rightarrow> bool" where
  "filter_key name \<longleftrightarrow>
     (\<exists>driver what. to_ascii_lowercase name = ''filter.'' @ driver @ ''.'' @ what \<and> what \<in> {''clean'', ''smudge'', ''process''} \<and>
        driver \<noteq> [] \<and> \<not> is_continuation (hd driver))"

definition setting_runs_program :: "git_library \<Rightarrow> string \<Rightarrow> string \<Rightarrow> bool" where
  "setting_runs_program g name v \<longleftrightarrow>
     trim v \<noteq> [] \<and>
     (to_ascii_lowercase name = ''core.fsmonitor'' \<and> \<not> parse_bool_ok g (trim v) \<or>
      to_ascii_lowercase name = ''diff.external'' \<or>
      (\<exists>driver. to_ascii_lowercase name \<in> {''diff.'' @ driver @ ''.command'', ''diff.'' @ driver @ ''.textconv''}) \<or>
      filter_key name \<or>
      (\<exists>verb script. to_ascii_lowercase name = ''alias.'' @ verb \<and> verb \<in> set SAFE_GIT_SUBCOMMANDS \<and> trim v = ''!'' @ script))"

lemma lowercase_boundary: "is_continuation (to_ascii_lowercase_char c) = is_continuation c"
  by (auto simp: is_continuation_def to_ascii_lowercase_char_def is_ascii_upper_def)

lemma lowercase_append:
  "to_ascii_lowercase s = a @ b \<Longrightarrow> \<exists>u v. s = u @ v \<and> to_ascii_lowercase u = a \<and> to_ascii_lowercase v = b"
  by (auto simp: to_ascii_lowercase_def map_eq_append_conv)

lemma filter_key_driver:
  assumes "filter_key name"
  shows "filter_command_driver name \<noteq> None"
proof -
  obtain driver what where key: "to_ascii_lowercase name = ''filter.'' @ driver @ ''.'' @ what"
      "what \<in> {''clean'', ''smudge'', ''process''}" "driver \<noteq> []" "\<not> is_continuation (hd driver)"
    using assms by (auto simp: filter_key_def)
  obtain h r where h: "name = h @ r" "to_ascii_lowercase h = ''filter.''" "to_ascii_lowercase r = driver @ ''.'' @ what"
    using lowercase_append [OF key(1)] by blast
  obtain d q where d: "r = d @ q" "to_ascii_lowercase d = driver" "to_ascii_lowercase q = ''.'' @ what"
    using lowercase_append [OF h(3)] by blast
  obtain x w where x: "q = x @ w" "to_ascii_lowercase x = ''.''" "to_ascii_lowercase w = what"
    using lowercase_append [OF d(3)] by blast
  note name = h(1) [unfolded d(1) x(1)] h(2) d(2) x(2,3)
  have dot: "to_ascii_lowercase_char c = CHR ''.'' \<longleftrightarrow> c = CHR ''.''" for c
    using lowercase_char_other [of "CHR ''.''" c] by (simp add: is_ascii_lower_def is_ascii_upper_def)
  have x': "x = ''.''" using name(4) dot by (cases x) (auto simp: to_ascii_lowercase_def)
  have "length (to_ascii_lowercase h) = 7" by (simp add: name(2))
  then have len: "length h = 7" by (simp add: to_ascii_lowercase_def)
  have "CHR ''.'' \<notin> set w"
  proof
    assume "CHR ''.'' \<in> set w"
    then have "to_ascii_lowercase_char (CHR ''.'') \<in> set (to_ascii_lowercase w)" unfolding to_ascii_lowercase_def set_map by (rule imageI)
    moreover have "to_ascii_lowercase_char (CHR ''.'') = CHR ''.''" by (simp only: dot)
    ultimately have "CHR ''.'' \<in> set what" by (simp only: name(5))
    then show False using key(2) by auto
  qed
  then have split: "rsplit_once (d @ x @ w) (CHR ''.'') = Some (d, w)" using rsplit_once_append by (simp add: x')
  have "d \<noteq> []" using key(3) name(3) by (auto simp: to_ascii_lowercase_def)
  then obtain c cs where c: "d = c # cs" by (cases d) auto
  have "hd driver = to_ascii_lowercase_char c" unfolding name(3) [symmetric] by (simp add: c to_ascii_lowercase_def)
  then have "\<not> is_continuation c" using key(4) by (simp add: lowercase_boundary)
  then have boundary: "is_char_boundary name 7" by (simp add: is_char_boundary_def name(1) c len nth_append)
  have halves: "take 7 name = h" "drop 7 name = d @ x @ w" "7 \<le> length name" by (simp_all add: name(1) len)
  have "filter_command_driver name =
      (if eq_ignore_ascii_case w ''clean'' \<or> eq_ignore_ascii_case w ''smudge'' \<or> eq_ignore_ascii_case w ''process'' then Some d else None)"
    by (simp add: filter_command_driver_def get_to_def get_from_def boundary halves split eq_ignore_ascii_case_def [of h] name(2)
        \<open>d \<noteq> []\<close> to_ascii_lowercase_def [of "''filter.''"] to_ascii_lowercase_char_def is_ascii_upper_def)
  moreover have "to_ascii_lowercase what = what" using key(2) unfolding name(5) [symmetric] by simp
  ultimately show ?thesis using key(2) name(5) by (auto simp: eq_ignore_ascii_case_def)
qed

lemma setting_is_exec:
  assumes "setting_runs_program g name v"
  shows "local_git_config_entry_is_exec g name v"
proof -
  have lower: "filter_command_driver (to_ascii_lowercase name) \<noteq> None" if "filter_key name"
    using that by (intro filter_key_driver) (simp add: filter_key_def)
  have ends: "ends_with (driver @ suffix) suffix" for driver suffix :: string by (simp add: ends_with_suffix suffix_def)
  have "to_ascii_lowercase name \<noteq> ''core.fsmonitor''" if "filter_key name" using that by (auto simp: filter_key_def)
  then show ?thesis
    using assms lower ends [of _ "''.command''"] ends [of _ "''.textconv''"]
    by (auto simp: setting_runs_program_def local_git_config_entry_is_exec_def Let_def strip_prefix_def)
qed

lemma readable_entries:
  assumes "read_local_git_config_entries g d = Some res" and "discover g d = Repository git_dir common"
    and "config_entries g d = Some es"
  shows "config_entries_loop es [] = Some res"
  using assms by (auto simp: read_local_git_config_entries_def split: if_splits)


section \<open>Pins for unattended git\<close>

text \<open>The content filters that the repository's own settings give a command: entries whose value is not blank.\<close>

definition active_filters :: "config_entry option list \<Rightarrow> string set" where
  "active_filters es =
     {driver. \<exists>e name. Some e \<in> set es \<and> entry_local e \<and> entry_name e = Some name \<and>
        filter_command_driver name = Some driver \<and> \<not> (\<exists>value. entry_text e = Some value \<and> trim value = [])}"

lemma filter_drivers_read:
  "filter_drivers_loop es drivers = Some res \<Longrightarrow>
   set res = set drivers \<union> {d. \<exists>name value. (name, value) \<in> set es \<and> trim value \<noteq> [] \<and> filter_command_driver name = Some d}"
proof (induction es drivers rule: filter_drivers_loop.induct)
  case (2 name v es drivers)
  then show ?case
    by (cases "trim v = []"; cases "filter_command_driver name")
      (auto simp: set_insort_insert split: if_splits)
qed auto

lemma list_all_insort_insert: "list_all P (insort_insert x xs) \<longleftrightarrow> P x \<and> list_all P xs"
  by (auto simp: list_all_iff set_insort_insert)

lemma filter_drivers_pinnable:
  "filter_drivers_loop es drivers = Some res \<Longrightarrow> list_all filter_driver_name_is_pinnable drivers \<Longrightarrow>
   list_all filter_driver_name_is_pinnable res"
proof (induction es drivers rule: filter_drivers_loop.induct)
  case (2 name v es drivers)
  then show ?case
    by (cases "trim v = []"; cases "filter_command_driver name")
      (simp_all add: list_all_insort_insert split: if_splits)
qed simp

lemma pinnable_chars:
  "filter_driver_name_is_pinnable d \<Longrightarrow> c \<in> set d \<Longrightarrow> is_ascii_alphanumeric c \<or> c = CHR ''_'' \<or> c = CHR ''-''"
  by (cases d) (auto simp: filter_driver_name_is_pinnable_def list_all_iff)

lemma pin_reads_back:
  assumes "filter_driver_name_is_pinnable d" and "what \<in> {''clean'', ''smudge'', ''process''}"
  shows "split_once (''filter.'' @ d @ CHR ''.'' # what @ CHR ''='' # rest) (CHR ''='') = Some (''filter.'' @ d @ CHR ''.'' # what, rest)"
    and "filter_command_driver (''filter.'' @ d @ CHR ''.'' # what) = Some d"
proof -
  have chars: "CHR ''='' \<notin> set d" "d \<noteq> []"
    using pinnable_chars [OF assms(1), of "CHR ''=''"] assms(1)
    by (auto simp: is_ascii_alphanumeric_def is_ascii_alphabetic_def is_ascii_upper_def is_ascii_lower_def is_ascii_digit_def
        filter_driver_name_is_pinnable_def)
  show "split_once (''filter.'' @ d @ CHR ''.'' # what @ CHR ''='' # rest) (CHR ''='') = Some (''filter.'' @ d @ CHR ''.'' # what, rest)"
    using split_once_append [of "CHR ''=''" "''filter.'' @ d @ CHR ''.'' # what" rest] chars(1) assms(2) by auto
  have "is_char_boundary (''filter.'' @ d @ CHR ''.'' # what) 7"
  proof (cases d)
    case (Cons c cs)
    then have "is_ascii_alphanumeric c" using assms(1) by (simp add: filter_driver_name_is_pinnable_def)
    then have "\<not> is_continuation c"
      by (auto simp: is_continuation_def is_ascii_alphanumeric_def is_ascii_alphabetic_def is_ascii_upper_def is_ascii_lower_def
          is_ascii_digit_def)
    then show ?thesis by (simp add: Cons is_char_boundary_def)
  qed (use chars(2) in simp)
  moreover have "CHR ''.'' \<notin> set what" using assms(2) by auto
  from rsplit_once_append [OF this] have "rsplit_once (d @ CHR ''.'' # what) (CHR ''.'') = Some (d, what)" .
  ultimately show "filter_command_driver (''filter.'' @ d @ CHR ''.'' # what) = Some d"
    using chars(2) assms(2) by (auto simp: filter_command_driver_def get_to_def get_from_def eq_ignore_ascii_case_def)
qed

text \<open>C39: Unattended git runs no content filter of the repository. When pins are computed, they are exactly the four
  settings of each filter that the repository's own settings give a command, and git reads each pin back as
  the empty command of that filter. A filter whose name could not be pinned, or whose command cannot be read, gives no
  pins at all.\<close>

theorem filters_are_pinned:
  assumes "content_filter_config_pins g cwd = Some pins" and "discover g cwd = Repository git_dir common"
    and "config_entries g cwd = Some es"
  shows "set pins = (\<Union>driver\<in>active_filters es. set (driver_pins driver)) \<and>
    (\<forall>driver\<in>active_filters es. \<forall>what\<in>{''clean'', ''smudge'', ''process''}.
       \<exists>pin\<in>set pins. \<exists>key. split_once pin (CHR ''='') = Some (key, []) \<and> filter_command_driver key = Some driver \<and>
         ends_with key (CHR ''.'' # what))"
proof -
  obtain res drivers where read: "read_local_git_config_entries g cwd = Some res"
    "filter_drivers_loop res [] = Some drivers" "pins = concat (map driver_pins drivers)"
    using assms(1) by (auto simp: content_filter_config_pins_def local_content_filter_drivers_def split: option.splits)
  have loop: "config_entries_loop es [] = Some res" by (rule readable_entries [OF read(1) assms(2,3)])
  have "driver \<in> set drivers \<longleftrightarrow> driver \<in> active_filters es" for driver
  proof
    assume "driver \<in> set drivers"
    then obtain name v where p: "(name, v) \<in> set res" "trim v \<noteq> []" "filter_command_driver name = Some driver"
      using filter_drivers_read [OF read(2)] by auto
    from read_entry_origin [OF loop p(1)] obtain e where
      "Some e \<in> set es" "entry_local e" "entry_name e = Some name" "entry_text e = Some v" by auto
    then show "driver \<in> active_filters es" using p(2,3) by (auto simp: active_filters_def)
  next
    assume "driver \<in> active_filters es"
    then obtain e name where e: "Some e \<in> set es" "entry_local e" "entry_name e = Some name"
      "filter_command_driver name = Some driver" "\<not> (\<exists>value. entry_text e = Some value \<and> trim value = [])"
      by (auto simp: active_filters_def)
    obtain ps where ps: "entry_pairs e = Some ps" "set ps \<subseteq> set res" using local_entries_read [OF loop e(1)] by blast
    then obtain v where "entry_text e = Some v" "(name, v) \<in> set res"
      using e(2-4) by (auto simp: entry_pairs_def entry_text_def split: if_splits)
    then show "driver \<in> set drivers" using filter_drivers_read [OF read(2)] e(4,5) by auto
  qed
  then have active: "active_filters es = set drivers" by blast
  have "\<exists>pin\<in>set pins. \<exists>key. split_once pin (CHR ''='') = Some (key, []) \<and> filter_command_driver key = Some driver \<and>
      ends_with key (CHR ''.'' # what)"
    if "driver \<in> set drivers" "what \<in> {''clean'', ''smudge'', ''process''}" for driver what
  proof -
    have pinnable: "filter_driver_name_is_pinnable driver"
      using filter_drivers_pinnable [OF read(2)] that(1) by (simp add: list_all_iff)
    have "''filter.'' @ driver @ CHR ''.'' # what @ CHR ''='' # [] \<in> set (driver_pins driver)"
      using that(2) by (auto simp: driver_pins_def)
    then have "''filter.'' @ driver @ CHR ''.'' # what @ CHR ''='' # [] \<in> set pins" using read(3) that(1) by auto
    moreover have "ends_with (''filter.'' @ driver @ CHR ''.'' # what) (CHR ''.'' # what)"
      by (simp add: ends_with_suffix suffix_def)
    ultimately show ?thesis using pin_reads_back [OF pinnable that(2)] by blast
  qed
  then show ?thesis using active read(3) by simp
qed

section \<open>Samples\<close>

text \<open>A repository at \<open>/w\<close> whose settings give the filter \<open>lfs\<close> a command; \<open>/v\<close> is one with a plain setting.\<close>

definition local_entry :: "string \<Rightarrow> string option \<Rightarrow> config_entry" where
  "local_entry name v = \<lparr>entry_local = True, entry_name = Some name, entry_has_value = True, entry_value = v\<rparr>"

definition sample_git :: git_library where
  "sample_git =
     \<lparr>open_file = (\<lambda>_. OpenNotFound),
      discover = (\<lambda>d. if d = ''/w'' \<or> d = ''/v'' then Repository (d @ ''/.git'') (d @ ''/.git'') else NoRepository),
      config_entries = (\<lambda>d. Some (if d = ''/w'' then [Some (local_entry ''filter.lfs.smudge'' (Some ''git-lfs smudge''))]
                                  else [Some (local_entry ''core.bare'' (Some ''false''))])),
      parse_bool_ok = (\<lambda>_. True)\<rparr>"


theorem filters_are_pinned_witness:
  "set (driver_pins ''lfs'') = {''filter.lfs.clean='', ''filter.lfs.smudge='', ''filter.lfs.process='', ''filter.lfs.required=false''} \<and>
   content_filter_config_pins sample_git ''/w'' = Some (driver_pins ''lfs'') \<and>
   set (driver_pins ''lfs'') = (\<Union>driver\<in>active_filters (the (config_entries sample_git ''/w'')). set (driver_pins driver))"
proof -
  have pins: "content_filter_config_pins sample_git ''/w'' = Some (driver_pins ''lfs'')" by code_simp
  have "discover sample_git ''/w'' = Repository ''/w/.git'' ''/w/.git''" by (simp add: sample_git_def)
  moreover have "config_entries sample_git ''/w'' = Some (the (config_entries sample_git ''/w''))" by (simp add: sample_git_def)
  ultimately show ?thesis
    using filters_are_pinned [OF pins] pins by (simp add: driver_pins_def)
qed

text \<open>
  Four scripts the scan lets through. A \<open>cd\<close> in a pipeline moves a subshell only, but the scan looks for git's repository where it
  leads; an option of \<open>env\<close> that is not understood ends the peeling without failing, so the git
  behind it is not seen; a setting that runs a program is dropped when its text is not UTF-8, unless it is a content filter;
  and \<open>git grep\<close> reads \<open>-nO\<close> as two options, the second of which opens a pager.
\<close>

lemma piped_cd_moves_the_scan:
  "ambient_scan_plan_from_segments [[''cd'', ''/clean''], [''cat''], [''git'', ''status'']] ''/w'' = CheckDirs [''/clean'']"
  by code_simp

lemma uncertain_env_hides_git:
  "segment_exec_facts [''env'', ''--bogus'', ''git'', ''-c'', ''core.fsmonitor=/tmp/x'', ''status''] =
     \<lparr>exec_risk = False, has_git = False\<rparr>"
  by code_simp

lemma unreadable_monitor_is_dropped:
  "local_repo_config_has_exec_risk (sample_git\<lparr>parse_bool_ok := \<lambda>_. False, config_entries := \<lambda>_. Some [Some (local_entry ''core.fsmonitor'' None)]\<rparr>)
     ''/w'' = False"
  by code_simp

lemma clustered_pager_is_missed: "git_words_are_read_only_query [''git'', ''grep'', ''-nOsh'', ''x'']"
  by code_simp

end
