(* ===== verification/Protected_Edits.thy ===== *)
theory Protected_Edits
  imports Path_Match
begin

text \<open>
  Edits that are never accepted without asking (\<open>shell_access.rs\<close>, from \<open>ProtectedEditReason\<close> to
  \<open>resolved_path_is_within_root\<close>): hooks, credentials, start-up files, system settings and the agent's own
  settings, under the path as written and under the path it leads to through symbolic links.

  The agent's home directory (\<open>user_grok_home\<close>, from the environment) is an argument, as is the file system. Paths are UTF-8.
\<close>

section \<open>Reasons\<close>

datatype edit_reason =
  HookRoot | GitHooks | Ssh | StartupFile | Etc | GrokConfig | GrokSandbox | ClaudeSettings | CursorHooks | Sensitive

fun reason_kind :: "edit_reason \<Rightarrow> string" where
  "reason_kind HookRoot = ''hook_root''"
| "reason_kind GitHooks = ''git_hooks''"
| "reason_kind Ssh = ''ssh''"
| "reason_kind StartupFile = ''startup_file''"
| "reason_kind Etc = ''etc''"
| "reason_kind GrokConfig = ''grok_config''"
| "reason_kind GrokSandbox = ''grok_sandbox''"
| "reason_kind ClaudeSettings = ''claude_settings''"
| "reason_kind CursorHooks = ''cursor_hooks''"
| "reason_kind Sensitive = ''sensitive''"

fun reason_description :: "edit_reason \<Rightarrow> string option" where
  "reason_description HookRoot = Some
     ''Note: This edit contains changes to hooks, which can be executed as code on later sessions without a separate execution approval.''"
| "reason_description GitHooks = Some
     ''Note: This edit contains changes to Git hooks, which can run automatically on commit, push, or other Git actions without a separate execution approval.''"
| "reason_description Ssh = Some
     (''Note: This edit contains changes under '' @ [CHR 0x60] @ ''.ssh'' @ [CHR 0x60] @ '', which can affect credentials and authentication for future sessions.'')"
| "reason_description StartupFile = Some
     ''Note: This edit contains changes to a shell startup file, which can run automatically in future terminals without a separate execution approval.''"
| "reason_description Etc = Some
     (''Note: This edit contains changes under '' @ [CHR 0x60] @ ''/etc'' @ [CHR 0x60] @ '', which is system configuration and can affect this machine beyond the current project.'')"
| "reason_description GrokConfig = Some
     ''Note: This edit contains changes to Grok config, which can alter permissions, tools, and other behavior in later sessions.''"
| "reason_description GrokSandbox = Some
     ''Note: This edit contains changes to the Grok sandbox config, which can loosen filesystem and network restrictions on commands.''"
| "reason_description ClaudeSettings = Some
     ''Note: This edit contains changes to Claude-compatible settings, which can install hooks or change permission mode without a separate execution approval.''"
| "reason_description CursorHooks = Some
     ''Note: This edit contains changes to Cursor hooks, which can run automatically in later sessions without a separate execution approval.''"
| "reason_description Sensitive = None"

record protected_edit_permission =
  edit_kind :: string
  edit_description :: "string option"

definition from_reason :: "edit_reason \<Rightarrow> protected_edit_permission" where
  "from_reason reason = \<lparr>edit_kind = reason_kind reason, edit_description = reason_description reason\<rparr>"

section \<open>Protected paths\<close>

text \<open>\<open>Path::starts_with\<close> and equality of paths go by components.\<close>

definition path_starts_with :: "string \<Rightarrow> string \<Rightarrow> bool" where
  "path_starts_with p base = (strip_component_prefix (components p) (components base) \<noteq> None)"

definition same_path :: "string \<Rightarrow> string \<Rightarrow> bool" where
  "same_path p q = (components p = components q)"

definition parent_is :: "string \<Rightarrow> string \<Rightarrow> bool" where
  "parent_is p q = (case path_parent p of Some parent \<Rightarrow> same_path parent q | None \<Rightarrow> False)"

definition has_window :: "string \<Rightarrow> string \<Rightarrow> string list \<Rightarrow> bool" where
  "has_window a b cs = list_ex (\<lambda>pair. pair = (a, b)) (zip cs (drop 1 cs))"

definition lower_components :: "string \<Rightarrow> string list" where
  "lower_components p =
     List.map_filter (\<lambda>c. case c of Normal part \<Rightarrow> Some (to_ascii_lowercase part) | _ \<Rightarrow> None) (components p)"

definition STARTUP_FILES :: "string list" where
  "STARTUP_FILES =
     [''.bashrc'', ''.bash_profile'', ''.bash_login'', ''.bash_logout'', ''.profile'', ''.zshrc'', ''.zshenv'', ''.zprofile'',
      ''.zlogin'', ''.zlogout'', ''.kshrc'', ''.cshrc'', ''.tcshrc'', ''.login'', ''.logout'', ''.inputrc'', ''.xprofile'']"

definition grok_home_matches :: "file_system \<Rightarrow> string option \<Rightarrow> (string \<Rightarrow> bool) \<Rightarrow> bool" where
  "grok_home_matches fs home pred =
     (case home of
        None \<Rightarrow> False
      | Some h \<Rightarrow>
          let lex = normalize_lexically h
          in pred lex \<or> (case resolve_following_symlinks fs lex of Some resolved \<Rightarrow> pred resolved | None \<Rightarrow> False))"

definition path_is_under_user_grok_hook_root :: "string \<Rightarrow> string \<Rightarrow> bool" where
  "path_is_under_user_grok_hook_root p grok_home =
     (path_starts_with p (push_path grok_home ''hooks'') \<or> same_path p (push_path grok_home ''hooks-paths''))"

definition protected_grok_hook_root :: "file_system \<Rightarrow> string option \<Rightarrow> string \<Rightarrow> string list \<Rightarrow> bool" where
  "protected_grok_hook_root fs home p cs =
     (has_window ''.grok'' ''hooks'' cs \<or> ends_with cs [''.grok'', ''hooks-paths''] \<or>
      grok_home_matches fs home (path_is_under_user_grok_hook_root p))"

definition protected_git_hooks_path :: "string list \<Rightarrow> bool" where
  "protected_git_hooks_path cs =
     (has_window ''.git'' ''hooks'' cs \<or>
      list_ex (\<lambda>git. nth_opt cs git = Some ''.git'' \<and> nth_opt cs (git + 1) = Some ''modules'' \<and>
                    git + 2 \<le> length cs \<and> list_ex (\<lambda>c. c = ''hooks'') (drop 1 (drop (git + 2) cs)))
        [0..<length cs])"

text \<open>The files of the agent's own settings.\<close>

definition CONFIG_FILES :: "string list" where
  "CONFIG_FILES = [''config.toml'', ''managed_config.toml'', ''requirements.toml'', ''mcp.json'', ''lsp.json'']"

definition is_permission_file :: "string \<Rightarrow> bool" where
  "is_permission_file file =
     (file = ''permission.toml'' \<or> (starts_with file ''permission_'' \<and> ends_with file ''.toml''))"

definition grandparent_is :: "string \<Rightarrow> string \<Rightarrow> bool" where
  "grandparent_is p q =
     (case Option.bind (path_parent p) path_parent of Some g \<Rightarrow> same_path g q | None \<Rightarrow> False)"

definition protected_grok_config_file ::
  "file_system \<Rightarrow> string option \<Rightarrow> string \<Rightarrow> string list \<Rightarrow> edit_reason option" where
  "protected_grok_config_file fs home p cs =
     (if cs = [] then None
      else
        let file = last cs; n = length cs
        in if is_permission_file file \<and> 3 \<le> n \<and> nth_opt cs (n - 3) = Some ''sessions'' then
             (if (4 \<le> n \<and> nth_opt cs (n - 4) = Some ''.grok'') \<or>
                 grok_home_matches fs home (\<lambda>h. grandparent_is p (push_path h ''sessions''))
              then Some GrokConfig else None)
           else
             case (if file \<in> set CONFIG_FILES then Some GrokConfig
                   else if file = ''sandbox.toml'' then Some GrokSandbox
                   else None) of
               None \<Rightarrow> None
             | Some reason \<Rightarrow>
                 if (2 \<le> n \<and> nth_opt cs (n - 2) = Some ''.grok'') \<or> grok_home_matches fs home (parent_is p)
                 then Some reason else None)"

definition protected_edit_reason ::
  "file_system \<Rightarrow> string option \<Rightarrow> string \<Rightarrow> edit_reason option" where
  "protected_edit_reason fs home p =
     (let cs = lower_components p; file = (if cs = [] then [] else last cs)
      in if protected_grok_hook_root fs home p cs then Some HookRoot
         else if ends_with cs [''.claude'', ''settings.json''] \<or> ends_with cs [''.claude'', ''settings.local.json'']
         then Some ClaudeSettings
         else if ends_with cs [''.cursor'', ''hooks.json''] then Some CursorHooks
         else if protected_git_hooks_path cs then Some GitHooks
         else if ''.ssh'' \<in> set cs then Some Ssh
         else if file \<in> set STARTUP_FILES then Some StartupFile
         else case protected_grok_config_file fs home p cs of
           Some reason \<Rightarrow> Some reason
         | None \<Rightarrow> if same_path p ''/etc'' \<or> path_starts_with p ''/etc'' then Some Etc else None)"

definition resolved_path_is_within_root :: "file_system \<Rightarrow> string \<Rightarrow> string \<Rightarrow> bool" where
  "resolved_path_is_within_root fs resolved root =
     (case resolve_following_symlinks fs root of
        Some resolved_root \<Rightarrow> path_starts_with resolved resolved_root
      | None \<Rightarrow> True)"

definition edit_target_protection ::
  "file_system \<Rightarrow> string option \<Rightarrow> string \<Rightarrow> edit_reason option" where
  "edit_target_protection fs home p =
     (if \<not> is_absolute p then Some Sensitive
      else case protected_edit_reason fs home (normalize_lexically p) of
        Some reason \<Rightarrow> Some reason
      | None \<Rightarrow>
          (case resolve_following_symlinks fs p of
             None \<Rightarrow> Some Sensitive
           | Some resolved \<Rightarrow>
               (case protected_edit_reason fs home resolved of
                  Some reason \<Rightarrow> Some reason
                | None \<Rightarrow> if resolved_path_is_within_root fs resolved ''/etc'' then Some Sensitive else None)))"

section \<open>What is protected\<close>

text \<open>The agent's home as written and as it is on disk.\<close>

definition home_forms :: "file_system \<Rightarrow> string option \<Rightarrow> string set" where
  "home_forms fs home =
     (case home of
        None \<Rightarrow> {}
      | Some h \<Rightarrow> insert (normalize_lexically h) (set_option (resolve_following_symlinks fs (normalize_lexically h))))"

text \<open>
  Hazardous names, by the lower-case components of a path: anywhere below a directory of hooks or of keys, or a file with a name
  that some program loads by itself.
\<close>

inductive hazardous_name :: "string list \<Rightarrow> bool" where
  keys: "hazardous_name (xs @ ''.ssh'' # ys)"
| git_hooks: "hazardous_name (xs @ ''.git'' # ''hooks'' # ys)"
| submodule_hooks: "hazardous_name (xs @ ''.git'' # ''modules'' # m # ys @ ''hooks'' # zs)"
| agent_hooks: "hazardous_name (xs @ ''.grok'' # ''hooks'' # ys)"
| agent_hook_paths: "hazardous_name (xs @ [''.grok'', ''hooks-paths''])"
| claude: "f \<in> {''settings.json'', ''settings.local.json''} \<Longrightarrow> hazardous_name (xs @ [''.claude'', f])"
| cursor: "hazardous_name (xs @ [''.cursor'', ''hooks.json''])"
| startup: "f \<in> set STARTUP_FILES \<Longrightarrow> hazardous_name (xs @ [f])"
| agent_config: "f \<in> insert ''sandbox.toml'' (set CONFIG_FILES) \<Longrightarrow> hazardous_name (xs @ [''.grok'', f])"
| agent_grants: "is_permission_file f \<Longrightarrow> hazardous_name (xs @ [''.grok'', ''sessions'', scope, f])"

text \<open>Hazardous places: below \<open>/etc\<close>, and the hooks, settings and grants in the agent's home.\<close>

inductive hazardous_place :: "string set \<Rightarrow> string \<Rightarrow> bool" for homes where
  system: "path_starts_with p ''/etc'' \<Longrightarrow> hazardous_place homes p"
| home_hooks: "h \<in> homes \<Longrightarrow> path_starts_with p (push_path h ''hooks'') \<Longrightarrow> hazardous_place homes p"
| home_hook_paths: "h \<in> homes \<Longrightarrow> same_path p (push_path h ''hooks-paths'') \<Longrightarrow> hazardous_place homes p"
| home_config: "h \<in> homes \<Longrightarrow> parent_is p h \<Longrightarrow> lower_components p = xs @ [f] \<Longrightarrow>
    f \<in> insert ''sandbox.toml'' (set CONFIG_FILES) \<Longrightarrow> hazardous_place homes p"
| home_grants: "h \<in> homes \<Longrightarrow> grandparent_is p (push_path h ''sessions'') \<Longrightarrow>
    lower_components p = xs @ [''sessions'', scope, f] \<Longrightarrow> is_permission_file f \<Longrightarrow> hazardous_place homes p"

lemma grok_home_matches_iff: "grok_home_matches fs home pred \<longleftrightarrow> (\<exists>h\<in>home_forms fs home. pred h)"
  by (auto simp: grok_home_matches_def home_forms_def Let_def split: option.splits)

lemma has_window_iff: "has_window a b cs \<longleftrightarrow> (\<exists>xs ys. cs = xs @ a # b # ys)"
proof (induction cs)
  case (Cons c cs)
  show ?case
  proof (cases cs)
    case (Cons d ds)
    have "has_window a b (c # cs) \<longleftrightarrow> (c = a \<and> d = b) \<or> has_window a b cs"
      by (auto simp: has_window_def Cons)
    also have "\<dots> \<longleftrightarrow> (\<exists>xs ys. c # cs = xs @ a # b # ys)"
      unfolding Cons.IH by (metis Cons append_Cons append_Nil list.inject neq_Nil_conv)
    finally show ?thesis .
  qed (auto simp: has_window_def Cons_eq_append_conv)
qed (simp add: has_window_def)

lemma ends_with_iff: "ends_with cs as \<longleftrightarrow> (\<exists>xs. cs = xs @ as)"
  by (simp add: ends_with_suffix suffix_def)

lemma git_hooks_iff:
  "protected_git_hooks_path cs \<longleftrightarrow>
   (\<exists>xs ys. cs = xs @ ''.git'' # ''hooks'' # ys) \<or>
   (\<exists>xs m ys zs. cs = xs @ ''.git'' # ''modules'' # m # ys @ ''hooks'' # zs)"
proof -
  have "list_ex (\<lambda>git. nth_opt cs git = Some ''.git'' \<and> nth_opt cs (git + 1) = Some ''modules'' \<and>
      git + 2 \<le> length cs \<and> list_ex (\<lambda>c. c = ''hooks'') (drop 1 (drop (git + 2) cs))) [0..<length cs] \<longleftrightarrow>
    (\<exists>xs m ys zs. cs = xs @ ''.git'' # ''modules'' # m # ys @ ''hooks'' # zs)" (is "?l \<longleftrightarrow> ?r")
  proof
    assume ?l
    then obtain git where g: "git + 1 < length cs" "cs ! git = ''.git''" "cs ! (git + 1) = ''modules''"
      "''hooks'' \<in> set (drop 1 (drop (git + 2) cs))"
      by (auto simp: list_ex_iff nth_opt_def split: if_splits)
    have "cs = take git cs @ cs ! git # cs ! (git + 1) # drop (git + 2) cs"
      using g(1) by (metis Cons_nth_drop_Suc Suc_eq_plus1 Suc_lessD add_2_eq_Suc' append_take_drop_id)
    moreover obtain m rest where "drop (git + 2) cs = m # rest" using g(4) by (cases "drop (git + 2) cs") auto
    moreover from this g(4) obtain ys zs where "rest = ys @ ''hooks'' # zs" by (auto dest: split_list)
    ultimately show ?r using g(2,3) by metis
  next
    assume ?r
    then obtain xs m ys zs where cs: "cs = xs @ ''.git'' # ''modules'' # m # ys @ ''hooks'' # zs" by blast
    show ?l
      unfolding list_ex_iff
      by (rule bexI [of _ "length xs"]) (simp_all add: cs nth_opt_def nth_append)
  qed
  then show ?thesis by (simp add: protected_git_hooks_path_def has_window_iff)
qed

abbreviation config_names :: "string set" where
  "config_names \<equiv> insert ''sandbox.toml'' (set CONFIG_FILES)"

lemma config_no_permission_file: "f \<in> config_names \<Longrightarrow> \<not> is_permission_file f"
  by (auto simp: CONFIG_FILES_def is_permission_file_def)

lemma second_last_iff: "2 \<le> length cs \<and> nth_opt cs (length cs - 2) = Some a \<longleftrightarrow> (\<exists>xs f. cs = xs @ [a, f])"
proof
  assume l: "2 \<le> length cs \<and> nth_opt cs (length cs - 2) = Some a"
  obtain ys f where ys: "cs = ys @ [f]" using l by (cases cs rule: rev_cases) auto
  obtain xs b where "ys = xs @ [b]" using l ys by (cases ys rule: rev_cases) auto
  with l ys show "\<exists>xs f. cs = xs @ [a, f]" by (auto simp: nth_opt_def nth_append)
qed (auto simp: nth_opt_def)

lemma third_last_iff: "3 \<le> length cs \<and> nth_opt cs (length cs - 3) = Some a \<longleftrightarrow> (\<exists>xs s f. cs = xs @ [a, s, f])"
proof
  assume l: "3 \<le> length cs \<and> nth_opt cs (length cs - 3) = Some a"
  obtain ys f where ys: "cs = ys @ [f]" using l by (cases cs rule: rev_cases) auto
  have "2 \<le> length ys \<and> nth_opt ys (length ys - 2) = Some a"
    using l by (auto simp: ys nth_opt_def nth_append split: if_splits)
  then obtain xs s where "ys = xs @ [a, s]" unfolding second_last_iff by blast
  with ys show "\<exists>xs s f. cs = xs @ [a, s, f]" by simp
qed (auto simp: nth_opt_def)

lemma fourth_last_iff: "4 \<le> length cs \<and> nth_opt cs (length cs - 4) = Some a \<longleftrightarrow> (\<exists>xs s t f. cs = xs @ [a, s, t, f])"
proof
  assume l: "4 \<le> length cs \<and> nth_opt cs (length cs - 4) = Some a"
  obtain ys f where ys: "cs = ys @ [f]" using l by (cases cs rule: rev_cases) auto
  have "3 \<le> length ys \<and> nth_opt ys (length ys - 3) = Some a"
    using l by (auto simp: ys nth_opt_def nth_append split: if_splits)
  then obtain xs s t where "ys = xs @ [a, s, t]" unfolding third_last_iff by blast
  with ys show "\<exists>xs s t f. cs = xs @ [a, s, t, f]" by simp
qed (auto simp: nth_opt_def)

lemma config_file_iff:
  "protected_grok_config_file fs home p cs \<noteq> None \<longleftrightarrow>
   (\<exists>xs f. cs = xs @ [f] \<and> f \<in> config_names \<and> ((\<exists>ys. xs = ys @ [''.grok'']) \<or> (\<exists>h\<in>home_forms fs home. parent_is p h))) \<or>
   (\<exists>xs scope f. cs = xs @ [''sessions'', scope, f] \<and> is_permission_file f \<and>
      ((\<exists>ys. xs = ys @ [''.grok'']) \<or> (\<exists>h\<in>home_forms fs home. grandparent_is p (push_path h ''sessions''))))"
proof (cases cs rule: rev_cases)
  case (snoc xs f)
  show ?thesis
  proof (cases "is_permission_file f")
    case True
    then have "f \<notin> config_names" using config_no_permission_file by blast
    then have "protected_grok_config_file fs home p cs \<noteq> None \<longleftrightarrow>
        (\<exists>ys s. xs = ys @ [''sessions'', s]) \<and>
        ((\<exists>ys s t. xs = ys @ [''.grok'', s, t]) \<or> (\<exists>h\<in>home_forms fs home. grandparent_is p (push_path h ''sessions'')))"
      using third_last_iff [of cs "''sessions''"] fourth_last_iff [of cs "''.grok''"] True
      by (auto simp: protected_grok_config_file_def snoc grok_home_matches_iff Let_def split: if_splits)
    then show ?thesis using \<open>f \<notin> config_names\<close> True by (auto simp: snoc)
  next
    case False
    then have "protected_grok_config_file fs home p cs \<noteq> None \<longleftrightarrow> f \<in> config_names \<and>
        ((\<exists>ys. xs = ys @ [''.grok'']) \<or> (\<exists>h\<in>home_forms fs home. parent_is p h))"
      using second_last_iff [of cs "''.grok''"]
      by (auto simp: protected_grok_config_file_def snoc grok_home_matches_iff Let_def split: if_splits)
    then show ?thesis using False by (auto simp: snoc)
  qed
qed (simp add: protected_grok_config_file_def)

lemma path_starts_with_refl: "same_path p q \<Longrightarrow> path_starts_with p q"
proof -
  have "strip_component_prefix cs cs \<noteq> None" for cs by (induction cs) simp_all
  then show "same_path p q \<Longrightarrow> path_starts_with p q" by (simp add: same_path_def path_starts_with_def)
qed

lemma reason_disjunction:
  "protected_edit_reason fs home p \<noteq> None \<longleftrightarrow>
   (let cs = lower_components p
    in protected_grok_hook_root fs home p cs \<or>
       ends_with cs [''.claude'', ''settings.json''] \<or> ends_with cs [''.claude'', ''settings.local.json''] \<or>
       ends_with cs [''.cursor'', ''hooks.json''] \<or> protected_git_hooks_path cs \<or> ''.ssh'' \<in> set cs \<or>
       (\<exists>xs f. cs = xs @ [f] \<and> f \<in> set STARTUP_FILES) \<or>
       protected_grok_config_file fs home p cs \<noteq> None \<or> path_starts_with p ''/etc'')"
proof -
  have "(if cs = [] then [] else last cs) \<in> set STARTUP_FILES \<longleftrightarrow> (\<exists>xs f. cs = xs @ [f] \<and> f \<in> set STARTUP_FILES)" for cs
    by (cases cs rule: rev_cases) (auto simp: STARTUP_FILES_def)
  then show ?thesis
    using path_starts_with_refl [of p "''/etc''"]
    by (simp add: protected_edit_reason_def Let_def split: option.split)
qed

lemma reason_hazard:
  assumes "protected_edit_reason fs home p \<noteq> None"
  shows "hazardous_name (lower_components p) \<or> hazardous_place (home_forms fs home) p"
proof -
  let ?cs = "lower_components p" and ?homes = "home_forms fs home"
  have hooks: ?thesis if "protected_grok_hook_root fs home p ?cs"
    using that
    by (auto simp: protected_grok_hook_root_def has_window_iff ends_with_iff grok_home_matches_iff
        path_is_under_user_grok_hook_root_def
        intro: hazardous_name.intros hazardous_place.home_hooks hazardous_place.home_hook_paths)
  have git: ?thesis if "protected_git_hooks_path ?cs"
    using that unfolding git_hooks_iff by (auto intro: hazardous_name.git_hooks hazardous_name.submodule_hooks)
  have config: ?thesis if "protected_grok_config_file fs home p ?cs \<noteq> None"
    using that unfolding config_file_iff
  proof (elim disjE exE conjE bexE)
    fix xs f ys
    assume "?cs = xs @ [f]" "f \<in> config_names" "xs = ys @ [''.grok'']"
    then show ?thesis using hazardous_name.agent_config [of f ys] by simp
  next
    fix xs f h
    assume "?cs = xs @ [f]" "f \<in> config_names" "h \<in> ?homes" "parent_is p h"
    then show ?thesis using hazardous_place.home_config by blast
  next
    fix xs scope f ys
    assume "?cs = xs @ [''sessions'', scope, f]" "is_permission_file f" "xs = ys @ [''.grok'']"
    then show ?thesis using hazardous_name.agent_grants [of f ys scope] by simp
  next
    fix xs scope f h
    assume "?cs = xs @ [''sessions'', scope, f]" "is_permission_file f" "h \<in> ?homes"
      "grandparent_is p (push_path h ''sessions'')"
    then show ?thesis using hazardous_place.home_grants by blast
  qed
  have keys: ?thesis if "''.ssh'' \<in> set ?cs"
    using split_list [OF that] by (auto intro: hazardous_name.keys)
  show ?thesis
    using assms hooks git config keys hazardous_place.system [of p ?homes]
    unfolding reason_disjunction Let_def ends_with_iff
    by (auto intro: hazardous_name.claude hazardous_name.cursor hazardous_name.startup)
qed

lemma hazard_reason:
  assumes "hazardous_name (lower_components p) \<or> hazardous_place (home_forms fs home) p"
  shows "protected_edit_reason fs home p \<noteq> None"
proof -
  let ?cs = "lower_components p" and ?homes = "home_forms fs home"
  let ?disj = "protected_grok_hook_root fs home p ?cs \<or> (\<exists>xs f. ?cs = xs @ [''.claude'', f] \<and> f \<in> {''settings.json'', ''settings.local.json''}) \<or>
       (\<exists>xs. ?cs = xs @ [''.cursor'', ''hooks.json'']) \<or> protected_git_hooks_path ?cs \<or> ''.ssh'' \<in> set ?cs \<or>
       (\<exists>xs f. ?cs = xs @ [f] \<and> f \<in> set STARTUP_FILES) \<or>
       protected_grok_config_file fs home p ?cs \<noteq> None \<or> path_starts_with p ''/etc''"
  have name: ?disj if "hazardous_name ?cs"
    using that
  proof cases
    case (agent_config f xs)
    then have "protected_grok_config_file fs home p ?cs \<noteq> None"
      unfolding config_file_iff by (intro disjI1 exI [of _ "xs @ [''.grok'']"] exI [of _ f]) simp
    then show ?thesis by blast
  next
    case (agent_grants f xs scope)
    then have "protected_grok_config_file fs home p ?cs \<noteq> None"
      unfolding config_file_iff by (intro disjI2 exI [of _ "xs @ [''.grok'']"] exI [of _ scope] exI [of _ f]) simp
    then show ?thesis by blast
  next
    case (submodule_hooks xs m ys zs)
    then show ?thesis unfolding git_hooks_iff by blast
  next
    case (git_hooks xs ys)
    then show ?thesis unfolding git_hooks_iff by blast
  next
    case (agent_hooks xs ys)
    then show ?thesis unfolding protected_grok_hook_root_def has_window_iff by blast
  next
    case (agent_hook_paths xs)
    then show ?thesis unfolding protected_grok_hook_root_def ends_with_iff by blast
  next
    case (keys xs ys)
    then show ?thesis by (metis in_set_conv_decomp)
  next
    case (claude f xs)
    then show ?thesis by blast
  next
    case (cursor xs)
    then show ?thesis by blast
  next
    case (startup f xs)
    then show ?thesis by blast
  qed
  have place: ?disj if "hazardous_place ?homes p"
    using that
  proof cases
    case (home_config h xs f)
    then have "protected_grok_config_file fs home p ?cs \<noteq> None" unfolding config_file_iff by blast
    then show ?thesis by blast
  next
    case (home_grants h xs scope f)
    then have "protected_grok_config_file fs home p ?cs \<noteq> None" unfolding config_file_iff by blast
    then show ?thesis by blast
  qed (auto simp: protected_grok_hook_root_def grok_home_matches_iff path_is_under_user_grok_hook_root_def)
  from assms name place have ?disj by blast
  then show ?thesis unfolding reason_disjunction Let_def ends_with_iff by blast
qed

text \<open>C15: Exactly the harmless edits pass without asking. An edit target needs no confirmation if and only if it is an absolute
  path that resolves through its symbolic links, neither its lexical normal form nor the file it resolves to has a hazardous name
  or lies in a hazardous place, and \<open>/etc\<close> itself resolves to a directory that does not hold the file.\<close>

theorem unprotected_edits_are_harmless:
  "edit_target_protection fs home p = None \<longleftrightarrow>
   is_absolute p \<and>
   (\<exists>resolved etc. resolve_following_symlinks fs p = Some resolved \<and> resolve_following_symlinks fs ''/etc'' = Some etc \<and>
      \<not> path_starts_with resolved etc \<and>
      list_all (\<lambda>q. \<not> hazardous_name (lower_components q) \<and> \<not> hazardous_place (home_forms fs home) q)
        [normalize_lexically p, resolved])"
proof -
  have reason: "protected_edit_reason fs home q = None \<longleftrightarrow>
      \<not> hazardous_name (lower_components q) \<and> \<not> hazardous_place (home_forms fs home) q" for q
    using reason_hazard hazard_reason by blast
  show ?thesis
    by (auto simp: edit_target_protection_def resolved_path_is_within_root_def reason [symmetric] split: option.splits if_splits)
qed

end
