(* ===== verification/Perm_Rules.thy ===== *)
theory Perm_Rules
  imports Rust_Prelude
begin

text \<open>
  Permission rules (crate \<open>xai-grok-permission-rules\<close>): the vocabulary of \<open>types.rs\<close>, the rule
  parser of \<open>rules.rs\<close> and the domain normal form of \<open>domain.rs\<close>.

  Enumerations whose constructors share names (\<open>Decision::Allow\<close>, \<open>RuleAction::Allow\<close>) are
  written with the type's name in front. A rule text is trimmed, its tool name is what precedes
  the first unescaped parenthesis, its content ends at the last unescaped one. The lemmas show
  that the three textual replacements of \<open>unescape_rule_content\<close> are one left-to-right pass, that
  unescaping inverts escaping, and that the parser reads back every rule written in the escaped
  form.
\<close>

section \<open>Vocabulary\<close>

datatype access_kind =
  Read "string option"
| Grep "string option" "string option"
| Edit string
| Bash string
| MCPTool string json
| WebFetch string
| WebSearch string
| AgentMessage string
| Tool string

datatype decision =
  Allow | Ask | FollowupMessage string | Reject string | PolicyDeny string | Cancelled

datatype edit_policy = Ask | Allow | Reject

definition edit_policy_serialize :: "edit_policy \<Rightarrow> string" where
  "edit_policy_serialize p =
     (case p of edit_policy.Ask \<Rightarrow> ''ask'' | edit_policy.Allow \<Rightarrow> ''allow''
      | edit_policy.Reject \<Rightarrow> ''reject'')"

text \<open>The error is serde's unknown-variant error, which carries the offending text.\<close>

definition edit_policy_visit_str :: "string \<Rightarrow> string + edit_policy" where
  "edit_policy_visit_str v =
     (if v = ''ask'' then Inr edit_policy.Ask
      else if v = ''allow'' then Inr edit_policy.Allow
      else if v = ''reject'' then Inr edit_policy.Reject
      else Inl v)"

datatype prompt_policy = Ask | Deny | Auto | Allow

datatype pattern_mode = Glob | Domain

datatype rule_action = Allow | Deny | Ask

datatype tool_filter =
  Any | Bash | Edit | Read | Grep | Mcp | WebFetch | WebSearch | AgentMessage

record permission_rule =
  action :: rule_action
  tool :: tool_filter
  pattern :: "string option"
  pattern_mode :: pattern_mode

record permission_config =
  rules :: "permission_rule list"
  prompt_policy :: prompt_policy
  default_mode_configured :: bool

definition permission_config_new :: "permission_rule list \<Rightarrow> permission_config" where
  "permission_config_new rs =
     \<lparr>rules = rs, prompt_policy = prompt_policy.Ask, default_mode_configured = False\<rparr>"

datatype requirement_source =
  Unknown
| Requirements string
| SystemRequirements string
| ManagedSettings string
| ManagedConfig string
| Config string
| Settings string

definition requirement_source_display :: "requirement_source \<Rightarrow> string" where
  "requirement_source_display s =
     (case s of
        Unknown \<Rightarrow> ''<unknown>''
      | Requirements path \<Rightarrow> path @ '' (requirements)''
      | SystemRequirements path \<Rightarrow> path @ '' (system requirements)''
      | ManagedSettings path \<Rightarrow> path @ '' (managed-settings)''
      | ManagedConfig path \<Rightarrow> path @ '' (managed config)''
      | Config path \<Rightarrow> path @ '' (config)''
      | Settings path \<Rightarrow> path @ '' (settings)'')"

section \<open>Default modes\<close>

datatype default_permission_mode =
  Default | AcceptEdits | Plan | Auto | DontAsk | BypassPermissions

definition mode_from_str :: "string \<Rightarrow> string + default_permission_mode" where
  "mode_from_str s =
     (if s = ''default'' then Inr Default
      else if s = ''acceptEdits'' then Inr AcceptEdits
      else if s = ''plan'' then Inr Plan
      else if s = ''auto'' then Inr default_permission_mode.Auto
      else if s = ''dontAsk'' then Inr DontAsk
      else if s = ''bypassPermissions'' then Inr BypassPermissions
      else Inl s)"

record default_mode_effects =
  eff_prompt_policy :: prompt_policy
  accept_edits :: bool
  bypass_permissions :: bool

definition default_mode_effects_default :: default_mode_effects where
  "default_mode_effects_default =
     \<lparr>eff_prompt_policy = prompt_policy.Ask, accept_edits = False, bypass_permissions = False\<rparr>"

fun effects :: "default_permission_mode \<Rightarrow> default_mode_effects" where
  "effects AcceptEdits = default_mode_effects_default\<lparr>accept_edits := True\<rparr>"
| "effects BypassPermissions = default_mode_effects_default\<lparr>bypass_permissions := True\<rparr>"
| "effects Default = default_mode_effects_default"
| "effects Plan = default_mode_effects_default"
| "effects DontAsk = default_mode_effects_default\<lparr>eff_prompt_policy := prompt_policy.Deny\<rparr>"
| "effects default_permission_mode.Auto =
     default_mode_effects_default\<lparr>eff_prompt_policy := prompt_policy.Auto\<rparr>"

section \<open>The rule parser\<close>

datatype rule_parse_error =
  UnsupportedToolPrefix string
| UnknownToolPrefix string
| MalformedRule string

definition rule_parse_error_display :: "rule_parse_error \<Rightarrow> string" where
  "rule_parse_error_display e =
     (case e of
        UnsupportedToolPrefix name \<Rightarrow> ''unsupported tool prefix: '' @ name
      | UnknownToolPrefix name \<Rightarrow> ''unknown tool prefix: '' @ name
      | MalformedRule detail \<Rightarrow> ''malformed rule: '' @ detail)"

definition tool_name_to_filter :: "string \<Rightarrow> tool_filter option" where
  "tool_name_to_filter name =
     (if name = ''Bash'' then Some tool_filter.Bash
      else if name = ''Read'' then Some tool_filter.Read
      else if name = ''Edit'' \<or> name = ''Write'' then Some tool_filter.Edit
      else if name = ''MCPTool'' then Some tool_filter.Mcp
      else if name = ''Grep'' \<or> name = ''Glob'' then Some tool_filter.Grep
      else if name = ''WebFetch'' then Some tool_filter.WebFetch
      else if name = ''WebSearch'' then Some tool_filter.WebSearch
      else if name = ''AgentMessage'' \<or> name = ''SendSubagentMessage'' \<or> name = ''SendAgentMessage''
        then Some tool_filter.AgentMessage
      else None)"

text \<open>The \<open>while\<close> loop of \<open>is_unescaped\<close>: backslashes directly before position \<open>j\<close>.\<close>

fun backslashes_before :: "string \<Rightarrow> nat \<Rightarrow> nat" where
  "backslashes_before bytes 0 = 0"
| "backslashes_before bytes (Suc j) =
     (if nth_opt bytes j = Some backslash then Suc (backslashes_before bytes j) else 0)"

definition is_unescaped :: "string \<Rightarrow> nat \<Rightarrow> bool" where
  "is_unescaped bytes pos = (backslashes_before bytes pos mod 2 = 0)"

definition find_first_unescaped :: "string \<Rightarrow> char \<Rightarrow> nat option" where
  "find_first_unescaped s target =
     find (\<lambda>i. nth_opt s i = Some target \<and> is_unescaped s i) [0..<length s]"

definition find_last_unescaped :: "string \<Rightarrow> char \<Rightarrow> nat option" where
  "find_last_unescaped s target =
     find (\<lambda>i. nth_opt s i = Some target \<and> is_unescaped s i) (rev [0..<length s])"

definition unescape_rule_content :: "string \<Rightarrow> string" where
  "unescape_rule_content s =
     (if backslash \<notin> set s then s
      else replace
             (replace
               (replace s [backslash, CHR ''(''] [CHR ''(''])
               [backslash, CHR '')''] [CHR '')''])
             [backslash, backslash] [backslash])"

definition strip_domain_prefix :: "string \<Rightarrow> string \<times> pattern_mode" where
  "strip_domain_prefix p =
     (case strip_prefix p ''domain:'' of
        Some domain \<Rightarrow> (domain, Domain)
      | None \<Rightarrow> (p, Glob))"

definition strip_bash_colon_wildcard :: "string \<Rightarrow> string" where
  "strip_bash_colon_wildcard p =
     (case strip_suffix p '':*'' of Some front \<Rightarrow> front | None \<Rightarrow> p)"

definition unsupported_tool :: "string \<Rightarrow> bool" where
  "unsupported_tool name =
     (name = ''EnterWorktree'' \<or> name = ''NotebookEdit'' \<or> name = ''NotebookRead'')"

text \<open>The branch of the parser for \<open>Tool(content)\<close>, entered with the offset of the first unescaped
  opening parenthesis.\<close>

definition parse_tool_rule ::
  "string \<Rightarrow> nat \<Rightarrow> rule_action \<Rightarrow> rule_parse_error + permission_rule" where
  "parse_tool_rule rule open_paren act =
     (case get_to rule open_paren of
        None \<Rightarrow> Inl (MalformedRule ''missing opening parenthesis'')
      | Some name \<Rightarrow>
     (case get_from rule (open_paren + 1) of
        None \<Rightarrow> Inl (MalformedRule ''missing closing parenthesis'')
      | Some content_and_close \<Rightarrow>
     (case find_last_unescaped content_and_close (CHR '')'') of
        None \<Rightarrow> Inl (MalformedRule ''missing closing parenthesis'')
      | Some close_paren \<Rightarrow>
     (case get_to content_and_close close_paren of
        None \<Rightarrow> Inl (MalformedRule ''missing closing parenthesis'')
      | Some raw \<Rightarrow>
     (let raw_content = trim raw;
          prefix_trimmed = trim name;
          p0 = (if raw_content = [] \<or> raw_content = ''*'' then []
                else unescape_rule_content raw_content)
      in case tool_name_to_filter prefix_trimmed of
           None \<Rightarrow>
             if unsupported_tool prefix_trimmed then Inl (UnsupportedToolPrefix prefix_trimmed)
             else Inl (UnknownToolPrefix prefix_trimmed)
         | Some t \<Rightarrow>
             let p1 = (if t = tool_filter.Bash then strip_bash_colon_wildcard p0 else p0);
                 (p2, mode) = strip_domain_prefix p1
             in Inr \<lparr>action = act, tool = t, pattern = (if p2 = [] then None else Some p2),
                     pattern_mode = mode\<rparr>)))))"

definition parse_bare_rule ::
  "string \<Rightarrow> rule_action \<Rightarrow> rule_parse_error + permission_rule" where
  "parse_bare_rule rule act =
     (if unsupported_tool rule then Inl (UnsupportedToolPrefix rule)
      else case tool_name_to_filter rule of
        Some t \<Rightarrow> Inr \<lparr>action = act, tool = t, pattern = None, pattern_mode = Glob\<rparr>
      | None \<Rightarrow>
          (case strip_prefix rule ''mcp__'' of
             Some (r # rest) \<Rightarrow>
               Inr \<lparr>action = act, tool = tool_filter.Mcp,
                    pattern = (if r # rest = ''*'' then None
                               else if contains_str (r # rest) ''__'' then Some (r # rest)
                               else Some ((r # rest) @ ''__*'')),
                    pattern_mode = Glob\<rparr>
           | _ \<Rightarrow>
               Inr \<lparr>action = act, tool = tool_filter.Any,
                    pattern = (if rule = [] then None else Some rule), pattern_mode = Glob\<rparr>))"

definition parse_permission_rule ::
  "string \<Rightarrow> rule_action \<Rightarrow> rule_parse_error + permission_rule" where
  "parse_permission_rule text act =
     (let rule = trim text
      in case find_first_unescaped rule (CHR ''('') of
           Some open_paren \<Rightarrow> parse_tool_rule rule open_paren act
         | None \<Rightarrow> parse_bare_rule rule act)"

section \<open>Domains\<close>

text \<open>\<open>normalize_domain\<close> ends with Unicode lower-casing, which is a parameter.\<close>

definition normalize_domain :: "(string \<Rightarrow> string) \<Rightarrow> string \<Rightarrow> string" where
  "normalize_domain to_lowercase raw =
     (let s = trim_end_char (trim_end_char (trim raw) (CHR ''/'')) (CHR ''.'');
          s' = (case strip_prefix s ''www.'' of Some r \<Rightarrow> r | None \<Rightarrow> s)
      in to_lowercase s')"

section \<open>Unescaping is one left-to-right pass\<close>

text \<open>The reference: read the text once, dropping a backslash that escapes a parenthesis or a
  backslash. \<open>escape_rule_content\<close> is the inverse notation.\<close>

definition needs_escape :: "char \<Rightarrow> bool" where
  "needs_escape c = (c = CHR ''('' \<or> c = CHR '')'' \<or> c = backslash)"

fun unescape_pass :: "string \<Rightarrow> string" where
  "unescape_pass [] = []"
| "unescape_pass [c] = [c]"
| "unescape_pass (a # b # s) =
     (if a = backslash \<and> needs_escape b then b # unescape_pass s else a # unescape_pass (b # s))"

definition escape_rule_content :: "string \<Rightarrow> string" where
  "escape_rule_content s = concat (map (\<lambda>c. if needs_escape c then [backslash, c] else [c]) s)"

abbreviation bs_run :: "nat \<Rightarrow> string" where
  "bs_run n \<equiv> replicate n backslash"

lemma replace_escaped_run:
  assumes "x \<noteq> backslash" and "c \<noteq> backslash"
  shows "replace (bs_run n @ c # s) [backslash, x] [x] =
    bs_run (if c = x then n - 1 else n) @ c # replace s [backslash, x] [x]"
proof (induction n)
  case 0
  then show ?case using assms by simp
next
  case (Suc n)
  then show ?case using assms by (cases n) auto
qed

lemma replace_escaped_end: "x \<noteq> backslash \<Longrightarrow> replace (bs_run n) [backslash, x] [x] = bs_run n"
proof (induction n)
  case (Suc n)
  then show ?case by (cases n) auto
qed simp

lemma replace_double_run:
  "c \<noteq> backslash \<Longrightarrow> replace (bs_run n @ c # s) [backslash, backslash] [backslash] =
    bs_run ((n + 1) div 2) @ c # replace s [backslash, backslash] [backslash]"
proof (induction n rule: less_induct)
  case (less n)
  show ?case
  proof (cases "n < 2")
    case True
    then have "n = 0 \<or> n = 1" by auto
    then show ?thesis using less.prems by auto
  next
    case False
    then obtain m where "n = Suc (Suc m)" by (metis add_2_eq_Suc le_Suc_ex not_less)
    then show ?thesis using less.IH [of m] less.prems by simp
  qed
qed

lemma replace_double_end:
  "replace (bs_run n) [backslash, backslash] [backslash] = bs_run ((n + 1) div 2)"
proof (induction n rule: less_induct)
  case (less n)
  show ?case
  proof (cases "n < 2")
    case True
    then have "n = 0 \<or> n = 1" by auto
    then show ?thesis by auto
  next
    case False
    then obtain m where "n = Suc (Suc m)" by (metis add_2_eq_Suc le_Suc_ex not_less)
    then show ?thesis using less.IH [of m] by simp
  qed
qed

lemma unescape_pass_run:
  "c \<noteq> backslash \<Longrightarrow> unescape_pass (bs_run n @ c # s) =
    bs_run (if needs_escape c then n div 2 else (n + 1) div 2) @ c # unescape_pass s"
proof (induction n rule: less_induct)
  case (less n)
  show ?case
  proof (cases "n < 2")
    case True
    then have "n = 0 \<or> n = 1" by auto
    then show ?thesis using less.prems by (cases s) auto
  next
    case False
    then obtain m where "n = Suc (Suc m)" by (metis add_2_eq_Suc le_Suc_ex not_less)
    then show ?thesis using less.IH [of m] less.prems by (simp add: needs_escape_def)
  qed
qed

lemma unescape_pass_end: "unescape_pass (bs_run n) = bs_run ((n + 1) div 2)"
proof (induction n rule: less_induct)
  case (less n)
  show ?case
  proof (cases "n < 2")
    case True
    then have "n = 0 \<or> n = 1" by auto
    then show ?thesis by auto
  next
    case False
    then obtain m where "n = Suc (Suc m)" by (metis add_2_eq_Suc le_Suc_ex not_less)
    then show ?thesis using less.IH [of m] by (simp add: needs_escape_def)
  qed
qed

lemma bs_run_cases:
  obtains (all) n where "s = bs_run n"
  | (stop) n c t where "s = bs_run n @ c # t" and "c \<noteq> backslash"
proof -
  let ?P = "\<lambda>x. x = backslash"
  have run: "takeWhile ?P s = bs_run (length (takeWhile ?P s))"
    by (rule replicate_eqI) (auto dest: set_takeWhileD)
  have split: "takeWhile ?P s @ dropWhile ?P s = s" by (rule takeWhile_dropWhile_id)
  show thesis
  proof (cases "dropWhile ?P s")
    case Nil
    have "s = takeWhile ?P s" using split unfolding Nil append_Nil2 by (rule sym)
    from trans [OF this run] have "s = bs_run (length (takeWhile ?P s))" .
    then show thesis by (rule all)
  next
    case (Cons c t)
    then have c: "c \<noteq> backslash" using hd_dropWhile [of ?P s] by simp
    have "s = bs_run (length (takeWhile ?P s)) @ c # t"
      using split unfolding Cons run [symmetric] by (rule sym)
    then show thesis using c by (rule stop)
  qed
qed

lemma unescape_replacements_pass:
  "replace (replace (replace s [backslash, CHR ''(''] [CHR ''(''])
     [backslash, CHR '')''] [CHR '')'']) [backslash, backslash] [backslash] = unescape_pass s"
proof (induction s rule: length_induct)
  case (1 s)
  show ?case
  proof (cases s rule: bs_run_cases)
    case (all n)
    then show ?thesis
      by (simp add: replace_escaped_end replace_double_end unescape_pass_end)
  next
    case (stop n c t)
    with 1 have IH: "replace (replace (replace t [backslash, CHR ''(''] [CHR ''(''])
        [backslash, CHR '')''] [CHR '')'']) [backslash, backslash] [backslash] = unescape_pass t"
      by simp
    have half: "(n - 1 + 1) div 2 = n div 2" by (cases n) simp_all
    consider "c = CHR ''(''" | "c = CHR '')''" | "\<not> needs_escape c"
      using stop(2) by (auto simp: needs_escape_def)
    then show ?thesis
    proof cases
      case 1
      then have "needs_escape c" by (simp add: needs_escape_def)
      then show ?thesis unfolding stop(1) unescape_pass_run [OF stop(2)]
        by (simp only: 1 replace_escaped_run replace_double_run half IH char.inject simp_thms
            if_True if_False)
    next
      case 2
      then have "needs_escape c" by (simp add: needs_escape_def)
      then show ?thesis unfolding stop(1) unescape_pass_run [OF stop(2)]
        by (simp only: 2 replace_escaped_run replace_double_run half IH char.inject simp_thms
            if_True if_False)
    next
      case 3
      then have "c \<noteq> CHR ''(''" "c \<noteq> CHR '')''" by (auto simp: needs_escape_def)
      with 3 show ?thesis unfolding stop(1) unescape_pass_run [OF stop(2)]
        by (simp only: replace_escaped_run [OF _ stop(2)] replace_double_run [OF stop(2)] IH
            char.inject simp_thms if_True if_False)
    qed
  qed
qed

lemma unescape_pass_plain: "backslash \<notin> set s \<Longrightarrow> unescape_pass s = s"
  by (induction s rule: unescape_pass.induct) auto

lemma unescape_rule_content_pass: "unescape_rule_content s = unescape_pass s"
  by (simp add: unescape_rule_content_def unescape_replacements_pass unescape_pass_plain)

lemma unescape_pass_escape: "unescape_pass (escape_rule_content s) = s"
proof (induction s)
  case Nil
  then show ?case by (simp add: escape_rule_content_def)
next
  case (Cons c s)
  show ?case
  proof (cases "needs_escape c")
    case True
    then show ?thesis using Cons by (simp add: escape_rule_content_def)
  next
    case False
    then have "c \<noteq> backslash" by (simp add: needs_escape_def)
    then have "unescape_pass (c # escape_rule_content s) = c # unescape_pass (escape_rule_content s)"
      by (cases "escape_rule_content s") auto
    with False show ?thesis using Cons by (simp add: escape_rule_content_def)
  qed
qed

section \<open>Escaped text and the parser\<close>

lemma escape_Nil [simp]: "escape_rule_content [] = []"
  by (simp add: escape_rule_content_def)

lemma escape_Nil_iff [simp]: "escape_rule_content s = [] \<longleftrightarrow> s = []"
  by (cases s) (auto simp: escape_rule_content_def)

lemma escape_Cons:
  "escape_rule_content (c # s) =
     (if needs_escape c then backslash # c # escape_rule_content s else c # escape_rule_content s)"
  by (simp add: escape_rule_content_def)

lemma escape_snoc:
  "escape_rule_content (s @ [c]) =
     escape_rule_content s @ (if needs_escape c then [backslash, c] else [c])"
  by (simp add: escape_rule_content_def)

lemma escape_star_iff: "escape_rule_content s = ''*'' \<longleftrightarrow> s = ''*''"
  by (cases s) (auto simp: escape_Cons needs_escape_def)

lemma needs_escape_byte: "needs_escape c \<Longrightarrow> byte c = 40 \<or> byte c = 41 \<or> byte c = 92"
  by (auto simp: needs_escape_def)

lemma escape_head:
  assumes "escape_rule_content s = b # t"
  shows "b = backslash \<or> (\<exists>s'. s = b # s' \<and> t = escape_rule_content s')"
  using assms by (cases s) (auto simp: escape_Cons split: if_splits)

lemma ws_len_escape: "ws_len s = 0 \<Longrightarrow> ws_len (escape_rule_content s) = 0"
proof (cases s)
  case (Cons a r)
  assume ws: "ws_len s = 0"
  show ?thesis
  proof (cases "needs_escape a")
    case True
    then show ?thesis by (simp add: Cons escape_Cons ws_len_ascii is_ascii_ws_def)
  next
    case False
    have "\<not> is_ws2 a b" if "escape_rule_content r = b # t" for b t
      using escape_head [OF that] ws by (auto simp: Cons ws_len_eq_0 is_ws2_def)
    moreover have "\<not> is_ws3 a b c" if e: "escape_rule_content r = b # c # t" for b c t
    proof (cases "b = backslash \<or> c = backslash")
      case True
      then show ?thesis by (auto simp: is_ws3_def)
    next
      case no: False
      then obtain r' where r': "r = b # r'" "c # t = escape_rule_content r'"
        using escape_head [OF e] by auto
      with no obtain r'' where "r' = c # r''" using escape_head [of r' c t] by auto
      with r' ws show ?thesis by (simp add: Cons split: if_splits)
    qed
    moreover have "\<not> is_ascii_ws a" using ws by (simp add: Cons ws_len_eq_0)
    ultimately show ?thesis using False by (simp add: Cons escape_Cons ws_len_eq_0)
  qed
qed simp

lemma rev_escape_head:
  assumes "rev (escape_rule_content s) = b # t"
  obtains s' where "s = s' @ [b]"
    and "t = (if needs_escape b then [backslash] else []) @ rev (escape_rule_content s')"
  using assms by (cases s rule: rev_cases) (auto simp: escape_snoc split: if_splits)

lemma ws_len_rev_escape:
  "ws_len_rev (rev s) = 0 \<Longrightarrow> ws_len_rev (rev (escape_rule_content s)) = 0"
proof (cases s rule: rev_cases)
  case (snoc r a)
  assume ws: "ws_len_rev (rev s) = 0"
  show ?thesis
  proof (cases "needs_escape a")
    case True
    then have "byte a < 128 \<and> \<not> is_ascii_ws a"
      using needs_escape_byte [OF True] by (auto simp: is_ascii_ws_def)
    then show ?thesis using True by (simp add: snoc escape_snoc ws_len_rev_ascii)
  next
    case False
    have "\<not> is_ws2 b a" if e: "rev (escape_rule_content r) = b # t" for b t
    proof -
      obtain r' where "r = r' @ [b]" using rev_escape_head [OF e] by blast
      with ws show ?thesis by (simp add: snoc ws_len_rev_eq_0 del: ws_len_rev.simps)
    qed
    moreover have "\<not> is_ws3 c b a" if e: "rev (escape_rule_content r) = b # c # t" for b c t
    proof -
      obtain r' where r': "r = r' @ [b]"
        "c # t = (if needs_escape b then [backslash] else []) @ rev (escape_rule_content r')"
        using rev_escape_head [OF e] by blast
      show ?thesis
      proof (cases "needs_escape b")
        case True
        then show ?thesis using needs_escape_byte [OF True] by (auto simp: is_ws3_def)
      next
        case no: False
        then have "rev (escape_rule_content r') = c # t" using r'(2) by simp
        then obtain r'' where "r' = r'' @ [c]" using rev_escape_head by blast
        with r'(1) ws show ?thesis by (simp add: snoc split: if_splits)
      qed
    qed
    moreover have "\<not> is_ascii_ws a" using ws by (simp add: snoc ws_len_rev_eq_0)
    ultimately show ?thesis using False by (simp add: snoc escape_snoc ws_len_rev_eq_0)
  qed
qed simp

lemma trim_escape: "trim s = s \<Longrightarrow> trim (escape_rule_content s) = escape_rule_content s"
  by (auto simp: trim_eq_self ws_len_escape ws_len_rev_escape)

lemma backslashes_before_append:
  "n \<le> length s \<Longrightarrow> backslashes_before (s @ t) n = backslashes_before s n"
  by (induction n) (auto simp: nth_opt_def nth_append)

lemma backslashes_before_snoc:
  "backslashes_before (s @ [c]) (Suc (length s)) =
     (if c = backslash then Suc (backslashes_before s (length s)) else 0)"
  by (simp add: nth_opt_def backslashes_before_append)

lemma escape_trailing_even:
  "even (backslashes_before (escape_rule_content s) (length (escape_rule_content s)))"
proof (induction s rule: rev_induct)
  case (snoc c s)
  let ?e = "escape_rule_content s"
  have two: "backslashes_before (?e @ [backslash, c]) (Suc (Suc (length ?e))) =
      (if c = backslash then Suc (Suc (backslashes_before ?e (length ?e))) else 0)"
    using backslashes_before_snoc [of "?e @ [backslash]" c] backslashes_before_snoc [of ?e backslash]
    by simp
  show ?case
  proof (cases "needs_escape c")
    case True
    then show ?thesis using snoc two by (simp add: escape_snoc)
  next
    case False
    then have "c \<noteq> backslash" by (simp add: needs_escape_def)
    then show ?thesis using False backslashes_before_snoc [of ?e c] by (simp add: escape_snoc)
  qed
qed simp

lemma is_unescaped_after_escape: "is_unescaped (escape_rule_content s @ t) (length (escape_rule_content s))"
  using escape_trailing_even [of s]
  by (simp add: is_unescaped_def backslashes_before_append even_iff_mod_2_eq_zero)

lemma find_last_unescaped_end:
  "is_unescaped (s @ [c]) (length s) \<Longrightarrow> find_last_unescaped (s @ [c]) c = Some (length s)"
  by (simp add: find_last_unescaped_def nth_opt_def)

lemma backslashes_before_plain:
  "n \<le> length s \<Longrightarrow> backslash \<notin> set s \<Longrightarrow> backslashes_before (s @ t) n = 0"
proof (cases n)
  case (Suc m)
  assume "n \<le> length s" and "backslash \<notin> set s"
  from \<open>n \<le> length s\<close> Suc have m: "m < length s" by simp
  have "s ! m \<noteq> backslash"
    by (rule notI) (use nth_mem [OF m] \<open>backslash \<notin> set s\<close> in simp)
  with Suc m show ?thesis by (simp add: nth_opt_def nth_append)
qed simp

lemma find_upt: "P i \<Longrightarrow> i < n \<Longrightarrow> (\<And>j. j < i \<Longrightarrow> \<not> P j) \<Longrightarrow> find P [0..<n] = Some i"
  unfolding find_Some_iff by (rule exI [of _ i]) (simp del: upt_Suc)

lemma find_first_unescaped_at:
  assumes "c \<notin> set s" and "backslash \<notin> set s"
  shows "find_first_unescaped (s @ c # t) c = Some (length s)"
proof -
  have here: "is_unescaped (s @ c # t) (length s)"
    using assms(2) by (simp add: is_unescaped_def backslashes_before_plain)
  have before: "\<not> nth_opt (s @ c # t) j = Some c" if "j < length s" for j
    using assms(1) that by (auto simp: nth_opt_def nth_append)
  show ?thesis
    unfolding find_first_unescaped_def by (rule find_upt) (use here before in \<open>auto simp: nth_opt_def\<close>)
qed

lemma tool_name_cases:
  assumes "tool_name_to_filter name = Some t"
  shows "name \<in> {''Bash'', ''Read'', ''Edit'', ''Write'', ''MCPTool'', ''Grep'', ''Glob'', ''WebFetch'',
    ''WebSearch'', ''AgentMessage'', ''SendSubagentMessage'', ''SendAgentMessage''}"
  by (rule ccontr) (use assms in \<open>simp add: tool_name_to_filter_def\<close>)

lemma tool_name_shape:
  assumes "tool_name_to_filter name = Some t"
  shows "name \<noteq> [] \<and> list_all is_ascii_alphabetic name"
  using tool_name_cases [OF assms]
  by (elim insertE emptyE; simp only:)
    (simp_all add: is_ascii_alphabetic_def is_ascii_upper_def is_ascii_lower_def)

lemma tool_name_plain:
  assumes "tool_name_to_filter name = Some t"
  shows "name \<noteq> []" and "CHR ''('' \<notin> set name" and "backslash \<notin> set name"
    and "trim name = name" and "trim (name @ u @ '')'') = name @ u @ '')''"
proof -
  have nonempty: "name \<noteq> []" and letters: "\<forall>c\<in>set name. is_ascii_alphabetic c"
    using tool_name_shape [OF assms] by (simp_all add: list_all_iff)
  show "name \<noteq> []" by (rule nonempty)
  have visible: "byte c < 128 \<and> \<not> is_ascii_ws c" if "c \<in> set name" for c
    using letters that
    by (auto simp: is_ascii_alphabetic_def is_ascii_upper_def is_ascii_lower_def is_ascii_ws_def)
  have "\<not> is_ascii_alphabetic (CHR ''('')" "\<not> is_ascii_alphabetic backslash"
    by (simp_all add: is_ascii_alphabetic_def is_ascii_upper_def is_ascii_lower_def)
  with letters show "CHR ''('' \<notin> set name" "backslash \<notin> set name" by blast+
  show "trim name = name"
    using nonempty visible [OF hd_in_set] visible [OF last_in_set] by (intro trim_visible) auto
  have "last (name @ u @ '')'') = CHR '')''" "hd (name @ u @ '')'') = hd name"
    using nonempty by simp_all
  then show "trim (name @ u @ '')'') = name @ u @ '')''"
    using nonempty visible [OF hd_in_set] by (intro trim_visible) (simp_all add: is_ascii_ws_def)
qed

lemma get_to_plain: "\<not> is_continuation c \<Longrightarrow> get_to (s @ c # t) (length s) = Some s"
  by (simp add: get_to_def is_char_boundary_def)

lemma get_from_plain:
  "t = [] \<or> \<not> is_continuation (hd t) \<Longrightarrow> get_from (s @ c # t) (Suc (length s)) = Some t"
  by (cases t) (auto simp: get_from_def is_char_boundary_def nth_append)

lemma paren_no_continuation: "\<not> is_continuation (CHR ''('')" "\<not> is_continuation (CHR '')'')"
  "\<not> is_continuation backslash"
  by (simp_all add: is_continuation_def)

text \<open>The shape of every rule the parser sees as \<open>Tool(content)\<close>, when the content is written in
  the escaped form.\<close>

lemma parse_written_rule:
  assumes "tool_name_to_filter name = Some t"
    and "trim raw = c" and "is_unescaped (raw @ '')'') (length raw)"
    and "raw = [] \<or> \<not> is_continuation (hd raw)"
  shows "parse_permission_rule (name @ ''('' @ raw @ '')'') act =
    (let p0 = (if c = [] \<or> c = ''*'' then [] else unescape_rule_content c);
         p1 = (if t = tool_filter.Bash then strip_bash_colon_wildcard p0 else p0);
         (p2, mode) = strip_domain_prefix p1
     in Inr \<lparr>action = act, tool = t, pattern = (if p2 = [] then None else Some p2),
             pattern_mode = mode\<rparr>)"
proof -
  note name = tool_name_plain [OF assms(1)]
  have whole: "trim (name @ ''('' @ raw @ '')'') = name @ CHR ''('' # (raw @ '')'')"
    using name(5) [of "''('' @ raw"] by simp
  have first: "find_first_unescaped (name @ CHR ''('' # (raw @ '')'')) (CHR ''('') = Some (length name)"
    by (rule find_first_unescaped_at [OF name(2,3)])
  have rest: "get_from (name @ CHR ''('' # (raw @ '')'')) (length name + 1) = Some (raw @ '')'')"
    using get_from_plain [of "raw @ '')''" name "CHR ''(''"] assms(4) paren_no_continuation
    by (cases raw) auto
  have closing: "find_last_unescaped (raw @ '')'') (CHR '')'') = Some (length raw)"
    by (rule find_last_unescaped_end [OF assms(3)])
  show ?thesis
    unfolding parse_permission_rule_def whole Let_def first parse_tool_rule_def
      get_to_plain [OF paren_no_continuation(1)] option.case rest closing
      get_to_plain [OF paren_no_continuation(2)] name(4) assms(1,2) by simp
qed

lemma hd_escape_boundary:
  "c \<noteq> [] \<Longrightarrow> \<not> is_continuation (hd c) \<Longrightarrow> \<not> is_continuation (hd (escape_rule_content c))"
  by (cases c) (auto simp: escape_Cons paren_no_continuation)

lemma strip_bash_colon_wildcard_other: "\<not> ends_with c '':*'' \<Longrightarrow> strip_bash_colon_wildcard c = c"
  by (simp add: strip_bash_colon_wildcard_def strip_suffix_def)

definition tool_wide_rule :: "rule_action \<Rightarrow> tool_filter \<Rightarrow> permission_rule" where
  "tool_wide_rule act t = \<lparr>action = act, tool = t, pattern = None, pattern_mode = Glob\<rparr>"

section \<open>Properties\<close>

text \<open>C32: reading a written rule back. Escape the parentheses and backslashes of a content and put
  it between \<open>Tool(\<close> and \<open>)\<close>: the parser returns that tool and that very content as the
  pattern, with a \<open>domain:\<close> marker taken off and recorded in the mode. The content is any non-blank
  text without surrounding whitespace that is not the wildcard \<open>*\<close> and, for Bash, does not end in
  the \<open>:*\<close> suffix; its first byte starts a character, as in every Rust string.\<close>

theorem parse_permission_rule_round_trip:
  assumes "tool_name_to_filter name = Some t"
    and "c \<noteq> []" and "c \<noteq> ''*''" and "trim c = c" and "\<not> is_continuation (hd c)"
    and "t = tool_filter.Bash \<Longrightarrow> \<not> ends_with c '':*''"
    and "strip_domain_prefix c = (p, mode)" and "p \<noteq> []"
  shows "parse_permission_rule (name @ ''('' @ escape_rule_content c @ '')'') act =
    Inr \<lparr>action = act, tool = t, pattern = Some p, pattern_mode = mode\<rparr>"
proof -
  have boundary: "escape_rule_content c = [] \<or> \<not> is_continuation (hd (escape_rule_content c))"
    using hd_escape_boundary [OF assms(2,5)] by simp
  have "(if t = tool_filter.Bash then strip_bash_colon_wildcard c else c) = c"
    using assms(6) by (simp add: strip_bash_colon_wildcard_other)
  then show ?thesis
    unfolding parse_written_rule
      [OF assms(1) trim_escape [OF assms(4)] is_unescaped_after_escape boundary]
    using assms(2,3,7,8)
    by (simp add: escape_star_iff unescape_rule_content_pass unescape_pass_escape)
qed

theorem parse_permission_rule_round_trip_witness:
  "parse_permission_rule ''Bash(echo '' Allow = Inl (MalformedRule ''missing closing parenthesis'') \<and>
   parse_permission_rule (''WebFetch'' @ ''('' @ escape_rule_content ''domain:a(b'' @ '')'') Allow =
     Inr \<lparr>action = Allow, tool = tool_filter.WebFetch, pattern = Some ''a(b'', pattern_mode = Domain\<rparr>"
proof
  show "parse_permission_rule ''Bash(echo '' Allow =
      Inl (MalformedRule ''missing closing parenthesis'')"
    by code_simp
  show "parse_permission_rule (''WebFetch'' @ ''('' @ escape_rule_content ''domain:a(b'' @ '')'') Allow =
     Inr \<lparr>action = Allow, tool = tool_filter.WebFetch, pattern = Some ''a(b'', pattern_mode = Domain\<rparr>"
  proof (rule parse_permission_rule_round_trip)
    show "tool_name_to_filter ''WebFetch'' = Some tool_filter.WebFetch" by code_simp
    show "trim ''domain:a(b'' = ''domain:a(b''" by code_simp
    show "\<not> is_continuation (hd ''domain:a(b'')" by code_simp
    show "strip_domain_prefix ''domain:a(b'' = (''a(b'', Domain)" by code_simp
  qed simp_all
qed

text \<open>A tool-wide rule has three spellings. The bare tool name, empty parentheses and the
  wildcard alone all parse to the rule without a pattern; so does a Bash rule whose content is
  only the \<open>:*\<close> suffix, and the whole MCP tool under the \<open>mcp__*\<close> spelling.\<close>

theorem tool_wide_spellings:
  assumes "tool_name_to_filter name = Some t"
  shows "parse_permission_rule name act = Inr (tool_wide_rule act t) \<and>
    parse_permission_rule (name @ ''()'') act = Inr (tool_wide_rule act t) \<and>
    parse_permission_rule (name @ ''(*)'') act = Inr (tool_wide_rule act t) \<and>
    parse_permission_rule ''Bash(:*)'' act = Inr (tool_wide_rule act tool_filter.Bash) \<and>
    parse_permission_rule ''mcp__*'' act = Inr (tool_wide_rule act tool_filter.Mcp)"
proof -
  have none: "find_first_unescaped name (CHR ''('') = None"
    unfolding find_first_unescaped_def find_None_iff
    using tool_name_plain(2) [OF assms(1)] nth_mem by (fastforce simp: nth_opt_def)
  have "\<not> unsupported_tool name"
    using tool_name_cases [OF assms(1)] by (auto simp: unsupported_tool_def)
  then have bare: "parse_permission_rule name act = Inr (tool_wide_rule act t)"
    using assms(1) none tool_name_plain(4) [OF assms(1)]
    by (simp add: parse_permission_rule_def parse_bare_rule_def tool_wide_rule_def)
  have star: "trim ''*'' = ''*''" "is_unescaped (''*'' @ '')'') (length ''*'')"
    "''*'' = [] \<or> \<not> is_continuation (hd ''*'')"
    by code_simp+
  have "parse_permission_rule (name @ ''('' @ [] @ '')'') act = Inr (tool_wide_rule act t)"
    using parse_written_rule [OF assms(1), of "[]" "[]" act]
    by (simp add: is_unescaped_def tool_wide_rule_def strip_bash_colon_wildcard_def
        strip_domain_prefix_def strip_suffix_def ends_with_def strip_prefix_def)
  moreover have "parse_permission_rule (name @ ''('' @ ''*'' @ '')'') act = Inr (tool_wide_rule act t)"
    unfolding parse_written_rule [OF assms(1) star]
    by (simp add: tool_wide_rule_def strip_bash_colon_wildcard_def strip_domain_prefix_def
        strip_suffix_def ends_with_def strip_prefix_def)
  moreover have "parse_permission_rule ''Bash(:*)'' act = Inr (tool_wide_rule act tool_filter.Bash)"
    by (cases act) code_simp+
  moreover have "parse_permission_rule ''mcp__*'' act = Inr (tool_wide_rule act tool_filter.Mcp)"
    by (cases act) code_simp+
  ultimately show ?thesis using bare by simp
qed

theorem tool_wide_spellings_witness:
  "parse_permission_rule (''Read'' @ ''(*)'') Deny = parse_permission_rule ''Read'' Deny"
  using tool_wide_spellings [of "''Read''" tool_filter.Read Deny] by (simp add: tool_name_to_filter_def)

end
