(* ===== verification/Bash_Tree.thy ===== *)
theory Bash_Tree
  imports Bash_Wrappers "HOL-Library.Multiset" "HOL-Library.Product_Lexorder"
begin

text \<open>
  Scripts (\<open>bash_command_splitting.rs\<close>, the part that works on syntax trees): decomposition of a
  script into plain word-only commands, the primary command shown to the user, and the soft-break
  and heredoc ranges used to display a script.

  The parser is the third-party tree-sitter with its bash grammar. It is a parameter
  \<open>try_parse_shell\<close> that maps a script to the root of a syntax tree or to \<open>None\<close>; a node carries
  what the code reads of it. Nothing is assumed about the trees it returns. The explicit stacks of
  the tree walks have their top at the head of a list.
\<close>

section \<open>Syntax trees\<close>

datatype node = Node
  (kind: string) (is_named: bool) (has_error: bool) (start_byte: nat) (end_byte: nat)
  (field_name: "string option") (children: "node list")

type_synonym shell_parser = "string \<Rightarrow> node option"

definition named_children :: "node \<Rightarrow> node list" where
  "named_children n = filter is_named (children n)"

text \<open>\<open>node.utf8_text(src)\<close>: the bytes of the node's range, when the range is one of characters.\<close>

definition node_text :: "string \<Rightarrow> node \<Rightarrow> string option" where
  "node_text src n = get_range src (start_byte n) (end_byte n)"

text \<open>All nodes of a tree, the root first, and the measure of the stack walks.\<close>

primrec nodes :: "node \<Rightarrow> node list" where
  "nodes (Node k nm e s t f cs) = Node k nm e s t f cs # concat (map nodes cs)"

definition stack_size :: "node list \<Rightarrow> nat" where
  "stack_size stack = sum_list (map size stack)"

lemma stack_size_children: "stack_size (children n) < size n"
  by (cases n) (simp add: stack_size_def size_list_conv_sum_list)

lemma stack_size_push [simp]:
  "stack_size (children n @ stack) < stack_size (n # stack)"
  "stack_size (rev (children n) @ stack) < stack_size (n # stack)"
  "stack_size stack < stack_size (n # stack)"
  using stack_size_children [of n] by (simp_all add: stack_size_def rev_map [symmetric])

section \<open>Plain commands\<close>

record plain_command =
  words :: "string list"
  span_start :: nat
  span_end :: nat

definition spans_whole_script :: "plain_command \<Rightarrow> string \<Rightarrow> bool" where
  "spans_whole_script c script =
     (case (get_to script (span_start c), get_from script (span_end c)) of
        (Some before, Some after) \<Rightarrow> trim before = [] \<and> trim after = []
      | _ \<Rightarrow> False)"

definition ALLOWED_KINDS :: "string list" where
  "ALLOWED_KINDS =
     [''program'', ''list'', ''pipeline'', ''command'', ''command_name'', ''word'', ''string'',
      ''string_content'', ''raw_string'', ''number'', ''concatenation'', ''variable_assignment'',
      ''variable_name'', ''redirected_statement'', ''file_redirect'', ''file_descriptor'', ''comment'',
      ''heredoc_redirect'', ''heredoc_start'', ''heredoc_body'', ''heredoc_content'', ''heredoc_end'']"

definition ALLOWED_PUNCT_TOKENS :: "string list" where
  "ALLOWED_PUNCT_TOKENS =
     [''&&'', ''||'', '';'', ''|'', [double_quote], [single_quote], ''='', ''>'', ''>>'', ''<'', ''<<'', ''>&'',
      ''&>'', ''&>>'']"

text \<open>The two tests the walk makes on one node.\<close>

definition node_allowed :: "node \<Rightarrow> bool" where
  "node_allowed n =
     (if is_named n then kind n \<in> set ALLOWED_KINDS
      else \<not> (list_ex (\<lambda>c. c = CHR ''&'' \<or> c = CHR '';'' \<or> c = CHR ''|'') (kind n) \<and>
              kind n \<notin> set ALLOWED_PUNCT_TOKENS) \<and>
           (kind n \<in> set ALLOWED_PUNCT_TOKENS \<or> trim (kind n) = []))"

definition is_command_node :: "node \<Rightarrow> bool" where
  "is_command_node n = (is_named n \<and> kind n = ''command'')"

function word_only_walk :: "node list \<Rightarrow> node list \<Rightarrow> node list option" where
  "word_only_walk [] commands = Some commands"
| "word_only_walk (n # stack) commands =
     (if \<not> node_allowed n then None
      else word_only_walk (rev (children n) @ stack)
             (if is_command_node n then commands @ [n] else commands))"
  by pat_completeness auto
termination
  by (relation "measure (\<lambda>(stack, _). stack_size stack)") auto

text \<open>\<open>parse_plain_command_from_node\<close>: one named child at a time, with the words and the span so far.\<close>

type_synonym word_acc = "string list \<times> nat option \<times> nat option"

definition push_word :: "word_acc \<Rightarrow> node \<Rightarrow> string option \<Rightarrow> word_acc option" where
  "push_word acc n text =
     (case (acc, text) of
        (_, None) \<Rightarrow> None
      | ((ws, st, _), Some t) \<Rightarrow>
          Some (ws @ [t], (if st = None then Some (start_byte n) else st), Some (end_byte n)))"

definition simple_string :: "node \<Rightarrow> node option" where
  "simple_string n =
     (case children n of
        [a, b, c] \<Rightarrow>
          if kind a = [double_quote] \<and> kind b = ''string_content'' \<and> kind c = [double_quote]
          then Some b else None
      | _ \<Rightarrow> None)"

definition plain_word_step :: "string \<Rightarrow> word_acc \<Rightarrow> node \<Rightarrow> word_acc option" where
  "plain_word_step src acc child =
     (if kind child = ''variable_assignment'' then Some acc
      else if kind child = ''command_name'' then
        (case named_children child of
           [] \<Rightarrow> None
         | word_node # _ \<Rightarrow>
             if kind word_node \<noteq> ''word'' then None
             else push_word acc word_node (node_text src word_node))
      else if kind child = ''word'' \<or> kind child = ''number'' then push_word acc child (node_text src child)
      else if kind child = ''string'' \<and> simple_string child \<noteq> None then
        push_word acc child (Option.bind (simple_string child) (node_text src))
      else if kind child = ''raw_string'' then
        push_word acc child
          (Option.bind (node_text src child) (\<lambda>raw.
             Option.bind (strip_prefix raw [single_quote]) (\<lambda>s. strip_suffix s [single_quote])))
      else if kind child = ''concatenation'' then push_word acc child (node_text src child)
      else None)"

fun fold_opt :: "('b \<Rightarrow> 'a \<Rightarrow> 'b option) \<Rightarrow> 'b \<Rightarrow> 'a list \<Rightarrow> 'b option" where
  "fold_opt f acc [] = Some acc"
| "fold_opt f acc (x # xs) = (case f acc x of None \<Rightarrow> None | Some acc' \<Rightarrow> fold_opt f acc' xs)"

definition parse_plain_command_from_node :: "node \<Rightarrow> string \<Rightarrow> plain_command option" where
  "parse_plain_command_from_node cmd src =
     (if kind cmd \<noteq> ''command'' then None
      else map_option
        (\<lambda>(ws, st, en).
           \<lparr>words = ws,
            span_start = (case st of Some s \<Rightarrow> s | None \<Rightarrow> start_byte cmd),
            span_end = (case en of Some e \<Rightarrow> e | None \<Rightarrow> end_byte cmd)\<rparr>)
        (fold_opt (plain_word_step src) ([], None, None) (named_children cmd)))"

definition collect_commands :: "node list \<Rightarrow> string \<Rightarrow> plain_command list option" where
  "collect_commands ns src =
     fold_opt (\<lambda>acc n. map_option (\<lambda>c. acc @ [c]) (parse_plain_command_from_node n src)) [] ns"

definition try_parse_word_only_commands_sequence :: "node \<Rightarrow> string \<Rightarrow> plain_command list option" where
  "try_parse_word_only_commands_sequence root src =
     (if has_error root then None
      else case word_only_walk [root] [] of
        None \<Rightarrow> None
      | Some command_nodes \<Rightarrow> collect_commands (sort_key start_byte command_nodes) src)"

definition all_commands_from_script :: "shell_parser \<Rightarrow> string \<Rightarrow> plain_command list option" where
  "all_commands_from_script try_parse_shell script =
     Option.bind (try_parse_shell script) (\<lambda>tree. try_parse_word_only_commands_sequence tree script)"

section \<open>The primary command\<close>

record bash_command_highlights =
  hl_prefix :: "string list"
  highlighted_words :: "string list"
  hl_suffix :: "string list"

text \<open>The peeled words are a suffix of the command's words, so \<open>words[peeled_off..]\<close> is the peeled
  slice itself.\<close>

fun find_primary :: "plain_command list \<Rightarrow> (plain_command \<times> nat \<times> string list) option" where
  "find_primary [] = None"
| "find_primary (c # cs) =
     (let peeled = unwrap_wrappers (words c)
      in if peeled = [] \<or> is_setup_command peeled then find_primary cs
         else let peeled_off = length (words c) - length peeled
              in Some (c, peeled_off, drop peeled_off (words c)))"

definition primary_command_from_script :: "shell_parser \<Rightarrow> string \<Rightarrow> bash_command_highlights option" where
  "primary_command_from_script try_parse_shell script =
     Option.bind (all_commands_from_script try_parse_shell script) (\<lambda>commands.
     Option.bind (find_primary commands) (\<lambda>(primary, peeled_off, peeled_words).
     Option.bind (get_to script (span_start primary)) (\<lambda>prefix_str.
     Option.bind (get_from script (span_end primary)) (\<lambda>suffix_str.
       Some \<lparr>hl_prefix = sh_split_simple prefix_str @ take peeled_off (words primary),
             highlighted_words = peeled_words,
             hl_suffix = sh_split_simple suffix_str\<rparr>))))"

section \<open>Soft breaks\<close>

definition PAYLOAD_NODE_KINDS :: "string list" where
  "PAYLOAD_NODE_KINDS =
     [''heredoc_body'', ''simple_heredoc_body'', ''heredoc_content'', ''heredoc_end'', ''string'',
      ''raw_string'', ''string_content'', ''ansi_c_string'', ''translated_string'', ''comment'']"

definition is_soft_break_operator_kind :: "string \<Rightarrow> bool" where
  "is_soft_break_operator_kind k = (k = ''&&'' \<or> k = ''||'' \<or> k = ''|'' \<or> k = '';'')"

definition is_payload_node_kind :: "string \<Rightarrow> bool" where
  "is_payload_node_kind k = (k \<in> set PAYLOAD_NODE_KINDS)"

definition usable_break :: "string \<Rightarrow> nat \<Rightarrow> bool" where
  "usable_break script e = (0 < e \<and> e \<le> length script \<and> is_char_boundary script e)"

function soft_break_walk :: "string \<Rightarrow> node list \<Rightarrow> nat list \<Rightarrow> nat list" where
  "soft_break_walk script [] breaks = breaks"
| "soft_break_walk script (n # stack) breaks =
     (if is_payload_node_kind (kind n) then soft_break_walk script stack breaks
      else soft_break_walk script (children n @ stack)
             (if is_soft_break_operator_kind (kind n) \<and> usable_break script (end_byte n)
              then breaks @ [end_byte n] else breaks))"
  by pat_completeness auto
termination
  by (relation "measure (\<lambda>(_, stack, _). stack_size stack)") auto

definition soft_break_offsets_after_operators :: "shell_parser \<Rightarrow> string \<Rightarrow> nat list" where
  "soft_break_offsets_after_operators try_parse_shell script =
     (case try_parse_shell script of
        None \<Rightarrow> []
      | Some root \<Rightarrow>
          if has_error root then [] else remdups_adj (sort (soft_break_walk script [root] [])))"

definition HEREDOC_PAYLOAD :: "string list" where
  "HEREDOC_PAYLOAD = [''heredoc_body'', ''simple_heredoc_body'', ''heredoc_content'']"

function heredoc_walk :: "string \<Rightarrow> node list \<Rightarrow> (nat \<times> nat) list \<Rightarrow> (nat \<times> nat) list" where
  "heredoc_walk script [] ranges = ranges"
| "heredoc_walk script (n # stack) ranges =
     (if kind n \<in> set HEREDOC_PAYLOAD then
        heredoc_walk script stack
          (if start_byte n < end_byte n \<and> end_byte n \<le> length script
           then ranges @ [(start_byte n, end_byte n)] else ranges)
      else heredoc_walk script (children n @ stack) ranges)"
  by pat_completeness auto
termination
  by (relation "measure (\<lambda>(_, stack, _). stack_size stack)") auto

definition heredoc_payload_byte_ranges :: "shell_parser \<Rightarrow> string \<Rightarrow> (nat \<times> nat) list" where
  "heredoc_payload_byte_ranges try_parse_shell script =
     (case try_parse_shell script of
        None \<Rightarrow> []
      | Some root \<Rightarrow>
          if has_error root then [] else remdups_adj (sort (heredoc_walk script [root] [])))"

definition range_fully_inside :: "nat \<Rightarrow> nat \<Rightarrow> (nat \<times> nat) list \<Rightarrow> bool" where
  "range_fully_inside s e ranges =
     (if e < s then False else list_ex (\<lambda>(rs, re). rs \<le> s \<and> e \<le> re) ranges)"

text \<open>The loop both splitters share: cut the text at each break after the last cut, then take the
  rest. It returns the chunks and the position of the last cut.\<close>

fun cut_loop :: "string \<Rightarrow> nat list \<Rightarrow> nat \<Rightarrow> string list \<Rightarrow> string list \<times> nat" where
  "cut_loop text [] start chunks = (chunks, start)"
| "cut_loop text (b # bs) start chunks =
     (case (if start < b then get_range text start b else None) of
        Some chunk \<Rightarrow> cut_loop text bs b (chunks @ [chunk])
      | None \<Rightarrow> cut_loop text bs start chunks)"

definition cut_rest :: "string \<Rightarrow> string list \<times> nat \<Rightarrow> string list" where
  "cut_rest text r =
     (case r of (chunks, start) \<Rightarrow>
        (case (if start < length text then get_from text start else None) of
           Some chunk \<Rightarrow> chunks @ [chunk]
         | None \<Rightarrow> chunks))"

definition split_physical_line_at_soft_breaks :: "string \<Rightarrow> nat \<Rightarrow> nat list \<Rightarrow> string list" where
  "split_physical_line_at_soft_breaks line line_start breaks =
     (let line_end = line_start + length line;
          rel = remdups_adj
                  (filter (is_char_boundary line)
                    (map (\<lambda>b. b - line_start)
                      (filter (\<lambda>b. line_start < b \<and> b < line_end) breaks)))
      in if rel = [] then [line]
         else let chunks = cut_rest line (cut_loop line rel 0 [])
              in if chunks = [] then [line] else chunks)"

definition soft_break_chunks :: "shell_parser \<Rightarrow> string \<Rightarrow> string list" where
  "soft_break_chunks try_parse_shell script =
     (let breaks = soft_break_offsets_after_operators try_parse_shell script
      in if breaks = [] then [script] else cut_rest script (cut_loop script breaks 0 []))"

section \<open>Facts about the walks\<close>

lemma nodes_eq: "nodes n = n # concat (map nodes (children n))"
  by (cases n) simp

abbreviation all_nodes :: "node list \<Rightarrow> node list" where
  "all_nodes ns \<equiv> concat (map nodes ns)"

lemma mset_all_nodes_rev: "mset (all_nodes (rev ns)) = mset (all_nodes ns)"
  by (induction ns) (simp_all add: ac_simps)

lemma word_only_walk_None: "word_only_walk stack cs = None \<longleftrightarrow> \<not> list_all node_allowed (all_nodes stack)"
proof (induction stack cs rule: word_only_walk.induct)
  case (2 n stack cs)
  have "list_all node_allowed (all_nodes (rev (children n))) \<longleftrightarrow>
      list_all node_allowed (all_nodes (children n))"
    by (simp add: list_all_iff)
  with 2 show ?case by (simp add: nodes_eq [of n])
qed simp

lemma word_only_walk_commands:
  "word_only_walk stack cs = Some ns \<Longrightarrow>
   mset ns = mset cs + mset (filter is_command_node (all_nodes stack))"
proof (induction stack cs rule: word_only_walk.induct)
  case (2 n stack cs)
  have "mset (filter is_command_node (all_nodes (rev (children n)))) =
      mset (filter is_command_node (all_nodes (children n)))"
    using mset_all_nodes_rev [of "children n"] by (metis mset_filter)
  with 2 show ?case by (auto simp: nodes_eq [of n] split: if_splits)
qed simp

lemma fold_opt_collect:
  "fold_opt (\<lambda>acc n. map_option (\<lambda>c. acc @ [c]) (f n)) acc ns = Some r \<longleftrightarrow>
   (\<exists>cs. r = acc @ cs \<and> list_all2 (\<lambda>n c. f n = Some c) ns cs)"
proof (induction ns arbitrary: acc)
  case (Cons n ns)
  then show ?case by (cases "f n") (auto simp: list_all2_Cons1)
qed auto

lemma collect_commands_eq:
  "collect_commands ns src = Some cs \<longleftrightarrow>
   list_all2 (\<lambda>n c. parse_plain_command_from_node n src = Some c) ns cs"
  by (simp add: collect_commands_def fold_opt_collect)

lemma find_primary_SomeD:
  "find_primary cs = Some (c, k, ws) \<Longrightarrow>
   c \<in> set cs \<and> ws = unwrap_wrappers (words c) \<and> ws \<noteq> [] \<and> \<not> is_setup_command ws \<and>
   words c = take k (words c) @ ws"
proof (induction cs)
  case (Cons d cs)
  have "suffix (unwrap_wrappers (words d)) (words d)"
    by (simp add: unwrap_wrappers_def unwrap_wrappers_suffix)
  then obtain pre where "words d = pre @ unwrap_wrappers (words d)" by (auto simp: suffix_def)
  then have peeled: "drop (length (words d) - length (unwrap_wrappers (words d))) (words d) =
      unwrap_wrappers (words d)"
    by (metis append_eq_conv_conj length_append add_diff_cancel_right')
  then have "words d = take (length (words d) - length (unwrap_wrappers (words d))) (words d) @
      unwrap_wrappers (words d)"
    by (metis append_take_drop_id)
  with peeled Cons show ?case by (auto simp: Let_def split: if_splits)
qed simp

lemma soft_break_walk_usable:
  "list_all (usable_break script) bs \<Longrightarrow> list_all (usable_break script) (soft_break_walk script stack bs)"
  by (induction script stack bs rule: soft_break_walk.induct) auto

lemma strict_remdups_adj: "sorted xs \<Longrightarrow> sorted_wrt (<) (remdups_adj xs)" for xs :: "'a::linorder list"
  by (induction xs rule: remdups_adj.induct) (fastforce split: if_splits)+

text \<open>Cutting keeps the text: the chunks so far are the text up to the last cut.\<close>

lemma cut_loop_prefix:
  assumes "concat chunks = take start src" and "start \<le> length src" and "is_char_boundary src start"
  shows "\<exists>chunks' start'. cut_loop src bs start chunks = (chunks', start') \<and>
    concat chunks' = take start' src \<and> start' \<le> length src \<and> is_char_boundary src start'"
  using assms
proof (induction bs arbitrary: start chunks)
  case (Cons b bs)
  show ?case
  proof (cases "if start < b then get_range src start b else None")
    case None
    with Cons show ?thesis by simp
  next
    case (Some chunk)
    then have b: "start < b" "b \<le> length src" "is_char_boundary src b"
      "chunk = take (b - start) (drop start src)"
      by (auto simp: get_range_def split: if_splits)
    have "take start src @ take (b - start) (drop start src) = take b src"
      using b(1) take_add [of start "b - start" src] by simp
    with b Some Cons show ?thesis by simp
  qed
qed auto

lemma concat_cut_rest:
  "concat (cut_rest src (cut_loop src bs 0 [])) = src"
proof -
  obtain chunks start where c: "cut_loop src bs 0 [] = (chunks, start)"
      "concat chunks = take start src" "start \<le> length src" "is_char_boundary src start"
    using cut_loop_prefix [of "[]" 0 src bs] by (auto simp: is_char_boundary_def)
  then show ?thesis by (auto simp: cut_rest_def get_from_def split: if_splits)
qed

section \<open>Properties\<close>

text \<open>C20: decomposition drops no command. When a script decomposes, its tree has no error, every
  node of it is of an allowed kind, and the commands returned are, in source order, the readings
  of all command nodes of the tree, nested ones included, each read whole.\<close>

theorem word_only_decomposition_complete:
  assumes "try_parse_word_only_commands_sequence root src = Some cmds"
  shows "\<not> has_error root \<and> (\<forall>n\<in>set (nodes root). node_allowed n) \<and>
    (\<exists>ns. mset ns = mset (filter is_command_node (nodes root)) \<and> sorted (map start_byte ns) \<and>
       list_all2 (\<lambda>n c. parse_plain_command_from_node n src = Some c) ns cmds)"
proof -
  from assms obtain cs where noerr: "\<not> has_error root" and walk: "word_only_walk [root] [] = Some cs"
      and collected: "collect_commands (sort_key start_byte cs) src = Some cmds"
    by (auto simp: try_parse_word_only_commands_sequence_def split: if_splits option.splits)
  have "list_all node_allowed (nodes root)"
    using word_only_walk_None [of "[root]" "[]"] walk by simp
  moreover have "mset (sort_key start_byte cs) = mset (filter is_command_node (nodes root))"
    using word_only_walk_commands [OF walk] by simp
  moreover have "sorted (map start_byte (sort_key start_byte cs))" by (rule sorted_sort_key)
  ultimately show ?thesis
    using noerr collected unfolding list_all_iff collect_commands_eq by blast
qed

text \<open>The tree of \<open>ls | wc\<close>.\<close>

definition word_leaf :: "nat \<Rightarrow> nat \<Rightarrow> node" where
  "word_leaf s e = Node ''word'' True False s e None []"

definition simple_command :: "nat \<Rightarrow> nat \<Rightarrow> node" where
  "simple_command s e =
     Node ''command'' True False s e None [Node ''command_name'' True False s e (Some ''name'') [word_leaf s e]]"

definition ls_wc_tree :: node where
  "ls_wc_tree =
     Node ''program'' True False 0 7 None
       [Node ''pipeline'' True False 0 7 None
          [simple_command 0 2, Node ''|'' False False 3 4 None [], simple_command 5 7]]"

theorem word_only_decomposition_complete_witness:
  "try_parse_word_only_commands_sequence ls_wc_tree ''ls | wc'' =
     Some [\<lparr>words = [''ls''], span_start = 0, span_end = 2\<rparr>,
           \<lparr>words = [''wc''], span_start = 5, span_end = 7\<rparr>] \<and>
   list_all node_allowed (nodes ls_wc_tree)"
proof
  show *: "try_parse_word_only_commands_sequence ls_wc_tree ''ls | wc'' =
     Some [\<lparr>words = [''ls''], span_start = 0, span_end = 2\<rparr>,
           \<lparr>words = [''wc''], span_start = 5, span_end = 7\<rparr>]"
    by code_simp
  show "list_all node_allowed (nodes ls_wc_tree)"
    using word_only_decomposition_complete [OF *] unfolding list_all_iff by blast
qed

text \<open>What the permission prompt shows as the command is what a grant would match. The
  highlighted words are the fully unwrapped words of one of the script's commands and name no
  set-up command; the wrapper words that were peeled off are kept at the end of the prefix, so that
  prefix and highlight together still spell the command.\<close>

theorem primary_command_is_unwrapped:
  assumes "primary_command_from_script parse script = Some h"
  shows "\<exists>cmds c peeled. all_commands_from_script parse script = Some cmds \<and> c \<in> set cmds \<and>
    highlighted_words h = unwrap_wrappers (words c) \<and> highlighted_words h \<noteq> [] \<and>
    \<not> is_setup_command (highlighted_words h) \<and>
    words c = peeled @ highlighted_words h \<and> suffix peeled (hl_prefix h)"
proof -
  from assms obtain cmds c k ws pre where
      cmds: "all_commands_from_script parse script = Some cmds"
      and prim: "find_primary cmds = Some (c, k, ws)"
      and h: "highlighted_words h = ws" "hl_prefix h = pre @ take k (words c)"
    by (auto simp: primary_command_from_script_def bind_eq_Some_conv)
  have "suffix (take k (words c)) (hl_prefix h)" by (simp add: h suffix_def)
  with find_primary_SomeD [OF prim] cmds show ?thesis unfolding h(1) by blast
qed

theorem primary_command_is_unwrapped_witness:
  "\<exists>cmds c peeled. all_commands_from_script (\<lambda>_. Some ls_wc_tree) ''ls | wc'' = Some cmds \<and> c \<in> set cmds \<and>
    [''ls''] = unwrap_wrappers (words c) \<and> words c = peeled @ [''ls'']"
proof -
  have "primary_command_from_script (\<lambda>_. Some ls_wc_tree) ''ls | wc'' =
      Some \<lparr>hl_prefix = [], highlighted_words = [''ls''], hl_suffix = [''|'', ''wc'']\<rparr>"
    by code_simp
  from primary_command_is_unwrapped [OF this] show ?thesis
    unfolding bash_command_highlights.simps by blast
qed

text \<open>Soft breaks only move line ends. Whatever tree the parser returns, joining the chunks of
  a script gives the script back, and so does joining the pieces of a physical line for any break
  offsets; the offsets are strictly increasing positions between characters of the script.\<close>

theorem soft_breaks_keep_the_text:
  "concat (soft_break_chunks parse script) = script \<and>
   concat (split_physical_line_at_soft_breaks line line_start breaks) = line \<and>
   sorted_wrt (<) (soft_break_offsets_after_operators parse script) \<and>
   list_all (usable_break script) (soft_break_offsets_after_operators parse script)"
proof -
  have "sorted_wrt (<) (remdups_adj (sort xs))" for xs :: "nat list"
    by (rule strict_remdups_adj) simp
  moreover have "list_all (usable_break script) (remdups_adj (sort (soft_break_walk script [root] [])))" for root
    using soft_break_walk_usable [of script "[]" "[root]"] by (simp add: list_all_iff)
  ultimately show ?thesis
    using concat_cut_rest
    by (auto simp: soft_break_chunks_def split_physical_line_at_soft_breaks_def Let_def
        soft_break_offsets_after_operators_def split: option.splits)
qed

end
