(* ===== verification/Perm_Script.thy ===== *)
theory Perm_Script
  imports Bash_Tree Machines
begin

text \<open>
  Recovered scripts (\<open>bash_permission_script.rs\<close>, \<open>env_risk.rs\<close> and the literal decoding of
  \<open>shell_access.rs\<close>): when a script does not decompose into plain words because an argument
  expands at run time, \<open>PermissionScript::analyze\<close> recovers its commands with the unknown arguments
  kept as spelled, and decides whether the script is so simple that allow rules may still cover it.
  The lemmas show what an eligible script can contain.
\<close>

section \<open>Risk of environment variables\<close>

definition SAFE_ENV_KEYS :: "string list" where
  "SAFE_ENV_KEYS =
     [''CARGO_TERM_COLOR'', ''CARGO_TERM_PROGRESS_WHEN'', ''RUST_LOG'', ''RUST_LOG_STYLE'',
      ''RUST_BACKTRACE'', ''RUST_TEST_THREADS'', ''RUST_MIN_STACK'', ''NO_COLOR'', ''CLICOLOR'',
      ''CLICOLOR_FORCE'', ''FORCE_COLOR'', ''COLORTERM'']"

datatype env_risk = Safe | Unvetted | Injection

definition INJECTION_ENV_KEYS :: "string list" where
  "INJECTION_ENV_KEYS =
     [''LD_PRELOAD'', ''LD_AUDIT'', ''BASH_ENV'', ''ENV'', ''IFS'', ''PATH'', ''GIT_EXTERNAL_DIFF'',
      ''GIT_PROXY_COMMAND'', ''PROMPT_COMMAND'']"

definition INJECTION_ENV_KEY_PREFIXES :: "string list" where
  "INJECTION_ENV_KEY_PREFIXES = [''DYLD_'', ''GIT_CONFIG'']"

definition is_safe_env_key :: "string \<Rightarrow> bool" where
  "is_safe_env_key key = (key \<in> set SAFE_ENV_KEYS)"

definition env_key_risk :: "string \<Rightarrow> env_risk" where
  "env_key_risk key =
     (if is_safe_env_key key then Safe
      else if key \<in> set INJECTION_ENV_KEYS \<or> list_ex (starts_with key) INJECTION_ENV_KEY_PREFIXES
        then Injection
      else Unvetted)"

section \<open>Arguments of a command node\<close>

datatype arg_text = ArgLiteral string | Ambiguous

definition EXPANSION_KINDS :: "string list" where
  "EXPANSION_KINDS =
     [''expansion'', ''simple_expansion'', ''command_substitution'', ''arithmetic_expansion'',
      ''process_substitution'']"

text \<open>\<open>node_has_expansion\<close>: a stack walk that looks at the children of every node it pops.\<close>

function expansion_walk :: "node list \<Rightarrow> bool" where
  "expansion_walk [] = False"
| "expansion_walk (n # stack) =
     (if list_ex (\<lambda>c. kind c \<in> set EXPANSION_KINDS) (children n) then True
      else expansion_walk (rev (children n) @ stack))"
  by pat_completeness auto
termination
  by (relation "measure stack_size") auto

definition node_has_expansion :: "node \<Rightarrow> bool" where
  "node_has_expansion n = expansion_walk [n]"

definition is_windows_path_like :: "string \<Rightarrow> bool" where
  "is_windows_path_like raw =
     (starts_with raw [backslash, backslash] \<or>
      (case raw of a # b # _ \<Rightarrow> is_ascii_alphabetic a \<and> b = CHR '':'' | _ \<Rightarrow> False))"

fun fold_backslashes :: "string \<Rightarrow> string option" where
  "fold_backslashes [] = Some []"
| "fold_backslashes (ch # chars) =
     (if ch = backslash then
        (case chars of [] \<Rightarrow> None | n # chars' \<Rightarrow> map_option (Cons n) (fold_backslashes chars'))
      else map_option (Cons ch) (fold_backslashes chars))"

definition decode_unquoted_word :: "string \<Rightarrow> string option" where
  "decode_unquoted_word raw =
     (if backslash \<notin> set raw \<or> is_windows_path_like raw then Some raw else fold_backslashes raw)"

fun fold_double_quoted :: "string \<Rightarrow> string option" where
  "fold_double_quoted [] = Some []"
| "fold_double_quoted (ch # chars) =
     (if ch \<noteq> backslash then map_option (Cons ch) (fold_double_quoted chars)
      else case chars of
        [] \<Rightarrow> None
      | n # chars' \<Rightarrow>
          map_option (\<lambda>out. if shell_escapable n then n # out else backslash # n # out)
            (fold_double_quoted chars'))"

definition decode_double_quoted_content :: "string \<Rightarrow> string option" where
  "decode_double_quoted_content content =
     (if backslash \<notin> set content then Some content else fold_double_quoted content)"

definition unquote :: "string \<Rightarrow> char \<Rightarrow> string" where
  "unquote raw q =
     (case Option.bind (strip_prefix raw [q]) (\<lambda>s. strip_suffix s [q]) of Some s \<Rightarrow> s | None \<Rightarrow> raw)"

definition literal_or_ambiguous :: "string option \<Rightarrow> arg_text option" where
  "literal_or_ambiguous r = Some (case r of Some literal \<Rightarrow> ArgLiteral literal | None \<Rightarrow> Ambiguous)"

definition shell_node_arg :: "node \<Rightarrow> string \<Rightarrow> arg_text option" where
  "shell_node_arg n src =
     (if kind n = ''variable_assignment'' then None
      else if kind n = ''word'' \<or> kind n = ''number'' then
        literal_or_ambiguous (Option.bind (node_text src n) decode_unquoted_word)
      else if kind n = ''raw_string'' then
        map_option (\<lambda>raw. ArgLiteral (unquote raw single_quote)) (node_text src n)
      else if kind n = ''string'' then
        (if node_has_expansion n then Some Ambiguous
         else Option.bind (node_text src n) (\<lambda>raw.
                literal_or_ambiguous (decode_double_quoted_content (unquote raw double_quote))))
      else if kind n = ''concatenation'' then
        (if node_has_expansion n then Some Ambiguous
         else literal_or_ambiguous (Option.bind (node_text src n) decode_shell_literal_spelling))
      else Some Ambiguous)"

section \<open>Recovered scripts\<close>

definition WITNESS_DENIED_KEYS :: "string list" where
  "WITNESS_DENIED_KEYS =
     [''RIPGREP_CONFIG_PATH'', ''GCONV_PATH'', ''GETCONF_DIR'', ''GLIBC_TUNABLES'', ''HOSTALIASES'',
      ''LOCALDOMAIN'', ''LOCPATH'', ''MALLOC_TRACE'', ''NIS_PATH'', ''NLSPATH'', ''RESOLV_HOST_CONF'',
      ''RES_OPTIONS'', ''TZDIR'']"

definition WITNESS_DENIED_KEY_PREFIXES :: "string list" where
  "WITNESS_DENIED_KEY_PREFIXES = [''LD_'']"

datatype permission_word = Literal string | UnresolvedArgument string

record permission_script =
  commands :: "permission_word list list"
  complete :: bool
  eligible :: bool
  unresolved :: bool

record script_state = permission_script +
  assigned :: "string set"
  used :: "string set"

definition is_path_prefix :: "string \<Rightarrow> bool" where
  "is_path_prefix value = (starts_with value ''/'' \<or> starts_with value ''./'')"

definition is_variable_name :: "string \<Rightarrow> bool" where
  "is_variable_name v =
     (case v of
        [] \<Rightarrow> False
      | b # rest \<Rightarrow>
          (b = CHR ''_'' \<or> is_ascii_alphabetic b) \<and>
          list_all (\<lambda>c. c = CHR ''_'' \<or> is_ascii_alphabetic c \<or> is_ascii_digit c) rest)"

definition expansion_variable :: "string \<Rightarrow> string option" where
  "expansion_variable src =
     (case Option.bind (strip_prefix src ''${'') (\<lambda>s. strip_suffix s ''}'') of
        Some v \<Rightarrow> Some v
      | None \<Rightarrow> strip_prefix src ''$'')"

text \<open>The loop of \<open>quoted_filename\<close> over the named children of the string.\<close>

definition quoted_child :: "string \<Rightarrow> string option \<Rightarrow> node \<Rightarrow> string option option" where
  "quoted_child src name child =
     (if kind child = ''string_content'' then Some name
      else if \<not> (kind child = ''simple_expansion'' \<or> kind child = ''expansion'') \<or> name \<noteq> None then None
      else Option.bind (node_text src child) (\<lambda>t.
           Option.bind (expansion_variable t) (\<lambda>v.
             if is_variable_name v then Some (Some v) else None)))"

definition quoted_filename :: "node \<Rightarrow> string \<Rightarrow> string set \<Rightarrow> (string \<times> bool) option" where
  "quoted_filename n src assigned_names =
     (if kind n \<noteq> ''string'' then None
      else Option.bind (fold_opt (quoted_child src) None (named_children n)) (\<lambda>found.
           Option.bind found (\<lambda>name.
           Option.bind (node_text src n) (\<lambda>raw.
           Option.bind (strip_prefix raw [double_quote]) (\<lambda>content.
             Some (name, is_path_prefix content \<or>
                         (starts_with content ''$'' \<and> name \<in> assigned_names)))))))"

text \<open>\<open>readers_allow\<close>: the loop over the arguments with the flags \<open>boundary\<close> (a \<open>--\<close> was seen),
  \<open>pattern\<close> (ripgrep's pattern was seen) and \<open>value\<close> (an option value is due). \<open>None\<close> is the early
  return of \<open>false\<close>.\<close>

type_synonym reader_flags = "bool \<times> bool \<times> bool"

definition all_digits :: "string \<Rightarrow> bool" where
  "all_digits s = (s \<noteq> [] \<and> list_all is_ascii_digit s)"

definition reader_option :: "string \<Rightarrow> string \<Rightarrow> bool \<times> bool" where
  "reader_option head arg =
     (if head = ''ls'' then
        (drop 1 arg \<noteq> [] \<and> list_all (\<lambda>c. c \<in> set ''alhdFRtSr1'') (drop 1 arg), False)
      else if head = ''rg'' then (arg = ''-n'' \<or> arg = ''-v'', False)
      else if head = ''head'' \<or> head = ''tail'' then
        (let v = (arg = ''-n'' \<or> arg = ''-c'') in (v \<or> all_digits (drop 1 arg), v))
      else if head = ''echo'' then (arg = ''-n'' \<or> arg = ''-e'' \<or> arg = ''-E'', False)
      else (False, False))"

definition reader_step :: "string \<Rightarrow> reader_flags \<Rightarrow> permission_word \<times> bool \<Rightarrow> reader_flags option" where
  "reader_step head flags arg =
     (case (flags, arg) of ((boundary, pat, val), (word, safe)) \<Rightarrow>
        (case word of
           UnresolvedArgument _ \<Rightarrow>
             if val \<or> \<not> pat \<or> \<not> (head = ''ls'' \<or> head = ''rg'') \<or> (\<not> boundary \<and> \<not> safe)
             then None else Some flags
         | Literal a \<Rightarrow>
             if val then (if all_digits a then Some (boundary, pat, False) else None)
             else if \<not> boundary \<and> a = ''--'' then Some (True, pat, val)
             else if \<not> boundary \<and> starts_with a ''-'' \<and> a \<noteq> ''-'' then
               (case reader_option head a of (ok, v) \<Rightarrow> if ok then Some (boundary, pat, v) else None)
             else Some (boundary, True, val)))"

definition READER_HEADS :: "string list" where
  "READER_HEADS = [''ls'', ''rg'', ''echo'', ''head'', ''tail'']"

definition readers_allow :: "permission_word list \<Rightarrow> bool list \<Rightarrow> bool" where
  "readers_allow ws safe =
     (case ws of
        Literal head # _ \<Rightarrow>
          if head \<notin> set READER_HEADS then False
          else (case fold_opt (reader_step head) (False, head \<noteq> ''rg'', False) (drop 1 (zip ws safe)) of
                  None \<Rightarrow> False
                | Some (_, pat, val) \<Rightarrow> pat \<and> \<not> val)
      | _ \<Rightarrow> False)"

subsection \<open>The analysis\<close>

definition MAX_NODES :: nat where
  "MAX_NODES = 4096"

definition STATEMENT_KINDS :: "string list" where
  "STATEMENT_KINDS = [''command'', ''variable_assignment'']"

definition KNOWN_KINDS :: "string list" where
  "KNOWN_KINDS =
     [''program'', ''pipeline'', ''list'', ''command_name'', ''word'', ''number'', ''raw_string'', ''string'',
      ''string_content'', ''concatenation'', ''variable_name'', ''simple_expansion'', ''expansion'',
      ''comment'', '';'', ''&&'', ''||'', ''|'', [double_quote], ''='', ''$'', ''${'', ''}'']"

text \<open>The bounded walk; a pending node is kept with the kind of its parent. The result is the
  statements found, whether only known kinds were met, and what is still pending.\<close>

type_synonym pending = "(string option \<times> node) list"

fun statement_walk :: "nat \<Rightarrow> pending \<Rightarrow> pending \<Rightarrow> bool \<Rightarrow> pending \<times> bool \<times> pending" where
  "statement_walk fuel [] statements known = (statements, known, [])"
| "statement_walk fuel ((p, n) # pend) statements known =
     (if fuel = 0 then (statements, known, (p, n) # pend)
      else statement_walk (fuel - 1) (rev (map (Pair (Some (kind n))) (children n)) @ pend)
             (if kind n \<in> set STATEMENT_KINDS then statements @ [(p, n)] else statements)
             (known \<and> (kind n \<in> set STATEMENT_KINDS \<or> kind n \<in> set KNOWN_KINDS)))"

definition child_by_field_name :: "node \<Rightarrow> string \<Rightarrow> node option" where
  "child_by_field_name n f = find (\<lambda>c. field_name c = Some f) (children n)"

definition vetted_key :: "string \<Rightarrow> bool" where
  "vetted_key name =
     (name \<notin> set WITNESS_DENIED_KEYS \<and> \<not> list_ex (starts_with name) WITNESS_DENIED_KEY_PREFIXES \<and>
      env_key_risk name \<noteq> Injection)"

definition literal_path :: "arg_text option \<Rightarrow> bool" where
  "literal_path value = (case value of Some (ArgLiteral v) \<Rightarrow> is_path_prefix v | _ \<Rightarrow> False)"

text \<open>A \<open>variable_assignment\<close> statement. The name is recorded as assigned only when every other
  condition holds, as the code's short-circuit does.\<close>

definition assignment_step :: "string \<Rightarrow> script_state \<Rightarrow> string option \<times> node \<Rightarrow> script_state" where
  "assignment_step src st pn =
     (let n = snd pn;
          name = Option.bind (child_by_field_name n ''name'') (node_text src);
          value = Option.bind (child_by_field_name n ''value'') (\<lambda>v. shell_node_arg v src);
          before = (commands st = [] \<and> fst pn = Some ''program'' \<and> literal_path value)
      in case name of
           Some nm \<Rightarrow>
             if before \<and> vetted_key nm
             then st\<lparr>eligible := eligible st \<and> nm \<notin> assigned st, assigned := insert nm (assigned st)\<rparr>
             else st\<lparr>eligible := False\<rparr>
         | None \<Rightarrow> st\<lparr>eligible := False\<rparr>)"

type_synonym command_acc = "script_state \<times> permission_word list \<times> bool list"

definition has_glob_char :: "string \<Rightarrow> bool" where
  "has_glob_char s = list_ex (\<lambda>c. c = CHR ''*'' \<or> c = CHR ''?'' \<or> c = CHR ''['' \<or> c = CHR ''~'') s"

definition literal_argument :: "string \<Rightarrow> command_acc \<Rightarrow> node \<Rightarrow> string \<Rightarrow> command_acc" where
  "literal_argument src acc word v =
     (case acc of (st, ws, safe) \<Rightarrow>
        (if (kind word = ''word'' \<or> kind word = ''concatenation'') \<and>
            (case node_text src word of Some t \<Rightarrow> has_glob_char t | None \<Rightarrow> False)
         then st\<lparr>eligible := False\<rparr> else st,
         ws @ [Literal v], safe @ [True]))"

definition ambiguous_argument :: "string \<Rightarrow> command_acc \<Rightarrow> node \<Rightarrow> command_acc" where
  "ambiguous_argument src acc word =
     (case acc of (st, ws, safe) \<Rightarrow>
        (case node_text src word of
           None \<Rightarrow> (st\<lparr>complete := False\<rparr>, ws, safe)
         | Some spelling \<Rightarrow>
             (case quoted_filename word src (assigned st) of
                None \<Rightarrow> (st\<lparr>unresolved := True, complete := False\<rparr>,
                         ws @ [UnresolvedArgument spelling], safe @ [False])
              | Some (name, ok) \<Rightarrow>
                  (st\<lparr>unresolved := True,
                      used := (if name \<in> assigned st then insert name (used st) else used st)\<rparr>,
                   ws @ [UnresolvedArgument spelling], safe @ [ok]))))"

definition command_child :: "string \<Rightarrow> command_acc \<Rightarrow> node \<Rightarrow> command_acc" where
  "command_child src acc child =
     (case acc of (st, ws, safe) \<Rightarrow>
        if kind child = ''variable_assignment'' then (st\<lparr>eligible := False\<rparr>, ws, safe)
        else (case (if kind child \<noteq> ''command_name'' then Some child
                    else nth_opt (named_children child) 0) of
                None \<Rightarrow> (st\<lparr>complete := False\<rparr>, ws, safe)
              | Some word \<Rightarrow>
                  (case shell_node_arg word src of
                     Some (ArgLiteral v) \<Rightarrow> literal_argument src acc word v
                   | Some Ambiguous \<Rightarrow> ambiguous_argument src acc word
                   | None \<Rightarrow> (st\<lparr>eligible := False\<rparr>, ws, safe))))"

definition first_is_literal :: "permission_word list \<Rightarrow> bool" where
  "first_is_literal ws = (case ws of Literal _ # _ \<Rightarrow> True | _ \<Rightarrow> False)"

definition command_step :: "string \<Rightarrow> script_state \<Rightarrow> node \<Rightarrow> script_state" where
  "command_step src st n =
     (case foldl (command_child src) (st, [], []) (named_children n) of (st', ws, safe) \<Rightarrow>
        st'\<lparr>eligible := eligible st' \<and> readers_allow ws safe,
            complete := complete st' \<and> first_is_literal ws,
            commands := commands st' @ [ws]\<rparr>)"

definition statement_step :: "string \<Rightarrow> script_state \<Rightarrow> string option \<times> node \<Rightarrow> script_state" where
  "statement_step src st pn =
     (if kind (snd pn) = ''variable_assignment'' then assignment_step src st pn
      else command_step src st (snd pn))"

definition analyze_state :: "node \<Rightarrow> string \<Rightarrow> script_state" where
  "analyze_state root src =
     (case statement_walk MAX_NODES [(None, root)] [] (\<not> has_error root) of (statements, known, pend) \<Rightarrow>
        foldl (statement_step src)
          \<lparr>commands = [], complete = known \<and> pend = [], eligible = True, unresolved = False,
           assigned = {}, used = {}\<rparr>
          (sort_key (\<lambda>pn. start_byte (snd pn)) statements))"

definition analyze :: "node \<Rightarrow> string \<Rightarrow> permission_script" where
  "analyze root src =
     (let st = analyze_state root src
      in \<lparr>commands = commands st, complete = complete st,
          eligible = eligible st \<and> complete st \<and> unresolved st \<and> commands st \<noteq> [] \<and>
                     assigned st \<subseteq> used st,
          unresolved = unresolved st\<rparr>)"

definition is_eligible :: "permission_script \<Rightarrow> bool" where
  "is_eligible script = eligible script"

definition has_unresolved :: "permission_script \<Rightarrow> bool" where
  "has_unresolved script = (complete script \<and> unresolved script)"

definition word_spelling :: "permission_word \<Rightarrow> string" where
  "word_spelling w = (case w of Literal v \<Rightarrow> v | UnresolvedArgument v \<Rightarrow> v)"

definition projections :: "permission_script \<Rightarrow> string list list" where
  "projections script = map (map word_spelling) (filter first_is_literal (commands script))"

section \<open>What an eligible script contains\<close>

definition is_statement :: "node \<Rightarrow> bool" where
  "is_statement n = (kind n \<in> set STATEMENT_KINDS)"

lemma statement_walk_known:
  "statement_walk fuel pend sts known = (sts', True, []) \<Longrightarrow>
   known \<and> (\<forall>n\<in>set (all_nodes (map snd pend)). is_statement n \<or> kind n \<in> set KNOWN_KINDS)"
proof (induction fuel pend sts known rule: statement_walk.induct)
  case (2 fuel p n pend sts known)
  then show ?case
    by (auto simp: nodes_eq [of n] comp_def is_statement_def split: if_splits)
qed simp

lemma statement_walk_statements:
  "statement_walk fuel pend sts known = (sts', known', []) \<Longrightarrow>
   mset (map snd sts') = mset (map snd sts) + mset (filter is_statement (all_nodes (map snd pend)))"
proof (induction fuel pend sts known rule: statement_walk.induct)
  case (2 fuel p n pend sts known)
  have "mset (filter is_statement (all_nodes (rev (children n)))) =
      mset (filter is_statement (all_nodes (children n)))"
    using mset_all_nodes_rev [of "children n"] by (metis mset_filter)
  with 2 show ?case
    by (auto simp: nodes_eq [of n] comp_def is_statement_def rev_map split: if_splits)
qed simp

definition reader_command :: "permission_word list \<Rightarrow> bool" where
  "reader_command ws =
     (\<exists>h rest. ws = Literal h # rest \<and> h \<in> set READER_HEADS \<and>
        ((\<exists>a. UnresolvedArgument a \<in> set rest) \<longrightarrow> h = ''ls'' \<or> h = ''rg''))"

lemma fold_opt_each: "fold_opt f acc xs \<noteq> None \<Longrightarrow> x \<in> set xs \<Longrightarrow> \<exists>a. f a x \<noteq> None"
  by (induction xs arbitrary: acc) (auto split: option.splits)

lemma readers_allow_reader:
  assumes "readers_allow ws safe" and "length safe = length ws"
  shows "reader_command ws"
proof -
  from assms(1) obtain h rest where ws: "ws = Literal h # rest" and h: "h \<in> set READER_HEADS"
      and fold: "fold_opt (reader_step h) (False, h \<noteq> ''rg'', False) (drop 1 (zip ws safe)) \<noteq> None"
    by (auto simp: readers_allow_def split: list.splits permission_word.splits if_splits option.splits)
  have "h = ''ls'' \<or> h = ''rg''" if un: "UnresolvedArgument a \<in> set rest" for a
  proof -
    obtain s0 safe' where safe: "safe = s0 # safe'" using assms(2) ws by (cases safe) auto
    with un assms(2) ws obtain s where "(UnresolvedArgument a, s) \<in> set (zip rest safe')"
      by (metis length_Cons in_set_impl_in_set_zip1 nat.inject)
    then have "(UnresolvedArgument a, s) \<in> set (drop 1 (zip ws safe))" by (simp add: ws safe)
    from fold_opt_each [OF fold this] show ?thesis
      by (auto simp: reader_step_def split: if_splits)
  qed
  with ws h show ?thesis by (auto simp: reader_command_def)
qed

text \<open>Reading one argument only lowers the flags and adds one word with its safety mark, or none.\<close>

definition acc_below :: "script_state \<Rightarrow> command_acc \<Rightarrow> bool" where
  "acc_below st acc =
     (case acc of (st', ws, safe) \<Rightarrow>
        commands st' = commands st \<and> assigned st' = assigned st \<and>
        (eligible st' \<longrightarrow> eligible st) \<and> (complete st' \<longrightarrow> complete st) \<and> length safe = length ws)"

lemma acc_below_if: "acc_below st a \<Longrightarrow> acc_below st b \<Longrightarrow> acc_below st (if c then a else b)"
  by simp

lemma acc_below_lower:
  assumes "acc_below st (s, ws, safe)"
  shows "acc_below st (s\<lparr>eligible := False\<rparr>, ws, safe)" and "acc_below st (s\<lparr>complete := False\<rparr>, ws, safe)"
    and "acc_below st (literal_argument src (s, ws, safe) word v)"
    and "acc_below st (ambiguous_argument src (s, ws, safe) word)"
proof -
  show "acc_below st (s\<lparr>eligible := False\<rparr>, ws, safe)" "acc_below st (s\<lparr>complete := False\<rparr>, ws, safe)"
    using assms by (simp_all add: acc_below_def)
  show "acc_below st (literal_argument src (s, ws, safe) word v)"
    using assms unfolding literal_argument_def acc_below_def by simp
  show "acc_below st (ambiguous_argument src (s, ws, safe) word)"
    using assms unfolding ambiguous_argument_def
    by (simp add: acc_below_def split: option.split prod.split)
qed

lemma command_child_below: "acc_below st acc \<Longrightarrow> acc_below st (command_child src acc child)"
proof (cases acc)
  case (fields s ws safe)
  assume "acc_below st acc"
  then have below: "acc_below st (s, ws, safe)" by (simp add: fields)
  have word: "acc_below st (case shell_node_arg word src of
        Some (ArgLiteral v) \<Rightarrow> literal_argument src (s, ws, safe) word v
      | Some Ambiguous \<Rightarrow> ambiguous_argument src (s, ws, safe) word
      | None \<Rightarrow> (s\<lparr>eligible := False\<rparr>, ws, safe))" for word
    using acc_below_lower [OF below] by (simp split: option.split arg_text.split)
  show ?thesis
    unfolding command_child_def fields prod.case
    using word acc_below_lower [OF below]
    by (intro acc_below_if) (simp_all split: option.split)
qed

lemma command_children_below:
  "acc_below st acc \<Longrightarrow> acc_below st (foldl (command_child src) acc cs)"
  by (induction cs arbitrary: acc) (simp_all add: command_child_below)

lemma command_step_facts:
  fixes st n src defines "st' \<equiv> command_step src st n"
  shows "\<exists>ws. commands st' = commands st @ [ws] \<and> (eligible st' \<longrightarrow> eligible st \<and> reader_command ws) \<and>
    (complete st' \<longrightarrow> complete st \<and> first_is_literal ws) \<and> assigned st' = assigned st"
proof -
  obtain s ws safe where fold: "foldl (command_child src) (st, [], []) (named_children n) = (s, ws, safe)"
    by (cases "foldl (command_child src) (st, [], []) (named_children n)")
  have "acc_below st (s, ws, safe)"
    using command_children_below [of st "(st, [], [])" src "named_children n"] fold
    by (simp add: acc_below_def)
  with fold readers_allow_reader [of ws safe] show ?thesis
    by (auto simp: st'_def command_step_def acc_below_def)
qed

definition script_inv :: "script_state \<Rightarrow> bool" where
  "script_inv st =
     ((eligible st \<longrightarrow> list_all reader_command (commands st) \<and> (\<forall>nm\<in>assigned st. vetted_key nm)) \<and>
      (complete st \<longrightarrow> list_all first_is_literal (commands st)))"

lemma assignment_step_facts:
  fixes st pn src defines "st' \<equiv> assignment_step src st pn"
  shows "commands st' = commands st \<and> complete st' = complete st \<and> (eligible st' \<longrightarrow> eligible st) \<and>
    (\<forall>nm\<in>assigned st'. nm \<in> assigned st \<or> vetted_key nm)"
  by (auto simp: st'_def assignment_step_def Let_def split: option.splits if_splits)

interpretation script: invariant_machine "statement_step src" script_inv for src :: string
proof
  fix st pn assume inv: "script_inv st"
  show "script_inv (statement_step src st pn)"
  proof (cases "kind (snd pn) = ''variable_assignment''")
    case True
    then show ?thesis
      using inv assignment_step_facts [of src st pn] by (auto simp: statement_step_def script_inv_def)
  next
    case False
    then show ?thesis
      using inv command_step_facts [of src st "snd pn"] by (auto simp: statement_step_def script_inv_def)
  qed
qed

lemma statement_steps_commands:
  "length (commands (foldl (statement_step src) st pns)) =
   length (commands st) + length (filter (\<lambda>pn. kind (snd pn) \<noteq> ''variable_assignment'') pns)"
proof (induction pns arbitrary: st)
  case (Cons pn pns)
  have "length (commands (statement_step src st pn)) =
      length (commands st) + (if kind (snd pn) \<noteq> ''variable_assignment'' then 1 else 0)"
    using assignment_step_facts [of src st pn] command_step_facts [of src st "snd pn"]
    by (auto simp: statement_step_def)
  with Cons show ?case by simp
qed simp

lemma statement_steps_complete:
  "complete (foldl (statement_step src) st pns) \<Longrightarrow> complete st"
proof (induction pns arbitrary: st)
  case (Cons pn pns)
  then have "complete (statement_step src st pn)" by simp
  then show ?case
    using assignment_step_facts [of src st pn] command_step_facts [of src st "snd pn"]
    by (auto simp: statement_step_def split: if_splits)
qed simp

lemma length_filter_sort: "length (filter P (sort_key f xs)) = length (filter P xs)"
  by (metis mset_filter mset_sort size_mset)

lemma analyze_walk:
  obtains sts known pend where
    "statement_walk MAX_NODES [(None, root)] [] (\<not> has_error root) = (sts, known, pend)"
    and "complete (analyze_state root src) \<Longrightarrow> known \<and> pend = []"
    and "script_inv (analyze_state root src)"
    and "length (commands (analyze_state root src)) =
      length (filter (\<lambda>n. kind n \<noteq> ''variable_assignment'') (map snd sts))"
proof -
  obtain sts known pend where
      walk: "statement_walk MAX_NODES [(None, root)] [] (\<not> has_error root) = (sts, known, pend)"
    by (cases "statement_walk MAX_NODES [(None, root)] [] (\<not> has_error root)")
  let ?st = "\<lparr>commands = [], complete = known \<and> pend = [], eligible = True, unresolved = False,
      assigned = {}, used = {}\<rparr>"
  let ?sorted = "sort_key (\<lambda>pn. start_byte (snd pn)) sts"
  have state: "analyze_state root src = foldl (statement_step src) ?st ?sorted"
    unfolding analyze_state_def walk prod.case ..
  have "length (filter (\<lambda>pn. kind (snd pn) \<noteq> ''variable_assignment'') ?sorted) =
      length (filter (\<lambda>n. kind n \<noteq> ''variable_assignment'') (map snd sts))"
    by (simp add: length_filter_sort filter_map comp_def)
  then have "length (commands (analyze_state root src)) =
      length (filter (\<lambda>n. kind n \<noteq> ''variable_assignment'') (map snd sts))"
    unfolding state statement_steps_commands by simp
  moreover have "script_inv (analyze_state root src)"
    unfolding state by (rule script.run_inv) (simp add: script_inv_def)
  moreover have "complete (analyze_state root src) \<Longrightarrow> known \<and> pend = []"
    unfolding state by (drule statement_steps_complete) simp
  ultimately show thesis using that walk by blast
qed

section \<open>Assignments\<close>

text \<open>An assignment of a script that may be approved: its name is not a variable that steers programs, its value is the
  literal text of a path prefix.\<close>

definition assigned_name :: "string \<Rightarrow> node \<Rightarrow> string option" where
  "assigned_name src n = Option.bind (child_by_field_name n ''name'') (node_text src)"

definition vetted_assignment :: "string \<Rightarrow> node \<Rightarrow> bool" where
  "vetted_assignment src n \<longleftrightarrow>
     (\<exists>nm v. assigned_name src n = Some nm \<and> vetted_key nm \<and>
        Option.bind (child_by_field_name n ''value'') (\<lambda>m. shell_node_arg m src) = Some (ArgLiteral v) \<and> is_path_prefix v)"

text \<open>The node is a quoted word that expands the variable.\<close>

definition expands_variable :: "string \<Rightarrow> string \<Rightarrow> node \<Rightarrow> bool" where
  "expands_variable src nm n \<longleftrightarrow> (\<exists>names ok. quoted_filename n src names = Some (nm, ok))"

lemma assignment_step_vets:
  assumes "eligible (assignment_step src st pn)"
  shows "vetted_assignment src (snd pn) \<and> the (assigned_name src (snd pn)) \<in> assigned (assignment_step src st pn)"
  using assms
  by (auto simp: assignment_step_def vetted_assignment_def assigned_name_def literal_path_def Let_def
      split: option.splits if_splits arg_text.splits)

lemma statement_step_keeps:
  "(eligible (statement_step src st pn) \<longrightarrow> eligible st) \<and> assigned st \<subseteq> assigned (statement_step src st pn)"
proof (cases "kind (snd pn) = ''variable_assignment''")
  case True
  have "assigned st \<subseteq> assigned (assignment_step src st pn)"
    by (auto simp: assignment_step_def Let_def split: option.split)
  then show ?thesis using True assignment_step_facts [of src st pn] by (simp add: statement_step_def)
next
  case False
  then show ?thesis using command_step_facts [of src st "snd pn"] by (auto simp: statement_step_def)
qed

lemma statement_steps_keep:
  "(eligible (foldl (statement_step src) st pns) \<longrightarrow> eligible st) \<and> assigned st \<subseteq> assigned (foldl (statement_step src) st pns)"
proof (induction pns arbitrary: st)
  case (Cons pn pns)
  then show ?case using Cons.IH [of "statement_step src st pn"] statement_step_keeps [of src st pn] by auto
qed simp

lemma statement_steps_vet:
  assumes "eligible (foldl (statement_step src) st pns)" and "pn \<in> set pns" and "kind (snd pn) = ''variable_assignment''"
  shows "vetted_assignment src (snd pn) \<and> the (assigned_name src (snd pn)) \<in> assigned (foldl (statement_step src) st pns)"
  using assms
proof (induction pns arbitrary: st)
  case (Cons p pns)
  let ?st = "statement_step src st p"
  show ?case
  proof (cases "p = pn")
    case True
    then have "?st = assignment_step src st pn" using Cons.prems(3) by (simp add: statement_step_def)
    moreover have "eligible ?st" "assigned ?st \<subseteq> assigned (foldl (statement_step src) ?st pns)"
      using Cons.prems(1) statement_steps_keep [of src ?st pns] by auto
    ultimately show ?thesis using assignment_step_vets [of src st pn] by auto
  next
    case False
    then show ?thesis using Cons.IH [of ?st] Cons.prems by simp
  qed
qed simp

lemma named_in_nodes: "m \<in> set (named_children n) \<Longrightarrow> set (nodes m) \<subseteq> set (nodes n)"
  by (auto simp: nodes_eq [of n] named_children_def)

lemma root_in_nodes: "n \<in> set (nodes n)"
  by (simp add: nodes_eq [of n])

lemma ambiguous_argument_used:
  "used (fst (ambiguous_argument src (st, ws, safe) word)) \<subseteq> used st \<union> {nm. expands_variable src nm word}"
  by (auto simp: ambiguous_argument_def expands_variable_def split: option.splits)

lemma command_child_used:
  "used (fst (command_child src (st, ws, safe) child)) \<subseteq> used st \<union> {nm. \<exists>m\<in>set (nodes child). expands_variable src nm m}"
proof -
  have word: "used (fst (case shell_node_arg word src of
        Some (ArgLiteral v) \<Rightarrow> literal_argument src (st, ws, safe) word v
      | Some Ambiguous \<Rightarrow> ambiguous_argument src (st, ws, safe) word
      | None \<Rightarrow> (st\<lparr>eligible := False\<rparr>, ws, safe))) \<subseteq> used st \<union> {nm. \<exists>m\<in>set (nodes child). expands_variable src nm m}"
    if "word \<in> set (nodes child)" for word
    using ambiguous_argument_used [of src st ws safe word] that
    by (auto simp: literal_argument_def split: option.splits arg_text.splits)
  have first: "w \<in> set (nodes child)" if "nth_opt (named_children child) 0 = Some w" for w
  proof -
    have "w \<in> set (named_children child)" using that by (cases "named_children child") (auto simp: nth_opt_def)
    then show ?thesis using named_in_nodes [of w child] root_in_nodes [of w] by blast
  qed
  show ?thesis
    using word [OF root_in_nodes] word [OF first]
    by (auto simp: command_child_def split: option.split)
qed

lemma command_children_used:
  "used (fst (foldl (command_child src) acc cs)) \<subseteq>
   used (fst acc) \<union> {nm. \<exists>c\<in>set cs. \<exists>m\<in>set (nodes c). expands_variable src nm m}"
proof (induction cs arbitrary: acc)
  case (Cons c cs)
  obtain st ws safe where acc: "acc = (st, ws, safe)" by (cases acc)
  show ?case
    using Cons.IH [of "command_child src acc c"] command_child_used [of src st ws safe c]
    by (auto simp: acc simp del: split_paired_All)
qed simp

lemma statement_step_used:
  "used (statement_step src st pn) \<subseteq> used st \<union> {nm. \<exists>m\<in>set (nodes (snd pn)). expands_variable src nm m}"
proof (cases "kind (snd pn) = ''variable_assignment''")
  case True
  then have "used (statement_step src st pn) = used st"
    by (simp add: statement_step_def assignment_step_def Let_def split: option.split)
  then show ?thesis by simp
next
  case False
  obtain s ws safe where fold: "foldl (command_child src) (st, [], []) (named_children (snd pn)) = (s, ws, safe)"
    by (cases "foldl (command_child src) (st, [], []) (named_children (snd pn))")
  have "used (statement_step src st pn) = used s" using False by (simp add: statement_step_def command_step_def fold)
  moreover have "used s \<subseteq> used st \<union> {nm. \<exists>c\<in>set (named_children (snd pn)). \<exists>m\<in>set (nodes c). expands_variable src nm m}"
    using command_children_used [of src "(st, [], [])" "named_children (snd pn)"] by (simp add: fold)
  ultimately show ?thesis using named_in_nodes [of _ "snd pn"] by blast
qed

lemma statement_steps_used:
  "used (foldl (statement_step src) st pns) \<subseteq>
   used st \<union> {nm. \<exists>pn\<in>set pns. \<exists>m\<in>set (nodes (snd pn)). expands_variable src nm m}"
proof (induction pns arbitrary: st)
  case (Cons pn pns)
  then show ?case using Cons.IH [of "statement_step src st pn"] statement_step_used [of src st pn] by auto
qed simp

lemma nodes_trans: "m \<in> set (nodes n) \<Longrightarrow> set (nodes m) \<subseteq> set (nodes n)"
proof (induction n)
  case (Node a b c d e f cs)
  show ?case
  proof (cases "m = Node a b c d e f cs")
    case False
    then obtain k where k: "k \<in> set cs" "m \<in> set (nodes k)" using Node.prems by (auto simp: nodes_eq [of "Node a b c d e f cs"])
    then have "set (nodes m) \<subseteq> set (nodes k)" using Node.IH by blast
    then show ?thesis using k(1) by (auto simp: nodes_eq [of "Node a b c d e f cs"])
  qed simp
qed

lemma eligible_assignments:
  assumes elig: "eligible (analyze_state root src)" and comp: "complete (analyze_state root src)"
    and all: "assigned (analyze_state root src) \<subseteq> used (analyze_state root src)"
    and n: "n \<in> set (nodes root)" "kind n = ''variable_assignment''"
  shows "vetted_assignment src n \<and> (\<exists>m\<in>set (nodes root). expands_variable src (the (assigned_name src n)) m)"
proof -
  obtain sts known pend where walk: "statement_walk MAX_NODES [(None, root)] [] (\<not> has_error root) = (sts, known, pend)"
    by (cases "statement_walk MAX_NODES [(None, root)] [] (\<not> has_error root)")
  let ?st = "\<lparr>commands = [], complete = known \<and> pend = [], eligible = True, unresolved = False,
      assigned = {}, used = {}\<rparr>"
  let ?sorted = "sort_key (\<lambda>pn. start_byte (snd pn)) sts"
  have state: "analyze_state root src = foldl (statement_step src) ?st ?sorted"
    unfolding analyze_state_def walk prod.case ..
  have "known \<and> pend = []" using statement_steps_complete [of src ?st ?sorted] comp by (simp add: state)
  then have "mset (map snd sts) = mset (filter is_statement (nodes root))"
    using statement_walk_statements [OF walk [unfolded \<open>known \<and> pend = []\<close> [THEN conjunct2]]] by simp
  then have sts: "snd ` set sts = set (filter is_statement (nodes root))" by (metis list.set_map mset_eq_setD)
  have "n \<in> snd ` set sts" using n by (simp add: sts is_statement_def STATEMENT_KINDS_def)
  then obtain pn where pn: "pn \<in> set ?sorted" "snd pn = n" by auto
  have vet: "vetted_assignment src n \<and> the (assigned_name src n) \<in> assigned (analyze_state root src)"
    using statement_steps_vet [of src ?st ?sorted pn] pn n(2) elig by (simp add: state)
  then have "the (assigned_name src n) \<in> used (analyze_state root src)" using all by blast
  then obtain q m where q: "q \<in> set sts" "m \<in> set (nodes (snd q))" "expands_variable src (the (assigned_name src n)) m"
    using statement_steps_used [of src ?st ?sorted] unfolding state by auto
  have "snd q \<in> snd ` set sts" using q(1) by simp
  then have "snd q \<in> set (nodes root)" by (simp add: sts)
  then have "m \<in> set (nodes root)" using nodes_trans q(2) by blast
  then show ?thesis using vet q(3) by blast
qed

section \<open>Properties\<close>


text \<open>The tree of \<open>D=/tmp/; ls "$D/x"\<close>.\<close>

definition ls_tmp_source :: string where
  "ls_tmp_source = ''D=/tmp/; ls '' @ [double_quote] @ ''$D/x'' @ [double_quote]"

definition ls_tmp_assignment :: node where
  "ls_tmp_assignment =
     Node ''variable_assignment'' True False 0 7 None
       [Node ''variable_name'' True False 0 1 (Some ''name'') [], Node ''='' False False 1 2 None [],
        Node ''word'' True False 2 7 (Some ''value'') []]"

definition ls_tmp_tree :: node where
  "ls_tmp_tree =
     Node ''program'' True False 0 18 None
       [ls_tmp_assignment, Node '';'' False False 7 8 None [],
        Node ''command'' True False 9 18 None
          [Node ''command_name'' True False 9 11 (Some ''name'') [word_leaf 9 11],
           Node ''string'' True False 12 18 (Some ''argument'')
             [Node [double_quote] False False 12 13 None [],
              Node ''simple_expansion'' True False 13 15 None
                [Node ''$'' False False 13 14 None [],
                 Node ''variable_name'' True False 14 15 None []],
              Node ''string_content'' True False 15 17 None [],
              Node [double_quote] False False 17 18 None []]]]"


end
