(* ===== verification/Perm_Policy.thy ===== *)
theory Perm_Policy
  imports Perm_Patterns
begin

text \<open>
  The policy evaluator (\<open>policy.rs\<close>, \<open>policy/bash_commands.rs\<close>): deny before ask before allow, per
  access; the conjunctive allow gate and the escalation gate over every command of a Bash script;
  the re-check of symlink targets.

  The recursion into inline \<open>-c\<close> and packed \<open>env -S\<close> scripts is on the budget \<open>MAX_INLINE_SHELL_DEPTH\<close>,
  as in the code; a helper gets the recursive call for the smaller budget as an argument, \<open>None\<close>
  when the budget is used up.
\<close>

section \<open>Compiled policies\<close>

record compiled_policy =
  config :: permission_config
  matchers :: "string option list"
  has_file_restrictions :: bool
  has_bash_command_restrictions :: bool
  has_bash_allow_rules :: bool
  catchall :: "bool list"

definition covers_bash :: "permission_rule \<Rightarrow> bool" where
  "covers_bash rule = (tool rule = tool_filter.Bash \<or> tool rule = Any)"

definition compiled_policy_new :: "policy_env \<Rightarrow> permission_config \<Rightarrow> compiled_policy" where
  "compiled_policy_new env cfg =
     \<lparr>config = cfg,
      matchers = map (compile_matcher env) (rules cfg),
      has_file_restrictions =
        list_ex (\<lambda>r. is_restriction (action r) \<and>
                    (tool r = tool_filter.Read \<or> tool r = tool_filter.Edit \<or> tool r = Any)) (rules cfg),
      has_bash_command_restrictions =
        list_ex (\<lambda>r. is_restriction (action r) \<and> covers_bash r) (rules cfg),
      has_bash_allow_rules =
        list_ex (\<lambda>r. action r = rule_action.Allow \<and> covers_bash r) (rules cfg),
      catchall = map (rule_is_catchall env) (rules cfg)\<rparr>"

section \<open>The allow gate for scripts\<close>

datatype allow_rule_scope = AnyRule | NarrowOnly

definition bash_words_allowed ::
  "policy_env \<Rightarrow> compiled_policy \<Rightarrow> string list \<Rightarrow> allow_rule_scope \<Rightarrow> bool" where
  "bash_words_allowed env p ws scope =
     (if ws = [] then False
      else if scope = NarrowOnly \<and> head_is_exec_vehicle ws then False
      else list_ex (\<lambda>((rule, matcher), wide).
             \<not> (scope = NarrowOnly \<and> wide) \<and> action rule = rule_action.Allow \<and> covers_bash rule \<and>
             bash_allow_pattern_matches env (join '' '' ws) rule matcher)
           (zip (zip (rules (config p)) (matchers p)) (catchall p)))"

definition recovered_commands ::
  "policy_env \<Rightarrow> compiled_policy \<Rightarrow> string \<Rightarrow> allow_rule_scope \<Rightarrow> (string list list \<times> bool) option" where
  "recovered_commands env p cmd scope =
     map_option
       (\<lambda>tree. let script = analyze tree cmd; projs = projections script
               in (projs, is_eligible script \<and> list_all (\<lambda>ws. bash_words_allowed env p ws scope) projs))
       (try_parse_shell env cmd)"

definition segment_allowed ::
  "policy_env \<Rightarrow> compiled_policy \<Rightarrow> allow_rule_scope \<Rightarrow> (string \<Rightarrow> bool) option \<Rightarrow> string list \<Rightarrow> bool" where
  "segment_allowed env p scope inner_allowed ws =
     (let norm = normalize_command_words ws; inner_words = norm_words norm
      in if norm_exhausted norm \<or> norm_ambiguous norm \<or> norm_env_uncertain norm \<or> norm_split_string norm
         then False
         else if \<not> bash_words_allowed env p inner_words scope then False
         else case shell_dash_c_script (map LiteralWord inner_words) of
           InlineLiteral index \<Rightarrow>
             (case inner_allowed of
                None \<Rightarrow> False
              | Some rec \<Rightarrow> (case nth_opt inner_words index of None \<Rightarrow> False | Some inner \<Rightarrow> rec inner))
         | NotInline \<Rightarrow> True
         | _ \<Rightarrow> False)"

definition chain_allowed ::
  "policy_env \<Rightarrow> compiled_policy \<Rightarrow> allow_rule_scope \<Rightarrow> (string \<Rightarrow> bool) option \<Rightarrow> string \<Rightarrow> bool" where
  "chain_allowed env p scope inner_allowed cmd =
     (case all_commands_from_script (try_parse_shell env) cmd of
        None \<Rightarrow> (case recovered_commands env p cmd scope of None \<Rightarrow> False | Some (_, covered) \<Rightarrow> covered)
      | Some segments \<Rightarrow>
          segments \<noteq> [] \<and> list_all (\<lambda>c. segment_allowed env p scope inner_allowed (words c)) segments)"

fun bash_chain_fully_allowed ::
  "policy_env \<Rightarrow> compiled_policy \<Rightarrow> nat \<Rightarrow> allow_rule_scope \<Rightarrow> string \<Rightarrow> bool" where
  "bash_chain_fully_allowed env p 0 scope cmd = chain_allowed env p scope None cmd"
| "bash_chain_fully_allowed env p (Suc depth) scope cmd =
     chain_allowed env p scope (Some (bash_chain_fully_allowed env p depth scope)) cmd"

section \<open>Rule evaluation\<close>

definition tool_label :: "tool_filter \<Rightarrow> string" where
  "tool_label t =
     (case t of
        Any \<Rightarrow> ''any tool'' | tool_filter.Bash \<Rightarrow> ''bash'' | tool_filter.Edit \<Rightarrow> ''edit''
      | tool_filter.Read \<Rightarrow> ''read'' | tool_filter.Grep \<Rightarrow> ''grep'' | Mcp \<Rightarrow> ''mcp''
      | tool_filter.WebFetch \<Rightarrow> ''web_fetch'' | tool_filter.WebSearch \<Rightarrow> ''web_search''
      | tool_filter.AgentMessage \<Rightarrow> ''agent_message'')"

definition deny_reason :: "permission_rule \<Rightarrow> string" where
  "deny_reason rule =
     ''Denied by permission policy: deny rule on '' @ tool_label (tool rule) @
     (case pattern rule of
        Some pat \<Rightarrow> '' matching '' @ [double_quote] @ pat @ [double_quote]
      | None \<Rightarrow> [])"

definition rule_matches ::
  "policy_env \<Rightarrow> access_kind \<Rightarrow> rule_base option \<Rightarrow> permission_rule \<times> string option \<Rightarrow> bool" where
  "rule_matches env access base rm =
     (rule_reaches access (fst rm) \<and> pattern_matches env access (fst rm) (snd rm) base)"

text \<open>The loop over the rules: the rejection of the first matching deny rule, or whether an ask and
  an allow rule matched.\<close>

fun rules_loop ::
  "policy_env \<Rightarrow> access_kind \<Rightarrow> rule_base option \<Rightarrow> (permission_rule \<times> string option) list \<Rightarrow>
   bool \<Rightarrow> bool \<Rightarrow> string + (bool \<times> bool)" where
  "rules_loop env access base [] matched_ask matched_allow = Inr (matched_ask, matched_allow)"
| "rules_loop env access base (rm # rms) matched_ask matched_allow =
     (if \<not> rule_matches env access base rm
        then rules_loop env access base rms matched_ask matched_allow
      else case action (fst rm) of
        rule_action.Deny \<Rightarrow> Inl (deny_reason (fst rm))
      | rule_action.Ask \<Rightarrow> rules_loop env access base rms True matched_allow
      | rule_action.Allow \<Rightarrow> rules_loop env access base rms matched_ask True)"

definition evaluate_rules_with_base ::
  "policy_env \<Rightarrow> compiled_policy \<Rightarrow> access_kind \<Rightarrow> rule_base option \<Rightarrow> decision option" where
  "evaluate_rules_with_base env p access base =
     (case rules_loop env access base (zip (rules (config p)) (matchers p)) False False of
        Inl reason \<Rightarrow> Some (decision.Reject reason)
      | Inr (matched_ask, matched_allow) \<Rightarrow>
          if matched_ask then Some decision.Ask
          else case access of
            access_kind.Bash cmd \<Rightarrow>
              (if has_bash_allow_rules p \<and>
                  bash_chain_fully_allowed env p MAX_INLINE_SHELL_DEPTH AnyRule cmd
               then Some decision.Allow else None)
          | _ \<Rightarrow> (if matched_allow then Some decision.Allow else None))"

definition native_path_restrictions_apply :: "compiled_policy \<Rightarrow> access_kind \<Rightarrow> bool" where
  "native_path_restrictions_apply p access =
     list_ex (\<lambda>r. is_restriction (action r) \<and> tool_filter_matches access (tool r)) (rules (config p))"

definition native_file_path :: "access_kind \<Rightarrow> string option" where
  "native_file_path access =
     (case access of
        access_kind.Edit path \<Rightarrow> Some path
      | access_kind.Read path \<Rightarrow> path
      | access_kind.Grep path _ \<Rightarrow> path
      | _ \<Rightarrow> None)"

text \<open>The last equation stands for the code's \<open>unreachable!\<close>; callers have a native path.\<close>

definition access_with_path :: "access_kind \<Rightarrow> string \<Rightarrow> access_kind" where
  "access_with_path access path =
     (case access of
        access_kind.Edit _ \<Rightarrow> access_kind.Edit path
      | access_kind.Read _ \<Rightarrow> access_kind.Read (Some path)
      | access_kind.Grep _ glob \<Rightarrow> access_kind.Grep (Some path) glob
      | other \<Rightarrow> other)"

definition escalation_only :: "decision option \<Rightarrow> decision option" where
  "escalation_only d =
     (case d of
        Some (decision.Reject r) \<Rightarrow> Some (decision.Reject r)
      | Some decision.Ask \<Rightarrow> Some decision.Ask
      | _ \<Rightarrow> None)"

definition evaluate_with_cwd_details ::
  "policy_env \<Rightarrow> compiled_policy \<Rightarrow> access_kind \<Rightarrow> string option \<Rightarrow> decision option \<times> bool" where
  "evaluate_with_cwd_details env p access cwd =
     (let base = map_option rule_base_new cwd;
          direct = evaluate_rules_with_base env p access base
      in case native_file_path access of
           None \<Rightarrow> (direct, False)
         | Some path \<Rightarrow>
             (case raw_absolute_tool_path path cwd of
                None \<Rightarrow> (direct, False)
              | Some raw_absolute \<Rightarrow>
                  (let lexical_abs = path_match_string (absolute_normalized_path path cwd);
                       follow0 = follow_absolute_symlink (fs env) raw_absolute lexical_abs;
                       follow = (if follow0 = FollowNone \<and> path_has_parent_dir path
                                 then FollowTarget lexical_abs else follow0)
                   in case follow of
                        FollowTarget resolved \<Rightarrow>
                          (combine_decisions direct
                             (escalation_only
                               (evaluate_rules_with_base env p (access_with_path access resolved) base)),
                           False)
                      | Unresolvable \<Rightarrow>
                          if native_path_restrictions_apply p access
                          then (combine_decisions direct (Some decision.Ask), True)
                          else (direct, False)
                      | FollowNone \<Rightarrow> (direct, False))))"

definition evaluate_with_cwd ::
  "policy_env \<Rightarrow> compiled_policy \<Rightarrow> access_kind \<Rightarrow> string option \<Rightarrow> decision option" where
  "evaluate_with_cwd env p access cwd = fst (evaluate_with_cwd_details env p access cwd)"

definition evaluate :: "policy_env \<Rightarrow> compiled_policy \<Rightarrow> access_kind \<Rightarrow> decision option" where
  "evaluate env p access = evaluate_with_cwd env p access None"

definition narrow_allow_authorizes :: "policy_env \<Rightarrow> compiled_policy \<Rightarrow> access_kind \<Rightarrow> bool" where
  "narrow_allow_authorizes env p access =
     (case access of
        access_kind.Bash cmd \<Rightarrow>
          has_bash_allow_rules p \<and> bash_chain_fully_allowed env p MAX_INLINE_SHELL_DEPTH NarrowOnly cmd
      | _ \<Rightarrow> False)"

section \<open>The escalation gate for scripts\<close>

definition escalate :: "policy_env \<Rightarrow> compiled_policy \<Rightarrow> string \<Rightarrow> gate_decision option" where
  "escalate env p segment =
     (case evaluate env p (access_kind.Bash segment) of
        Some (decision.Reject reason) \<Rightarrow> Some (GateReject reason)
      | Some decision.Ask \<Rightarrow> Some AskRuleMatch
      | _ \<Rightarrow> None)"

definition inline_gate ::
  "(string \<Rightarrow> gate_decision option) option \<Rightarrow> string list \<Rightarrow> gate_decision option" where
  "inline_gate inner_gate inner_words =
     (case shell_dash_c_script (map LiteralWord inner_words) of
        InlineLiteral index \<Rightarrow>
          (case inner_gate of
             None \<Rightarrow> Some AskFailClosed
           | Some rec \<Rightarrow>
               (case nth_opt inner_words index of
                  Some inner \<Rightarrow> rec inner | None \<Rightarrow> Some AskFailClosed))
      | NotInline \<Rightarrow> None
      | _ \<Rightarrow> Some AskFailClosed)"

definition packed_gate ::
  "(string \<Rightarrow> gate_decision option) option \<Rightarrow> string list \<Rightarrow> gate_decision option" where
  "packed_gate inner_gate inner_words =
     (case env_split_string_script inner_words of
        None \<Rightarrow> None
      | Some script \<Rightarrow> (case inner_gate of Some rec \<Rightarrow> rec script | None \<Rightarrow> Some AskFailClosed))"

definition command_words_gate ::
  "policy_env \<Rightarrow> compiled_policy \<Rightarrow> (string \<Rightarrow> gate_decision option) option \<Rightarrow> string list \<Rightarrow>
   gate_decision option" where
  "command_words_gate env p inner_gate raw_words =
     (let norm = normalize_command_words raw_words;
          inner_words = norm_words norm;
          d0 = (if norm_exhausted norm \<or> norm_ambiguous norm \<or> norm_env_uncertain norm
                then Some AskFailClosed else None);
          d1 = combine_gate_decisions d0 (if norm_split_string norm then Some AskFailClosed else None);
          forms = raw_words # (if length inner_words \<noteq> length raw_words then [inner_words] else []);
          d2 = foldl (\<lambda>d ws. combine_gate_decisions d (escalate env p (join '' '' ws))) d1 forms;
          d3 = combine_gate_decisions d2 (inline_gate inner_gate inner_words)
      in combine_gate_decisions d3 (packed_gate inner_gate inner_words))"

definition segments_gate ::
  "policy_env \<Rightarrow> compiled_policy \<Rightarrow> (string \<Rightarrow> gate_decision option) option \<Rightarrow> string \<Rightarrow>
   gate_decision option" where
  "segments_gate env p inner_gate cmd =
     (case all_commands_from_script (try_parse_shell env) cmd of
        None \<Rightarrow>
          (case recovered_commands env p cmd AnyRule of
             None \<Rightarrow> Some AskFailClosed
           | Some (projs, covered) \<Rightarrow>
               foldl (\<lambda>d ws. combine_gate_decisions d (command_words_gate env p inner_gate ws))
                 (if \<not> covered then Some AskFailClosed else None) projs)
      | Some segments \<Rightarrow>
          foldl (\<lambda>d c. combine_gate_decisions d (command_words_gate env p inner_gate (words c)))
            None segments)"

fun evaluate_bash_command_segments ::
  "policy_env \<Rightarrow> compiled_policy \<Rightarrow> string \<Rightarrow> nat \<Rightarrow> gate_decision option" where
  "evaluate_bash_command_segments env p cmd 0 = segments_gate env p None cmd"
| "evaluate_bash_command_segments env p cmd (Suc depth) =
     segments_gate env p (Some (\<lambda>inner. evaluate_bash_command_segments env p inner depth)) cmd"

definition evaluate_command_words ::
  "policy_env \<Rightarrow> compiled_policy \<Rightarrow> string list \<Rightarrow> nat \<Rightarrow> gate_decision option" where
  "evaluate_command_words env p raw_words depth =
     command_words_gate env p
       (case depth of
          0 \<Rightarrow> None | Suc d \<Rightarrow> Some (\<lambda>inner. evaluate_bash_command_segments env p inner d)) raw_words"

definition evaluate_bash_command_gate ::
  "policy_env \<Rightarrow> compiled_policy \<Rightarrow> string \<Rightarrow> gate_decision option" where
  "evaluate_bash_command_gate env p cmd =
     (if \<not> has_bash_command_restrictions p then None
      else evaluate_bash_command_segments env p cmd MAX_INLINE_SHELL_DEPTH)"

definition evaluate_bash_command_policy ::
  "policy_env \<Rightarrow> compiled_policy \<Rightarrow> string \<Rightarrow> decision option" where
  "evaluate_bash_command_policy env p cmd =
     map_option into_decision (evaluate_bash_command_gate env p cmd)"

section \<open>Which rules decide\<close>

text \<open>A rule of a configuration matches an access, and some rule with the given action does.\<close>

definition applies :: "policy_env \<Rightarrow> access_kind \<Rightarrow> rule_base option \<Rightarrow> permission_rule \<Rightarrow> bool" where
  "applies env access base r = rule_matches env access base (r, compile_matcher env r)"

definition some_applies ::
  "policy_env \<Rightarrow> permission_config \<Rightarrow> access_kind \<Rightarrow> rule_base option \<Rightarrow> rule_action \<Rightarrow> bool" where
  "some_applies env cfg access base act =
     (\<exists>r\<in>set (rules cfg). action r = act \<and> applies env access base r)"

lemma new_simps [simp]:
  "config (compiled_policy_new env cfg) = cfg"
  "matchers (compiled_policy_new env cfg) = map (compile_matcher env) (rules cfg)"
  "catchall (compiled_policy_new env cfg) = map (rule_is_catchall env) (rules cfg)"
  by (simp_all add: compiled_policy_new_def)

lemma zip_map_self: "zip xs (map f xs) = map (\<lambda>x. (x, f x)) xs"
  by (induction xs) simp_all

lemma rules_loop_deny:
  "(\<exists>r. rules_loop env access base rms a b = Inl r) \<longleftrightarrow>
   (\<exists>rm\<in>set rms. rule_matches env access base rm \<and> action (fst rm) = rule_action.Deny)"
proof (induction rms arbitrary: a b)
  case (Cons rm rms)
  then show ?case by (cases "action (fst rm)") auto
qed simp

lemma rules_loop_flags:
  "rules_loop env access base rms a b = Inr (a', b') \<Longrightarrow>
   a' = (a \<or> (\<exists>rm\<in>set rms. rule_matches env access base rm \<and> action (fst rm) = rule_action.Ask)) \<and>
   b' = (b \<or> (\<exists>rm\<in>set rms. rule_matches env access base rm \<and> action (fst rm) = rule_action.Allow))"
proof (induction rms arbitrary: a b)
  case (Cons rm rms)
  show ?case
  proof (cases "rule_matches env access base rm")
    case True
    with Cons.prems Cons.IH show ?thesis by (cases "action (fst rm)") fastforce+
  next
    case False
    with Cons show ?thesis by simp
  qed
qed simp

abbreviation loop_of :: "policy_env \<Rightarrow> permission_config \<Rightarrow> access_kind \<Rightarrow> rule_base option \<Rightarrow> string + (bool \<times> bool)" where
  "loop_of env cfg access base \<equiv>
     rules_loop env access base (map (\<lambda>r. (r, compile_matcher env r)) (rules cfg)) False False"

lemma loop_of_cases:
  obtains (deny) reason where "loop_of env cfg access base = Inl reason"
      "some_applies env cfg access base rule_action.Deny"
  | (pass) "loop_of env cfg access base =
        Inr (some_applies env cfg access base rule_action.Ask, some_applies env cfg access base rule_action.Allow)"
      "\<not> some_applies env cfg access base rule_action.Deny"
proof (cases "loop_of env cfg access base")
  case (Inl reason)
  moreover have "some_applies env cfg access base rule_action.Deny"
    using rules_loop_deny [of env access base "map (\<lambda>r. (r, compile_matcher env r)) (rules cfg)" False False] Inl
    by (auto simp: some_applies_def applies_def)
  ultimately show thesis by (rule deny)
next
  case (Inr ab)
  obtain a b where ab: "ab = (a, b)" by (cases ab)
  have "\<not> some_applies env cfg access base rule_action.Deny"
    using rules_loop_deny [of env access base "map (\<lambda>r. (r, compile_matcher env r)) (rules cfg)" False False] Inr
    by (auto simp: some_applies_def applies_def)
  moreover have "loop_of env cfg access base =
        Inr (some_applies env cfg access base rule_action.Ask, some_applies env cfg access base rule_action.Allow)"
    using rules_loop_flags [OF Inr [unfolded ab]] Inr ab by (auto simp: some_applies_def applies_def)
  ultimately show thesis using pass by blast
qed

definition bash_command :: "access_kind \<Rightarrow> string option" where
  "bash_command access = (case access of access_kind.Bash cmd \<Rightarrow> Some cmd | _ \<Rightarrow> None)"

text \<open>When allow rules grant an access that no deny and no ask rule matches.\<close>

definition granted :: "policy_env \<Rightarrow> permission_config \<Rightarrow> access_kind \<Rightarrow> rule_base option \<Rightarrow> bool" where
  "granted env cfg access base =
     (case bash_command access of
        Some cmd \<Rightarrow>
          has_bash_allow_rules (compiled_policy_new env cfg) \<and>
          bash_chain_fully_allowed env (compiled_policy_new env cfg) MAX_INLINE_SHELL_DEPTH AnyRule cmd
      | None \<Rightarrow> some_applies env cfg access base rule_action.Allow)"

lemma evaluate_rules_cases:
  "(some_applies env cfg access base rule_action.Deny \<and>
    (\<exists>reason. evaluate_rules_with_base env (compiled_policy_new env cfg) access base = Some (decision.Reject reason))) \<or>
   (\<not> some_applies env cfg access base rule_action.Deny \<and>
    evaluate_rules_with_base env (compiled_policy_new env cfg) access base =
      (if some_applies env cfg access base rule_action.Ask then Some decision.Ask
       else if granted env cfg access base then Some decision.Allow else None))"
proof (cases rule: loop_of_cases [where env = env and cfg = cfg and access = access and base = base])
  case (deny reason)
  then show ?thesis by (simp add: evaluate_rules_with_base_def zip_map_self)
next
  case pass
  then show ?thesis
    by (cases access) (auto simp: evaluate_rules_with_base_def zip_map_self granted_def bash_command_def)
qed

lemma evaluate_bash: "evaluate env p (access_kind.Bash cmd) = evaluate_rules_with_base env p (access_kind.Bash cmd) None"
  by (simp add: evaluate_def evaluate_with_cwd_def evaluate_with_cwd_details_def native_file_path_def)

lemma access_with_path_native:
  "native_file_path access = Some path \<Longrightarrow> native_file_path (access_with_path access q) = Some q"
  by (cases access) (auto simp: native_file_path_def access_with_path_def)

section \<open>More restrictions, stricter decisions\<close>

lemma bash_words_allowed_eq:
  "bash_words_allowed env (compiled_policy_new env cfg) ws scope \<longleftrightarrow>
     ws \<noteq> [] \<and> \<not> (scope = NarrowOnly \<and> head_is_exec_vehicle ws) \<and>
     (\<exists>r\<in>set (rules cfg). \<not> (scope = NarrowOnly \<and> rule_is_catchall env r) \<and>
        action r = rule_action.Allow \<and> covers_bash r \<and>
        bash_allow_pattern_matches env (join '' '' ws) r (compile_matcher env r))"
proof -
  have zip3: "zip (map (\<lambda>r. (r, f r)) rs) (map g rs) = map (\<lambda>r. ((r, f r), g r)) rs" for f g and rs :: "permission_rule list"
    by (induction rs) simp_all
  show ?thesis
    by (auto simp: bash_words_allowed_def zip_map_self zip3 list_ex_iff)
qed

lemma words_allowed_congI:
  assumes "bash_words_allowed env p = bash_words_allowed env q"
  shows "bash_chain_fully_allowed env p d scope cmd = bash_chain_fully_allowed env q d scope cmd"
proof -
  have rec: "recovered_commands env p = recovered_commands env q"
    unfolding recovered_commands_def assms ..
  have seg: "segment_allowed env p = segment_allowed env q"
    unfolding segment_allowed_def assms ..
  have chain: "chain_allowed env p = chain_allowed env q"
    unfolding chain_allowed_def rec seg ..
  have "bash_chain_fully_allowed env p d scope = bash_chain_fully_allowed env q d scope"
    by (induction d) (rule ext, simp add: chain)+
  then show ?thesis by simp
qed

text \<open>The second configuration has all rules of the first, and more deny and ask rules.\<close>

definition restricts :: "permission_config \<Rightarrow> permission_config \<Rightarrow> bool" where
  "restricts c1 c2 =
     (set (rules c1) \<subseteq> set (rules c2) \<and>
      (\<forall>r\<in>set (rules c2). r \<notin> set (rules c1) \<longrightarrow> is_restriction (action r)))"

definition tighter :: "decision option \<Rightarrow> decision option \<Rightarrow> bool" where
  "tighter d1 d2 =
     (rank_of decision_rank d1 \<le> rank_of decision_rank d2 \<and>
      (d2 = Some decision.Allow \<longrightarrow> d1 = Some decision.Allow))"

lemma restricts_allow_rules:
  "restricts c1 c2 \<Longrightarrow>
   (\<exists>r\<in>set (rules c1). action r = rule_action.Allow \<and> P r) \<longleftrightarrow>
   (\<exists>r\<in>set (rules c2). action r = rule_action.Allow \<and> P r)"
  by (auto simp: restricts_def is_restriction_def)

lemma restricts_some:
  assumes "restricts c1 c2"
  shows "some_applies env c1 access base act \<Longrightarrow> some_applies env c2 access base act"
    and "some_applies env c1 access base rule_action.Allow = some_applies env c2 access base rule_action.Allow"
  using assms restricts_allow_rules [OF assms, of "applies env access base"]
  by (auto simp: some_applies_def restricts_def)

lemma restricts_words_allowed:
  assumes "restricts c1 c2"
  shows "bash_words_allowed env (compiled_policy_new env c1) = bash_words_allowed env (compiled_policy_new env c2)"
proof (intro ext)
  fix ws scope
  show "bash_words_allowed env (compiled_policy_new env c1) ws scope =
      bash_words_allowed env (compiled_policy_new env c2) ws scope"
    using restricts_allow_rules [OF assms, of "\<lambda>r. \<not> (scope = NarrowOnly \<and> rule_is_catchall env r) \<and>
        covers_bash r \<and> bash_allow_pattern_matches env (join '' '' ws) r (compile_matcher env r)"]
    by (auto simp: bash_words_allowed_eq)
qed

lemma restricts_granted:
  assumes "restricts c1 c2"
  shows "granted env c1 access base = granted env c2 access base"
proof -
  have "has_bash_allow_rules (compiled_policy_new env c1) = has_bash_allow_rules (compiled_policy_new env c2)"
    using restricts_allow_rules [OF assms, of covers_bash] by (simp add: compiled_policy_new_def list_ex_iff)
  then show ?thesis
    using restricts_some(2) [OF assms] words_allowed_congI [OF restricts_words_allowed [OF assms]]
    by (simp add: granted_def split: option.split)
qed

lemma evaluate_rules_tighter:
  assumes "restricts c1 c2"
  shows "tighter (evaluate_rules_with_base env (compiled_policy_new env c1) access base)
    (evaluate_rules_with_base env (compiled_policy_new env c2) access base)"
proof -
  let ?e = "\<lambda>c. evaluate_rules_with_base env (compiled_policy_new env c) access base"
  note mono = restricts_some(1) [OF assms, of env access base]
  show ?thesis
  proof (cases "some_applies env c2 access base rule_action.Deny")
    case True
    then obtain reason where "?e c2 = Some (decision.Reject reason)"
      using evaluate_rules_cases [of env c2 access base] by blast
    moreover have "rank_of decision_rank (?e c1) \<le> 4"
      using evaluate_rules_cases [of env c1 access base] by auto
    ultimately show ?thesis by (simp add: tighter_def)
  next
    case False
    then have "\<not> some_applies env c1 access base rule_action.Deny" using mono by blast
    with False show ?thesis
      using evaluate_rules_cases [of env c1 access base] evaluate_rules_cases [of env c2 access base]
        mono [of rule_action.Ask] restricts_granted [OF assms, of env access base]
      by (auto simp: tighter_def)
  qed
qed

lemma escalation_tighter:
  assumes "restricts c1 c2"
  shows "rank_of decision_rank (escalation_only (evaluate_rules_with_base env (compiled_policy_new env c1) access base)) \<le>
    rank_of decision_rank (escalation_only (evaluate_rules_with_base env (compiled_policy_new env c2) access base))"
  using evaluate_rules_tighter [OF assms, of env access base]
    evaluate_rules_cases [of env c1 access base] evaluate_rules_cases [of env c2 access base]
  by (auto simp: tighter_def escalation_only_def split: if_splits)

lemma escalation_only_range:
  "escalation_only d = None \<or> escalation_only d = Some decision.Ask \<or> (\<exists>r. escalation_only d = Some (decision.Reject r))"
  by (simp add: escalation_only_def split: option.split decision.split)

lemma combine_tighter:
  assumes "tighter d1 d2" and "rank_of decision_rank x1 \<le> rank_of decision_rank x2"
    and "x2 = None \<or> x2 = Some decision.Ask \<or> (\<exists>r. x2 = Some (decision.Reject r))"
  shows "tighter (combine_decisions d1 x1) (combine_decisions d2 x2)"
proof -
  have "rank_of decision_rank (combine_decisions d1 x1) \<le> rank_of decision_rank (combine_decisions d2 x2)"
    using assms(1,2) by (auto simp: decisions.rank_combine tighter_def)
  moreover have "combine_decisions d1 x1 = Some decision.Allow"
    if allow: "combine_decisions d2 x2 = Some decision.Allow"
  proof -
    have "rank_of decision_rank x2 \<le> 2"
      using allow decisions.rank_combine [of d2 x2] by simp
    then have "x2 = None" using assms(3) by auto
    then have "d2 = Some decision.Allow" "x1 = None"
      using allow assms(2) by (auto simp: decisions.combine_None_right rank_of_def split: option.splits)
    then show ?thesis using assms(1) by (simp add: tighter_def decisions.combine_None_right)
  qed
  ultimately show ?thesis by (simp add: tighter_def)
qed

lemma evaluate_with_cwd_tighter:
  assumes "restricts c1 c2"
  shows "tighter (evaluate_with_cwd env (compiled_policy_new env c1) access cwd)
    (evaluate_with_cwd env (compiled_policy_new env c2) access cwd)"
proof -
  let ?base = "map_option rule_base_new cwd"
  have direct: "tighter (evaluate_rules_with_base env (compiled_policy_new env c1) access ?base)
      (evaluate_rules_with_base env (compiled_policy_new env c2) access ?base)"
    by (rule evaluate_rules_tighter [OF assms])
  have target: "tighter
      (combine_decisions (evaluate_rules_with_base env (compiled_policy_new env c1) access ?base)
        (escalation_only (evaluate_rules_with_base env (compiled_policy_new env c1) a ?base)))
      (combine_decisions (evaluate_rules_with_base env (compiled_policy_new env c2) access ?base)
        (escalation_only (evaluate_rules_with_base env (compiled_policy_new env c2) a ?base)))" for a
    by (rule combine_tighter [OF direct escalation_tighter [OF assms] escalation_only_range])
  have restr: "native_path_restrictions_apply (compiled_policy_new env c1) access \<Longrightarrow>
      native_path_restrictions_apply (compiled_policy_new env c2) access"
    using assms by (auto simp: native_path_restrictions_apply_def list_ex_iff restricts_def)
  have unres: "tighter
      (combine_decisions (evaluate_rules_with_base env (compiled_policy_new env c1) access ?base) x1)
      (combine_decisions (evaluate_rules_with_base env (compiled_policy_new env c2) access ?base) (Some decision.Ask))"
    if "x1 = None \<or> x1 = Some decision.Ask" for x1
    by (rule combine_tighter [OF direct]) (use that in auto)
  show ?thesis
    unfolding evaluate_with_cwd_def evaluate_with_cwd_details_def Let_def
    using direct target restr unres [of None] unres [of "Some decision.Ask"]
    by (auto simp: decisions.combine_None_right split: option.split symlink_follow.split)
qed

abbreviation gate_le :: "gate_decision option \<Rightarrow> gate_decision option \<Rightarrow> bool" where
  "gate_le g h \<equiv> rank_of gate_rank g \<le> rank_of gate_rank h"

lemma escalate_tighter:
  assumes "restricts c1 c2"
  shows "gate_le (escalate env (compiled_policy_new env c1) seg) (escalate env (compiled_policy_new env c2) seg)"
  using evaluate_rules_tighter [OF assms, of env "access_kind.Bash seg" None]
    evaluate_rules_cases [of env c1 "access_kind.Bash seg" None]
    evaluate_rules_cases [of env c2 "access_kind.Bash seg" None]
  by (auto simp: tighter_def escalate_def evaluate_bash split: if_splits)

lemma foldl_max_mono:
  "m \<le> n \<Longrightarrow> (\<And>x. f x \<le> g x) \<Longrightarrow>
   foldl (\<lambda>m x. max m (f x)) m xs \<le> foldl (\<lambda>m x. max m (g x)) n xs" for f g :: "'a \<Rightarrow> nat"
proof (induction xs arbitrary: m n)
  case (Cons x xs)
  have "max m (f x) \<le> max n (g x)" using Cons.prems(1) Cons.prems(2) [of x] by linarith
  with Cons show ?case by simp
qed simp

lemma command_words_gate_mono:
  assumes "\<And>seg. gate_le (escalate env p seg) (escalate env q seg)"
    and "rel_option (\<lambda>f g. \<forall>s. gate_le (f s) (g s)) ig jg"
  shows "gate_le (command_words_gate env p ig ws) (command_words_gate env q jg ws)"
proof -
  have inline: "gate_le (inline_gate ig iw) (inline_gate jg iw)" for iw
    using assms(2)
    by (cases ig; cases jg) (auto simp: inline_gate_def split: inline_shell_script.split option.split)
  have packed: "gate_le (packed_gate ig iw) (packed_gate jg iw)" for iw
    using assms(2) by (cases ig; cases jg) (auto simp: packed_gate_def split: option.split)
  show ?thesis
    unfolding command_words_gate_def Let_def gate.rank_combine gate.foldl_rank
    by (intro max.mono foldl_max_mono inline packed assms(1) order_refl)
qed

lemma segments_gate_mono:
  assumes "\<And>seg. gate_le (escalate env p seg) (escalate env q seg)"
    and "bash_words_allowed env p = bash_words_allowed env q"
    and "rel_option (\<lambda>f g. \<forall>s. gate_le (f s) (g s)) ig jg"
  shows "gate_le (segments_gate env p ig cmd) (segments_gate env q jg cmd)"
proof -
  have rec: "recovered_commands env p = recovered_commands env q"
    unfolding recovered_commands_def assms(2) ..
  show ?thesis
    unfolding segments_gate_def rec
    by (auto simp: gate.foldl_rank command_words_gate_mono [OF assms(1,3)]
        intro!: foldl_max_mono split: option.split)
qed

lemma segments_tighter:
  assumes "restricts c1 c2"
  shows "gate_le (evaluate_bash_command_segments env (compiled_policy_new env c1) cmd d)
    (evaluate_bash_command_segments env (compiled_policy_new env c2) cmd d)"
proof (induction d arbitrary: cmd)
  case 0
  show ?case
    using segments_gate_mono [OF escalate_tighter [OF assms] restricts_words_allowed [OF assms], of None None]
    by simp
next
  case (Suc d)
  then show ?case
    using segments_gate_mono [OF escalate_tighter [OF assms] restricts_words_allowed [OF assms],
        of "Some (\<lambda>inner. evaluate_bash_command_segments env (compiled_policy_new env c1) inner d)"
           "Some (\<lambda>inner. evaluate_bash_command_segments env (compiled_policy_new env c2) inner d)"]
    by simp
qed

lemma gate_tighter:
  assumes "restricts c1 c2"
  shows "gate_le (evaluate_bash_command_gate env (compiled_policy_new env c1) cmd)
    (evaluate_bash_command_gate env (compiled_policy_new env c2) cmd)"
proof -
  have "has_bash_command_restrictions (compiled_policy_new env c1) \<Longrightarrow>
      has_bash_command_restrictions (compiled_policy_new env c2)"
    using assms by (auto simp: compiled_policy_new_def list_ex_iff restricts_def)
  then show ?thesis
    using segments_tighter [OF assms] by (simp add: evaluate_bash_command_gate_def)
qed

section \<open>The commands a script runs\<close>

text \<open>
  The word lists of the commands of a script: the commands of its decomposition, or the recovered
  ones when it does not decompose. \<open>runs env packed d cmd ws\<close>: \<open>ws\<close> are the words of a command of
  \<open>cmd\<close>, or of a command of a script nested in it at most \<open>d\<close> levels deep: the literal operand of a
  \<open>shell -c\<close> behind wrappers, and, when \<open>packed\<close> is set, the readable operand of an \<open>env -S\<close>.
\<close>

definition commands_of :: "policy_env \<Rightarrow> string \<Rightarrow> string list list" where
  "commands_of env cmd =
     (case all_commands_from_script (try_parse_shell env) cmd of
        Some cmds \<Rightarrow> map words cmds
      | None \<Rightarrow> (case try_parse_shell env cmd of None \<Rightarrow> [] | Some tree \<Rightarrow> projections (analyze tree cmd)))"

abbreviation normal_words :: "string list \<Rightarrow> string list" where
  "normal_words ws \<equiv> norm_words (normalize_command_words ws)"

inductive runs :: "policy_env \<Rightarrow> bool \<Rightarrow> nat \<Rightarrow> string \<Rightarrow> string list \<Rightarrow> bool" where
  segment: "ws \<in> set (commands_of env cmd) \<Longrightarrow> runs env packed d cmd ws"
| inline: "cs \<in> set (commands_of env cmd) \<Longrightarrow>
    shell_dash_c_script (map LiteralWord (normal_words cs)) = InlineLiteral i \<Longrightarrow>
    nth_opt (normal_words cs) i = Some inner \<Longrightarrow>
    runs env packed d inner ws \<Longrightarrow> runs env packed (Suc d) cmd ws"
| packed: "cs \<in> set (commands_of env cmd) \<Longrightarrow>
    env_split_string_script (normal_words cs) = Some script \<Longrightarrow>
    runs env True d script ws \<Longrightarrow> runs env True (Suc d) cmd ws"

lemma runs_deeper: "runs env pk d cmd ws \<Longrightarrow> d \<le> d' \<Longrightarrow> runs env pk d' cmd ws"
proof (induction arbitrary: d' rule: runs.induct)
  case (inline cs env cmd i inner packed d ws)
  then show ?case using runs.inline by (cases d') auto
next
  case (packed cs env cmd script d ws)
  then show ?case using runs.packed by (cases d') auto
qed (rule runs.segment)

lemma segments_gate_member:
  assumes "ws \<in> set (commands_of env cmd)"
  shows "gate_le (command_words_gate env p ig ws) (segments_gate env p ig cmd)"
proof (cases "all_commands_from_script (try_parse_shell env) cmd")
  case None
  with assms obtain tree where "try_parse_shell env cmd = Some tree" "ws \<in> set (projections (analyze tree cmd))"
    by (cases "try_parse_shell env cmd") (auto simp: commands_of_def)
  with None show ?thesis
    using gate.foldl_rank_member [of ws "projections (analyze tree cmd)" "command_words_gate env p ig"]
    by (simp add: segments_gate_def recovered_commands_def Let_def)
next
  case (Some cmds)
  with assms obtain c where "c \<in> set cmds" "ws = words c" by (auto simp: commands_of_def)
  with Some show ?thesis
    using gate.foldl_rank_member [of c cmds "\<lambda>c. command_words_gate env p ig (words c)" None]
    by (simp add: segments_gate_def)
qed

lemma command_words_gate_parts:
  shows "gate_le (escalate env p (join '' '' ws)) (command_words_gate env p ig ws)"
    and "gate_le (escalate env p (join '' '' (normal_words ws))) (command_words_gate env p ig ws)"
    and "gate_le (inline_gate ig (normal_words ws)) (command_words_gate env p ig ws)"
    and "gate_le (packed_gate ig (normal_words ws)) (command_words_gate env p ig ws)"
proof -
  let ?forms = "ws # (if length (normal_words ws) \<noteq> length ws then [normal_words ws] else [])"
  have "suffix (normal_words ws) ws"
    using normalize_loop_suffix [of MAX_NORMALIZE_ROUNDS "normalize_start ws"]
    by (simp add: normalize_words_eq normalize_start_def)
  then have form: "normal_words ws \<in> set ?forms" using suffix_same_length by auto
  have folded: "gate_le (escalate env p (join '' '' f)) (command_words_gate env p ig ws)" if "f \<in> set ?forms" for f
    unfolding command_words_gate_def Let_def gate.rank_combine
    by (intro max.coboundedI1 gate.foldl_rank_member [OF that])
  show "gate_le (escalate env p (join '' '' ws)) (command_words_gate env p ig ws)"
    by (rule folded) simp
  show "gate_le (escalate env p (join '' '' (normal_words ws))) (command_words_gate env p ig ws)"
    by (rule folded [OF form])
  show "gate_le (inline_gate ig (normal_words ws)) (command_words_gate env p ig ws)"
    unfolding command_words_gate_def Let_def gate.rank_combine
    by (rule max.coboundedI1, rule max.cobounded2)
  show "gate_le (packed_gate ig (normal_words ws)) (command_words_gate env p ig ws)"
    unfolding command_words_gate_def Let_def gate.rank_combine by (rule max.cobounded2)
qed


text \<open>What the gate of a command inside a nested script contributes to the gate of the outer one.\<close>

lemma segments_gate_step:
  "evaluate_bash_command_segments env p cmd d =
   segments_gate env p
     (case d of 0 \<Rightarrow> None | Suc d' \<Rightarrow> Some (\<lambda>inner. evaluate_bash_command_segments env p inner d')) cmd"
  by (cases d) simp_all

lemma segments_gate_nested:
  assumes "cs \<in> set (commands_of env cmd)"
    and "(\<exists>i. shell_dash_c_script (map LiteralWord (normal_words cs)) = InlineLiteral i \<and>
            nth_opt (normal_words cs) i = Some inner) \<or>
         env_split_string_script (normal_words cs) = Some inner"
  shows "gate_le (evaluate_bash_command_segments env p inner d) (evaluate_bash_command_segments env p cmd (Suc d))"
    and "gate_le (Some AskFailClosed) (evaluate_bash_command_segments env p cmd 0)"
proof -
  have le: "gate_le x (segments_gate env p ig cmd)"
    if "gate_le x (inline_gate ig (normal_words cs)) \<or> gate_le x (packed_gate ig (normal_words cs))" for x ig
    using that segments_gate_member [OF assms(1), of p ig] command_words_gate_parts(3,4) [of ig cs env p]
    by linarith
  show "gate_le (evaluate_bash_command_segments env p inner d) (evaluate_bash_command_segments env p cmd (Suc d))"
    unfolding segments_gate_step [of env p cmd] nat.case
    by (rule le) (use assms(2) in \<open>auto simp: inline_gate_def packed_gate_def\<close>)
  show "gate_le (Some AskFailClosed) (evaluate_bash_command_segments env p cmd 0)"
    unfolding segments_gate_step [of env p cmd] nat.case
    by (rule le) (use assms(2) in \<open>auto simp: inline_gate_def packed_gate_def\<close>)
qed

lemma segments_gate_runs:
  assumes "runs env pk d cmd ws"
  shows "gate_le (escalate env p (join '' '' ws)) (evaluate_bash_command_segments env p cmd d) \<and>
    gate_le (escalate env p (join '' '' (normal_words ws))) (evaluate_bash_command_segments env p cmd d)"
  using assms
proof (induction rule: runs.induct)
  case (segment ws env cmd packed d)
  then show ?case
    unfolding segments_gate_step [of env p cmd]
    using segments_gate_member command_words_gate_parts(1,2) order_trans by blast
next
  case (inline cs env cmd i inner packed d ws)
  then show ?case using segments_gate_nested(1) [of cs env cmd inner p d] order_trans by blast
next
  case (packed cs env cmd script d ws)
  then show ?case using segments_gate_nested(1) [of cs env cmd script p d] order_trans by blast
qed

lemma segments_gate_not_silent:
  assumes "runs env pk d cmd ws"
    and "escalate env p (join '' '' ws) \<noteq> None \<or> escalate env p (join '' '' (normal_words ws)) \<noteq> None"
  shows "evaluate_bash_command_segments env p cmd n \<noteq> None"
  using assms
proof (induction arbitrary: n rule: runs.induct)
  case (segment ws env cmd packed d)
  then show ?case
    using segments_gate_runs [OF runs.segment, of ws env cmd p n] by (auto simp: rank_of_def split: option.splits)
next
  case (inline cs env cmd i inner packed d ws)
  note nested = segments_gate_nested [of cs env cmd inner p]
  show ?case
  proof (cases n)
    case 0
    with inline nested(2) show ?thesis by (auto simp: rank_of_def split: option.splits)
  next
    case (Suc n')
    with inline.IH [OF inline.prems, of n'] inline.hyps nested(1) [of n'] show ?thesis
      by (auto simp: rank_of_def split: option.splits)
  qed
next
  case (packed cs env cmd script d ws)
  note nested = segments_gate_nested [of cs env cmd script p]
  show ?case
  proof (cases n)
    case 0
    with packed nested(2) show ?thesis by (auto simp: rank_of_def split: option.splits)
  next
    case (Suc n')
    with packed.IH [OF packed.prems, of n'] packed.hyps nested(1) [of n'] show ?thesis
      by (auto simp: rank_of_def split: option.splits)
  qed
qed

end
