(* ===== verification/Perm_Guarantees.thy ===== *)
theory Perm_Guarantees
  imports Perm_Policy
begin

text \<open>
  What the permission policy guarantees: precedence of deny over ask over allow, independence of the
  order of the rules, monotonicity in the restrictions, no command that escapes a deny rule by being
  nested in a script, and the conjunctive reading of allow rules over every command of a script.
\<close>

section \<open>Allowed scripts\<close>

text \<open>The five reader programs are no wrappers, no prefixes and no shells.\<close>

lemma normalize_plain:
  assumes "\<not> is_wrapper_command ws" and "strip_transparent_prefix ws = NotPrefix"
  shows "normalize_command_words ws = normalize_start ws"
proof -
  have env: "head_basename ws \<noteq> Some ''env''" using assms(1) by (auto simp: is_wrapper_command_def)
  have peel: "unwrap_wrappers_checked ws =
      \<lparr>peel_words = ws, peel_chdir = False, peel_split_string = False, peel_env_uncertain = False,
       peel_exhausted = False\<rparr>"
    using env not_wrapper_not_stripped [OF assms(1)]
    by (simp add: unwrap_wrappers_checked_def MAX_WRAPPER_DEPTH_def numeral_eq_Suc scan_into_def)
  have ready: "peel_transparent_prefixes ws = Ready ws"
    by (simp add: peel_transparent_prefixes_def MAX_TRANSPARENT_PREFIX_DEPTH_def numeral_eq_Suc assms(2))
  have round: "normalize_round (normalize_start ws) = (normalize_start ws, False)"
    by (simp add: normalize_round_def absorb_wrapped_def Let_def normalize_start_def peel ready)
  have rounds: "MAX_NORMALIZE_ROUNDS = Suc 15"
    by (simp add: MAX_NORMALIZE_ROUNDS_def MAX_WRAPPER_DEPTH_def MAX_TRANSPARENT_PREFIX_DEPTH_def)
  have "normalize_loop MAX_NORMALIZE_ROUNDS (normalize_start ws) = normalize_start ws"
    unfolding rounds normalize_loop.simps round by simp
  then show ?thesis
    using assms by (simp add: normalize_command_words_def Let_def still_peelable_def normalize_start_def)
qed

lemma reader_head_plain:
  assumes "h \<in> set READER_HEADS"
  shows "normalize_command_words (h # rest) = normalize_start (h # rest)"
    and "shell_dash_c_script (map LiteralWord (h # rest)) = NotInline"
proof -
  have base: "basename h = h" and h: "h \<notin> {''timeout'', ''nice'', ''ionice'', ''chrt'', ''stdbuf'', ''env''}"
      "h \<notin> {''exec'', ''command'', ''builtin''}" "h \<notin> set SHELL_HEADS" "h \<noteq> []" "h \<noteq> nul_word"
    using assms by (auto simp: READER_HEADS_def SHELL_HEADS_def basename_def is_path_sep_def)
  show "normalize_command_words (h # rest) = normalize_start (h # rest)"
    by (rule normalize_plain)
      (use h in \<open>auto simp: is_wrapper_command_def head_basename_def strip_transparent_prefix_def base\<close>)
  show "shell_dash_c_script (map LiteralWord (h # rest)) = NotInline"
    using h by (simp add: shell_dash_c_script_def base)
qed

lemma eligible_projection:
  assumes "is_eligible (analyze root src)" and "ws \<in> set (projections (analyze root src))"
  obtains h rest where "ws = h # rest" and "h \<in> set READER_HEADS"
proof -
  from assms(1) have "eligible (analyze_state root src)" by (simp add: is_eligible_def analyze_def Let_def)
  moreover have "script_inv (analyze_state root src)" using analyze_walk by blast
  ultimately have "list_all reader_command (commands (analyze root src))"
    by (simp add: script_inv_def analyze_def Let_def)
  with assms(2) obtain pw where "reader_command pw" "ws = map word_spelling pw"
    by (auto simp: projections_def list_all_iff)
  then show thesis using that by (auto simp: reader_command_def word_spelling_def)
qed

text \<open>What the allow gate knows of one command when it lets a script pass.\<close>

definition command_allowed ::
  "policy_env \<Rightarrow> compiled_policy \<Rightarrow> allow_rule_scope \<Rightarrow> string list \<Rightarrow> bool" where
  "command_allowed env p scope ws =
     (unflagged (normalize_command_words ws) \<and> bash_words_allowed env p (normal_words ws) scope \<and>
      shell_dash_c_script (map LiteralWord (normal_words ws)) \<noteq> InlineUntrusted \<and>
      shell_dash_c_script (map LiteralWord (normal_words ws)) \<noteq> InlineUnrecognized)"

lemma segment_allowedD:
  assumes "segment_allowed env p scope ig ws"
  shows "command_allowed env p scope ws"
    and "shell_dash_c_script (map LiteralWord (normal_words ws)) = InlineLiteral i \<Longrightarrow>
      nth_opt (normal_words ws) i = Some inner \<Longrightarrow> \<exists>rec. ig = Some rec \<and> rec inner"
  using assms
  by (auto simp: segment_allowed_def command_allowed_def unflagged_def Let_def
      split: if_splits inline_shell_script.splits option.splits)

lemma chain_allowed_member:
  assumes "chain_allowed env p scope ig cmd" and "ws \<in> set (commands_of env cmd)"
  shows "command_allowed env p scope ws"
    and "shell_dash_c_script (map LiteralWord (normal_words ws)) = InlineLiteral i \<Longrightarrow>
      nth_opt (normal_words ws) i = Some inner \<Longrightarrow> \<exists>rec. ig = Some rec \<and> rec inner"
proof -
  have "command_allowed env p scope ws \<and>
    (shell_dash_c_script (map LiteralWord (normal_words ws)) = InlineLiteral i \<longrightarrow>
      nth_opt (normal_words ws) i = Some inner \<longrightarrow> (\<exists>rec. ig = Some rec \<and> rec inner))"
  proof (cases "all_commands_from_script (try_parse_shell env) cmd")
    case None
    with assms obtain tree where tree: "try_parse_shell env cmd = Some tree"
        "ws \<in> set (projections (analyze tree cmd))" "is_eligible (analyze tree cmd)"
        "bash_words_allowed env p ws scope"
      by (cases "try_parse_shell env cmd")
        (auto simp: commands_of_def chain_allowed_def recovered_commands_def Let_def list_all_iff)
    from eligible_projection [OF tree(3,2)] obtain h rest where "ws = h # rest" "h \<in> set READER_HEADS" .
    with tree(4) reader_head_plain [of h rest] show ?thesis
      by (auto simp: command_allowed_def unflagged_def normalize_start_def)
  next
    case (Some cmds)
    with assms have "segment_allowed env p scope ig ws"
      by (auto simp: commands_of_def chain_allowed_def list_all_iff)
    then show ?thesis using segment_allowedD by blast
  qed
  then show "command_allowed env p scope ws"
    and "shell_dash_c_script (map LiteralWord (normal_words ws)) = InlineLiteral i \<Longrightarrow>
      nth_opt (normal_words ws) i = Some inner \<Longrightarrow> \<exists>rec. ig = Some rec \<and> rec inner"
    by blast+
qed

lemma chain_allowed_step:
  "bash_chain_fully_allowed env p n scope cmd =
   chain_allowed env p scope
     (case n of 0 \<Rightarrow> None | Suc n' \<Rightarrow> Some (bash_chain_fully_allowed env p n' scope)) cmd"
  by (cases n) simp_all

lemma chain_allowed_runs:
  assumes "runs env pk d cmd ws" and "\<not> pk" and "bash_chain_fully_allowed env p n scope cmd"
  shows "command_allowed env p scope ws"
  using assms
proof (induction arbitrary: n rule: runs.induct)
  case (segment ws env cmd packed d)
  then show ?case unfolding chain_allowed_step [of env p n] using chain_allowed_member(1) by blast
next
  case (inline cs env cmd i inner packed d ws)
  from chain_allowed_member(2) [OF inline.prems(2) [unfolded chain_allowed_step [of env p n]] inline.hyps(1-3)]
  obtain n' where "n = Suc n'" "bash_chain_fully_allowed env p n' scope inner" by (auto split: nat.splits)
  with inline.IH [of n'] inline.prems(1) show ?case by blast
qed simp

lemma chain_allowed_narrow:
  assumes "bash_chain_fully_allowed env (compiled_policy_new env cfg) n NarrowOnly cmd"
  shows "bash_chain_fully_allowed env (compiled_policy_new env cfg) n AnyRule cmd"
proof -
  let ?p = "compiled_policy_new env cfg"
  have ws: "bash_words_allowed env ?p ws NarrowOnly \<Longrightarrow> bash_words_allowed env ?p ws AnyRule" for ws
    by (auto simp: bash_words_allowed_eq)
  have chain: "chain_allowed env ?p NarrowOnly ig cmd \<Longrightarrow> rel_option (\<lambda>f g. \<forall>s. f s \<longrightarrow> g s) ig jg \<Longrightarrow>
      chain_allowed env ?p AnyRule jg cmd" for ig jg cmd
  proof -
    assume c: "chain_allowed env ?p NarrowOnly ig cmd" and ij: "rel_option (\<lambda>f g. \<forall>s. f s \<longrightarrow> g s) ig jg"
    have seg: "segment_allowed env ?p AnyRule jg ws" if "segment_allowed env ?p NarrowOnly ig ws" for ws
      using that ij ws [of "normal_words ws"]
      by (cases ig; cases jg)
        (auto simp: segment_allowed_def Let_def split: if_splits inline_shell_script.splits option.splits)
    from c show ?thesis
      by (auto simp: chain_allowed_def recovered_commands_def Let_def list_all_iff seg ws split: option.splits)
  qed
  show ?thesis using assms
  proof (induction n arbitrary: cmd)
    case 0 then show ?case using chain [of None cmd None] by simp
  next
    case (Suc n)
    then show ?case
      using chain [of "Some (bash_chain_fully_allowed env ?p n NarrowOnly)" cmd
          "Some (bash_chain_fully_allowed env ?p n AnyRule)"] by simp
  qed
qed

section \<open>Decisions up to the wording of a rejection\<close>

definition without_reason :: "decision option \<Rightarrow> decision option" where
  "without_reason d = (case d of Some (decision.Reject _) \<Rightarrow> Some (decision.Reject []) | _ \<Rightarrow> d)"

definition rule_decision :: "decision option \<Rightarrow> bool" where
  "rule_decision d =
     (d = None \<or> d = Some decision.Allow \<or> d = Some decision.Ask \<or> (\<exists>r. d = Some (decision.Reject r)))"

lemma rule_decision_rank:
  "rule_decision d \<Longrightarrow> rule_decision e \<Longrightarrow> rank_of decision_rank d = rank_of decision_rank e \<Longrightarrow>
   without_reason d = without_reason e"
  by (auto simp: rule_decision_def without_reason_def)

lemma rule_decision_reject:
  "rule_decision d \<Longrightarrow> 4 \<le> rank_of decision_rank d \<Longrightarrow> without_reason d = Some (decision.Reject [])"
  by (auto simp: rule_decision_def without_reason_def)

lemma evaluate_rules_decision:
  "rule_decision (evaluate_rules_with_base env (compiled_policy_new env cfg) access base)"
  using evaluate_rules_cases [of env cfg access base] by (auto simp: rule_decision_def split: if_splits)

lemma combine_rule_decision:
  "rule_decision a \<Longrightarrow> rule_decision b \<Longrightarrow> rule_decision (combine_decisions a b)"
  using decisions.combine_cases [of a b] by auto

lemma escalation_only_decision: "rule_decision (escalation_only d)"
  using escalation_only_range [of d] by (auto simp: rule_decision_def)

lemma evaluate_with_cwd_cases:
  fixes env p access cwd
  defines "direct \<equiv> evaluate_rules_with_base env p access (map_option rule_base_new cwd)"
  shows "evaluate_with_cwd env p access cwd = direct \<or>
    (\<exists>t. evaluate_with_cwd env p access cwd =
       combine_decisions direct
         (escalation_only (evaluate_rules_with_base env p (access_with_path access t) (map_option rule_base_new cwd)))) \<or>
    evaluate_with_cwd env p access cwd = combine_decisions direct (Some decision.Ask)"
  unfolding evaluate_with_cwd_def evaluate_with_cwd_details_def Let_def direct_def
  by (auto split: option.split symlink_follow.split)

lemma evaluate_with_cwd_decision: "rule_decision (evaluate_with_cwd env (compiled_policy_new env cfg) access cwd)"
proof -
  have "rule_decision (Some decision.Ask)" by (simp add: rule_decision_def)
  then show ?thesis
    using evaluate_with_cwd_cases [of env "compiled_policy_new env cfg" access cwd]
      combine_rule_decision evaluate_rules_decision escalation_only_decision by metis
qed

lemma same_rules_restrict: "set (rules c1) = set (rules c2) \<Longrightarrow> restricts c1 c2 \<and> restricts c2 c1"
  by (auto simp: restricts_def)

section \<open>Properties\<close>

text \<open>C16: deny before ask before allow. Whatever the order of the rules, an access is rejected
  exactly when some deny rule applies to it, asked about exactly when no deny but some ask rule
  does, and allowed exactly when neither applies and the allow rules grant it: for a Bash command
  that every command of the script is covered, for anything else that one allow rule applies.\<close>

theorem deny_before_ask_before_allow:
  "let d = evaluate_rules_with_base env (compiled_policy_new env cfg) access base;
       matched = some_applies env cfg access base
   in (\<exists>reason. d = Some (decision.Reject reason)) = matched rule_action.Deny \<and>
      (d = Some decision.Ask) = (matched rule_action.Ask \<and> \<not> matched rule_action.Deny) \<and>
      (d = Some decision.Allow) =
        (granted env cfg access base \<and> \<not> matched rule_action.Ask \<and> \<not> matched rule_action.Deny)"
  using evaluate_rules_cases [of env cfg access base] unfolding Let_def by (auto split: if_splits)

text \<open>The order and the multiplicity of the rules do not matter. Two configurations with the
  same set of rules give the same decision on every access, up to the wording of a rejection, and
  the command gate gives decisions of the same rank on every script.\<close>

theorem rule_order_is_irrelevant:
  assumes "set (rules c1) = set (rules c2)"
  shows "without_reason (evaluate_with_cwd env (compiled_policy_new env c1) access cwd) =
      without_reason (evaluate_with_cwd env (compiled_policy_new env c2) access cwd) \<and>
    rank_of gate_rank (evaluate_bash_command_gate env (compiled_policy_new env c1) cmd) =
      rank_of gate_rank (evaluate_bash_command_gate env (compiled_policy_new env c2) cmd)"
proof -
  from same_rules_restrict [OF assms] have r: "restricts c1 c2" "restricts c2 c1" by blast+
  have "rank_of decision_rank (evaluate_with_cwd env (compiled_policy_new env c1) access cwd) =
      rank_of decision_rank (evaluate_with_cwd env (compiled_policy_new env c2) access cwd)"
    using evaluate_with_cwd_tighter [OF r(1), of env access cwd] evaluate_with_cwd_tighter [OF r(2), of env access cwd]
    by (simp add: tighter_def)
  then have "without_reason (evaluate_with_cwd env (compiled_policy_new env c1) access cwd) =
      without_reason (evaluate_with_cwd env (compiled_policy_new env c2) access cwd)"
    by (rule rule_decision_rank [OF evaluate_with_cwd_decision evaluate_with_cwd_decision])
  then show ?thesis
    using gate_tighter [OF r(1), of env cmd] gate_tighter [OF r(2), of env cmd] by simp
qed

text \<open>A shell that knows two scripts, \<open>ls | wc\<close> and \<open>bash -c 'ls | wc'\<close>, an empty file system and
  globs that match only themselves.\<close>

definition nested_source :: string where
  "nested_source = ''bash -c '' @ [single_quote] @ ''ls | wc'' @ [single_quote]"

definition nested_tree :: node where
  "nested_tree =
     Node ''program'' True False 0 17 None
       [Node ''command'' True False 0 17 None
          [Node ''command_name'' True False 0 4 (Some ''name'') [word_leaf 0 4],
           word_leaf 5 7, Node ''raw_string'' True False 8 17 (Some ''argument'') []]]"

definition sample_env :: policy_env where
  "sample_env =
     \<lparr>glob_ok = (\<lambda>_. True), glob_match = (\<lambda>pat _ t. pat = t), url_host = (\<lambda>_. None),
      to_lowercase = (\<lambda>s. s), fs = empty_fs,
      try_parse_shell =
        (\<lambda>s. if s = ''ls | wc'' then Some ls_wc_tree
             else if s = nested_source then Some nested_tree else None)\<rparr>"

definition bash_rule :: "rule_action \<Rightarrow> string \<Rightarrow> permission_rule" where
  "bash_rule act pat = \<lparr>action = act, tool = tool_filter.Bash, pattern = Some pat, pattern_mode = Glob\<rparr>"

abbreviation sample_policy :: "permission_rule list \<Rightarrow> compiled_policy" where
  "sample_policy rs \<equiv> compiled_policy_new sample_env (permission_config_new rs)"

theorem rule_order_is_irrelevant_witness:
  "without_reason (evaluate_with_cwd sample_env
       (sample_policy [bash_rule rule_action.Ask ''ls'', bash_rule rule_action.Deny ''ls'']) (access_kind.Bash ''ls'') None) =
     Some (decision.Reject []) \<and>
   without_reason (evaluate_with_cwd sample_env
       (sample_policy [bash_rule rule_action.Deny ''ls'', bash_rule rule_action.Ask ''ls'']) (access_kind.Bash ''ls'') None) =
     Some (decision.Reject [])"
proof -
  let ?c1 = "permission_config_new [bash_rule rule_action.Ask ''ls'', bash_rule rule_action.Deny ''ls'']"
  let ?c2 = "permission_config_new [bash_rule rule_action.Deny ''ls'', bash_rule rule_action.Ask ''ls'']"
  have "without_reason (evaluate_with_cwd sample_env (compiled_policy_new sample_env ?c1) (access_kind.Bash ''ls'') None) =
     Some (decision.Reject [])"
    by code_simp
  moreover have "set (rules ?c1) = set (rules ?c2)" by (auto simp: permission_config_new_def)
  ultimately show ?thesis
    using rule_order_is_irrelevant [of ?c1 ?c2 sample_env "access_kind.Bash ''ls''" None] by simp
qed

text \<open>C26: restrictions only tighten. Adding deny and ask rules to a configuration, anywhere in it,
  never lowers the rank of a decision on any access or of the command gate on any script, and what
  the larger configuration allows the smaller one allowed.\<close>

theorem restrictions_only_tighten:
  assumes "restricts c1 c2"
  shows "tighter (evaluate_with_cwd env (compiled_policy_new env c1) access cwd)
      (evaluate_with_cwd env (compiled_policy_new env c2) access cwd) \<and>
    rank_of gate_rank (evaluate_bash_command_gate env (compiled_policy_new env c1) cmd) \<le>
      rank_of gate_rank (evaluate_bash_command_gate env (compiled_policy_new env c2) cmd)"
  using evaluate_with_cwd_tighter [OF assms] gate_tighter [OF assms] by blast

theorem restrictions_only_tighten_witness:
  "rank_of gate_rank (evaluate_bash_command_gate sample_env
       (sample_policy [bash_rule rule_action.Ask ''ls'']) ''ls | wc'') = 3 \<and>
   3 \<le> rank_of gate_rank (evaluate_bash_command_gate sample_env
       (sample_policy [bash_rule rule_action.Ask ''ls'', bash_rule rule_action.Deny ''wc'']) ''ls | wc'')"
proof -
  have "restricts (permission_config_new [bash_rule rule_action.Ask ''ls''])
      (permission_config_new [bash_rule rule_action.Ask ''ls'', bash_rule rule_action.Deny ''wc''])"
    by (simp add: restricts_def permission_config_new_def bash_rule_def is_restriction_def)
  moreover have "rank_of gate_rank (evaluate_bash_command_gate sample_env
       (sample_policy [bash_rule rule_action.Ask ''ls'']) ''ls | wc'') = 3"
    by code_simp
  ultimately show ?thesis
    using restrictions_only_tighten [where env = sample_env and cmd = "''ls | wc''"] by fastforce
qed

text \<open>A rule on a nested command, seen by the command gate.\<close>

lemma command_rule_gate:
  assumes "runs env pk d cmd ws" and "r \<in> set (rules cfg)" and "is_restriction (action r)"
    and "applies env (access_kind.Bash (join '' '' ws)) None r \<or>
      applies env (access_kind.Bash (join '' '' (normal_words ws))) None r"
  defines "gate \<equiv> evaluate_bash_command_gate env (compiled_policy_new env cfg) cmd"
  shows "gate \<noteq> None"
    and "d \<le> MAX_INLINE_SHELL_DEPTH \<Longrightarrow> gate_le (Some AskRuleMatch) gate"
    and "d \<le> MAX_INLINE_SHELL_DEPTH \<Longrightarrow> action r = rule_action.Deny \<Longrightarrow> \<exists>reason. gate = Some (GateReject reason)"
proof -
  let ?p = "compiled_policy_new env cfg"
  have esc: "gate_le (Some AskRuleMatch) (escalate env ?p seg) \<and>
      (action r = rule_action.Deny \<longrightarrow> (\<exists>reason. escalate env ?p seg = Some (GateReject reason)))"
    if "applies env (access_kind.Bash seg) None r" for seg
    using that assms(2,3) evaluate_rules_cases [of env cfg "access_kind.Bash seg" None]
    by (auto simp: escalate_def evaluate_bash some_applies_def is_restriction_def split: if_splits)
  define seg where "seg = (if applies env (access_kind.Bash (join '' '' ws)) None r then join '' '' ws
      else join '' '' (normal_words ws))"
  have seg: "applies env (access_kind.Bash seg) None r" using assms(4) by (auto simp: seg_def)
  have "covers_bash r"
    using assms(4) by (cases "tool r") (auto simp: applies_def rule_matches_def rule_reaches_def covers_bash_def)
  then have gate: "gate = evaluate_bash_command_segments env ?p cmd MAX_INLINE_SHELL_DEPTH"
    using assms(2,3) by (auto simp: gate_def evaluate_bash_command_gate_def compiled_policy_new_def list_ex_iff)
  have "escalate env ?p seg \<noteq> None" using esc [OF seg] by (cases "escalate env ?p seg") auto
  then show "gate \<noteq> None"
    unfolding gate seg_def by (intro segments_gate_not_silent [OF assms(1)]) (auto split: if_splits)
  have reach: "gate_le (escalate env ?p seg) gate" if "d \<le> MAX_INLINE_SHELL_DEPTH"
    using segments_gate_runs [OF runs_deeper [OF assms(1) that], of ?p] unfolding gate seg_def by auto
  then show "gate_le (Some AskRuleMatch) gate" if "d \<le> MAX_INLINE_SHELL_DEPTH"
    using esc [OF seg] that order_trans by blast
  show "\<exists>reason. gate = Some (GateReject reason)" if "d \<le> MAX_INLINE_SHELL_DEPTH" "action r = rule_action.Deny"
    using esc [OF seg] reach [OF that(1)] that(2) unfolding gate_rank_reject [symmetric] by auto
qed

text \<open>C2: a deny rule cannot be dodged by nesting. If a deny rule applies to a command that a script
  runs, to its words as written or with wrappers and prefixes peeled, then the command gate never
  passes the script in silence, however deep the command is nested in \<open>shell -c\<close> operands and
  packed \<open>env -S\<close> operands, and it rejects the script when the nesting is at most
  \<open>MAX_INLINE_SHELL_DEPTH\<close> levels deep.\<close>

theorem nested_deny_is_enforced:
  assumes "runs env pk d cmd ws"
    and "r \<in> set (rules cfg)" and "action r = rule_action.Deny"
    and "applies env (access_kind.Bash (join '' '' ws)) None r \<or>
      applies env (access_kind.Bash (join '' '' (normal_words ws))) None r"
  shows "evaluate_bash_command_gate env (compiled_policy_new env cfg) cmd \<noteq> None \<and>
    (d \<le> MAX_INLINE_SHELL_DEPTH \<longrightarrow>
       (\<exists>reason. evaluate_bash_command_gate env (compiled_policy_new env cfg) cmd = Some (GateReject reason)))"
proof -
  have "is_restriction (action r)" by (simp add: assms(3) is_restriction_def)
  from command_rule_gate(1,3) [OF assms(1,2) this assms(4)] show ?thesis using assms(3) by blast
qed

lemma nested_commands:
  "commands_of sample_env nested_source = [[''bash'', ''-c'', ''ls | wc'']]"
  "commands_of sample_env ''ls | wc'' = [[''ls''], [''wc'']]"
  by code_simp+

lemma nested_runs: "runs sample_env False 1 nested_source [''wc'']"
proof -
  have "runs sample_env False 0 ''ls | wc'' [''wc'']" by (rule runs.segment) (simp add: nested_commands)
  moreover have "shell_dash_c_script (map LiteralWord (normal_words [''bash'', ''-c'', ''ls | wc''])) = InlineLiteral 2"
    by code_simp
  moreover have "nth_opt (normal_words [''bash'', ''-c'', ''ls | wc'']) 2 = Some ''ls | wc''" by code_simp
  ultimately show ?thesis
    unfolding One_nat_def by (intro runs.inline [of "[''bash'', ''-c'', ''ls | wc'']"]) (simp_all add: nested_commands)
qed

theorem nested_deny_is_enforced_witness:
  "\<exists>reason. evaluate_bash_command_gate sample_env (sample_policy [bash_rule rule_action.Deny ''wc'']) nested_source =
     Some (GateReject reason)"
proof -
  let ?cfg = "permission_config_new [bash_rule rule_action.Deny ''wc'']"
  have "applies sample_env (access_kind.Bash (join '' '' [''wc''])) None (bash_rule rule_action.Deny ''wc'')"
    by code_simp
  moreover have "bash_rule rule_action.Deny ''wc'' \<in> set (rules ?cfg)" by (simp add: permission_config_new_def)
  moreover have "action (bash_rule rule_action.Deny ''wc'') = rule_action.Deny" by (simp add: bash_rule_def)
  moreover have "1 \<le> MAX_INLINE_SHELL_DEPTH" by (simp add: MAX_INLINE_SHELL_DEPTH_def)
  ultimately show ?thesis using nested_deny_is_enforced [OF nested_runs] by blast
qed

text \<open>C5: allowing a script allows every command in it. If a Bash script is allowed, no deny and no
  ask rule applies to its text, and every command it runs, at any depth of literal \<open>shell -c\<close>
  nesting, normalises without a warning flag, has peeled words that some allow rule for Bash covers,
  and is no \<open>-c\<close> invocation whose script the analysis cannot read.\<close>

theorem allow_covers_every_command:
  assumes "evaluate env (compiled_policy_new env cfg) (access_kind.Bash cmd) = Some decision.Allow"
    and "runs env False d cmd ws"
  shows "\<not> some_applies env cfg (access_kind.Bash cmd) None rule_action.Deny \<and>
    \<not> some_applies env cfg (access_kind.Bash cmd) None rule_action.Ask \<and>
    command_allowed env (compiled_policy_new env cfg) AnyRule ws \<and>
    (\<exists>r\<in>set (rules cfg). action r = rule_action.Allow \<and> covers_bash r \<and>
       bash_allow_pattern_matches env (join '' '' (normal_words ws)) r (compile_matcher env r))"
proof -
  have e: "evaluate_rules_with_base env (compiled_policy_new env cfg) (access_kind.Bash cmd) None = Some decision.Allow"
    using assms(1) by (simp add: evaluate_bash)
  from evaluate_rules_cases [of env cfg "access_kind.Bash cmd" None] e
  have none: "\<not> some_applies env cfg (access_kind.Bash cmd) None rule_action.Deny"
      "\<not> some_applies env cfg (access_kind.Bash cmd) None rule_action.Ask"
    and "granted env cfg (access_kind.Bash cmd) None"
    by (auto split: if_splits)
  then have "bash_chain_fully_allowed env (compiled_policy_new env cfg) MAX_INLINE_SHELL_DEPTH AnyRule cmd"
    by (simp add: granted_def bash_command_def)
  from chain_allowed_runs [OF assms(2) _ this]
  have "command_allowed env (compiled_policy_new env cfg) AnyRule ws" by simp
  then show ?thesis using none by (auto simp: command_allowed_def bash_words_allowed_eq)
qed

theorem allow_covers_every_command_witness:
  "evaluate sample_env
     (sample_policy [bash_rule rule_action.Allow ''wc'', bash_rule rule_action.Allow ''bash'', bash_rule rule_action.Allow ''ls''])
     (access_kind.Bash nested_source) = Some decision.Allow \<and>
   command_allowed sample_env
     (sample_policy [bash_rule rule_action.Allow ''wc'', bash_rule rule_action.Allow ''bash'', bash_rule rule_action.Allow ''ls''])
     AnyRule [''wc'']"
proof -
  let ?p = "sample_policy [bash_rule rule_action.Allow ''wc'', bash_rule rule_action.Allow ''bash'', bash_rule rule_action.Allow ''ls'']"
  have allow: "evaluate sample_env ?p (access_kind.Bash nested_source) = Some decision.Allow" by code_simp
  from allow_covers_every_command [OF allow nested_runs] allow show ?thesis by blast
qed

text \<open>C33: what the narrow rules authorise. If narrow allow rules alone authorise a script, the full
  allow rules cover it too, and every command it runs, at any depth of literal nesting, is headed by
  a program that does not execute code handed to it and is covered by an allow rule that is not a
  blanket grant.\<close>

theorem narrow_allow_is_narrow:
  assumes "narrow_allow_authorizes env (compiled_policy_new env cfg) (access_kind.Bash cmd)"
    and "runs env False d cmd ws"
  shows "granted env cfg (access_kind.Bash cmd) None \<and>
    \<not> head_is_exec_vehicle (normal_words ws) \<and>
    (\<exists>r\<in>set (rules cfg). action r = rule_action.Allow \<and> covers_bash r \<and> \<not> rule_is_catchall env r \<and>
       bash_allow_pattern_matches env (join '' '' (normal_words ws)) r (compile_matcher env r))"
proof -
  have chain: "bash_chain_fully_allowed env (compiled_policy_new env cfg) MAX_INLINE_SHELL_DEPTH NarrowOnly cmd"
    and rules: "has_bash_allow_rules (compiled_policy_new env cfg)"
    using assms(1) by (simp_all add: narrow_allow_authorizes_def)
  have "granted env cfg (access_kind.Bash cmd) None"
    using rules chain_allowed_narrow [OF chain] by (simp add: granted_def bash_command_def)
  moreover have "command_allowed env (compiled_policy_new env cfg) NarrowOnly ws"
    using chain_allowed_runs [OF assms(2) _ chain] by simp
  ultimately show ?thesis by (auto simp: command_allowed_def bash_words_allowed_eq)
qed

theorem narrow_allow_is_narrow_witness:
  "\<not> head_is_exec_vehicle (normal_words [''wc'']) \<and>
   granted sample_env (permission_config_new [bash_rule rule_action.Allow ''wc'', bash_rule rule_action.Allow ''ls''])
     (access_kind.Bash ''ls | wc'') None"
proof -
  have "narrow_allow_authorizes sample_env
      (sample_policy [bash_rule rule_action.Allow ''wc'', bash_rule rule_action.Allow ''ls'']) (access_kind.Bash ''ls | wc'')"
    by code_simp
  moreover have "runs sample_env False 0 ''ls | wc'' [''wc'']" by (rule runs.segment) (simp add: nested_commands)
  ultimately show ?thesis using narrow_allow_is_narrow by blast
qed

text \<open>C27: following symlinks only escalates. For a native file access the decision is never weaker
  than the one on the path as written, and it allows only what that one allows; a deny rule that
  applies to the file the path leads to rejects the access, an ask rule there makes it at least a
  prompt, and so does a link that cannot be followed when some restriction covers the tool.\<close>

theorem symlinks_only_escalate:
  assumes "native_file_path access = Some path" and "raw_absolute_tool_path path cwd = Some raw"
    and "follow_absolute_symlink (fs env) raw (path_match_string (absolute_normalized_path path cwd)) = follow"
  shows "tighter (evaluate_rules_with_base env (compiled_policy_new env cfg) access (map_option rule_base_new cwd))
      (evaluate_with_cwd env (compiled_policy_new env cfg) access cwd) \<and>
    (\<forall>t. follow = FollowTarget t \<longrightarrow>
      (some_applies env cfg (access_with_path access t) (map_option rule_base_new cwd) rule_action.Deny \<longrightarrow>
         without_reason (evaluate_with_cwd env (compiled_policy_new env cfg) access cwd) = Some (decision.Reject [])) \<and>
      (some_applies env cfg (access_with_path access t) (map_option rule_base_new cwd) rule_action.Ask \<longrightarrow>
         rank_of decision_rank (Some decision.Ask) \<le>
         rank_of decision_rank (evaluate_with_cwd env (compiled_policy_new env cfg) access cwd))) \<and>
    (follow = Unresolvable \<longrightarrow> native_path_restrictions_apply (compiled_policy_new env cfg) access \<longrightarrow>
       rank_of decision_rank (Some decision.Ask) \<le>
       rank_of decision_rank (evaluate_with_cwd env (compiled_policy_new env cfg) access cwd))"
proof -
  let ?p = "compiled_policy_new env cfg" and ?base = "map_option rule_base_new cwd"
  let ?direct = "evaluate_rules_with_base env ?p access ?base" and ?e = "evaluate_with_cwd env ?p access cwd"
  have self: "tighter ?direct ?direct" by (simp add: tighter_def)
  have step: "tighter ?direct (combine_decisions ?direct x)"
    if "x = None \<or> x = Some decision.Ask \<or> (\<exists>r. x = Some (decision.Reject r))" for x
    using combine_tighter [OF self _ that, of None] by (simp add: decisions.combine_None_right)
  have tight: "tighter ?direct ?e"
    using evaluate_with_cwd_cases [of env ?p access cwd] self
      step [OF escalation_only_range] step [of "Some decision.Ask"] by metis
  have target: "rank_of decision_rank (escalation_only (evaluate_rules_with_base env ?p (access_with_path access t) ?base))
      \<le> rank_of decision_rank ?e" if "follow = FollowTarget t" for t
    using that assms
    by (simp add: evaluate_with_cwd_def evaluate_with_cwd_details_def Let_def decisions.rank_combine)
  have unres: "rank_of decision_rank (Some decision.Ask) \<le> rank_of decision_rank ?e"
    if "follow = Unresolvable" "native_path_restrictions_apply ?p access"
    using that assms
    by (simp add: evaluate_with_cwd_def evaluate_with_cwd_details_def Let_def decisions.rank_combine)
  have esc: "(some_applies env cfg a ?base rule_action.Deny \<longrightarrow>
        4 \<le> rank_of decision_rank (escalation_only (evaluate_rules_with_base env ?p a ?base))) \<and>
      (some_applies env cfg a ?base rule_action.Ask \<longrightarrow>
        3 \<le> rank_of decision_rank (escalation_only (evaluate_rules_with_base env ?p a ?base)))" for a
    using evaluate_rules_cases [of env cfg a ?base] by (auto simp: escalation_only_def)
  have "without_reason ?e = Some (decision.Reject [])"
    if "follow = FollowTarget t" "some_applies env cfg (access_with_path access t) ?base rule_action.Deny" for t
    by (rule rule_decision_reject [OF evaluate_with_cwd_decision])
      (use target [OF that(1)] esc [of "access_with_path access t"] that(2) in linarith)
  moreover have "rank_of decision_rank (Some decision.Ask) \<le> rank_of decision_rank ?e"
    if "follow = FollowTarget t" "some_applies env cfg (access_with_path access t) ?base rule_action.Ask" for t
    using target [OF that(1)] esc [of "access_with_path access t"] that(2) by simp
  ultimately show ?thesis using tight unres by blast
qed

text \<open>A file system in which \<open>/work/link\<close> leads to \<open>/etc/passwd\<close>.\<close>

definition linked_env :: policy_env where
  "linked_env = sample_env\<lparr>fs := empty_fs\<lparr>canonicalize :=
     (\<lambda>q. if q = ''/work/link'' then Some ''/etc/passwd'' else None)\<rparr>\<rparr>"

theorem symlinks_only_escalate_witness:
  "evaluate_rules_with_base linked_env (compiled_policy_new linked_env (permission_config_new
       [\<lparr>action = rule_action.Deny, tool = tool_filter.Read, pattern = Some ''/etc/passwd'', pattern_mode = Glob\<rparr>,
        \<lparr>action = rule_action.Allow, tool = tool_filter.Read, pattern = Some ''/work/link'', pattern_mode = Glob\<rparr>]))
       (access_kind.Read (Some ''link'')) (map_option rule_base_new (Some ''/work'')) = Some decision.Allow \<and>
   without_reason (evaluate_with_cwd linked_env (compiled_policy_new linked_env (permission_config_new
       [\<lparr>action = rule_action.Deny, tool = tool_filter.Read, pattern = Some ''/etc/passwd'', pattern_mode = Glob\<rparr>,
        \<lparr>action = rule_action.Allow, tool = tool_filter.Read, pattern = Some ''/work/link'', pattern_mode = Glob\<rparr>]))
       (access_kind.Read (Some ''link'')) (Some ''/work'')) = Some (decision.Reject [])"
proof
  let ?cfg = "permission_config_new
       [\<lparr>action = rule_action.Deny, tool = tool_filter.Read, pattern = Some ''/etc/passwd'', pattern_mode = Glob\<rparr>,
        \<lparr>action = rule_action.Allow, tool = tool_filter.Read, pattern = Some ''/work/link'', pattern_mode = Glob\<rparr>]"
  let ?access = "access_kind.Read (Some ''link'')" and ?base = "map_option rule_base_new (Some ''/work'')"
  show "evaluate_rules_with_base linked_env (compiled_policy_new linked_env ?cfg) ?access ?base = Some decision.Allow"
    by code_simp
  have "native_file_path ?access = Some ''link''" by code_simp
  moreover have "raw_absolute_tool_path ''link'' (Some ''/work'') = Some ''/work/link''" by code_simp
  moreover have "follow_absolute_symlink (fs linked_env) ''/work/link''
      (path_match_string (absolute_normalized_path ''link'' (Some ''/work''))) = FollowTarget ''/etc/passwd''" by code_simp
  moreover have "some_applies linked_env ?cfg (access_with_path ?access ''/etc/passwd'') ?base rule_action.Deny"
    by code_simp
  ultimately show "without_reason (evaluate_with_cwd linked_env (compiled_policy_new linked_env ?cfg) ?access (Some ''/work'')) =
      Some (decision.Reject [])"
    using symlinks_only_escalate by blast
qed

end
