(* ===== verification/Shell_Access.thy ===== *)
theory Shell_Access
  imports Perm_Policy Exec_Risk
begin

text \<open>
  Files a shell command touches (\<open>shell_access.rs\<close>): which operands and redirects of a script name files, whether they
  are read, written or created, and the gate that applies the \<open>Read\<close> and \<open>Edit\<close> rules to them. The gate only
  escalates: it rejects or asks, and never allows.

  A node's parent and next sibling are found on the way down: a node of a walk carries, for each of its
  ancestors from the nearest on, the sibling that follows and the ancestor. Paths and the working directory are UTF-8,
  so \<open>to_string_lossy\<close> keeps them. \<open>usize::MAX\<close> is that of a 64-bit machine.
\<close>

section \<open>Walking a tree\<close>

type_synonym located = "node \<times> (node option \<times> node) list"

fun with_next :: "'a list \<Rightarrow> ('a \<times> 'a option) list" where
  "with_next [] = []"
| "with_next [x] = [(x, None)]"
| "with_next (x # y # zs) = (x, Some y) # with_next (y # zs)"

definition located_children :: "located \<Rightarrow> located list" where
  "located_children l = map (\<lambda>(c, sib). (c, (sib, fst l) # snd l)) (with_next (children (fst l)))"

lemma with_next_fst [simp]: "map fst (with_next xs) = xs"
  by (induction xs rule: with_next.induct) simp_all

lemma located_children_fst [simp]: "map fst (located_children l) = children (fst l)"
  by (simp add: located_children_def comp_def case_prod_unfold)

text \<open>The nodes in the order an explicit stack visits them: the last child of a node first.\<close>

function walk :: "located list \<Rightarrow> located list" where
  "walk [] = []"
| "walk (l # stack) = l # walk (rev (located_children l) @ stack)"
  by pat_completeness auto
termination
proof (relation "measure (\<lambda>stack. stack_size (map fst stack))")
  fix l :: located and stack
  show "(rev (located_children l) @ stack, l # stack) \<in> measure (\<lambda>stack. stack_size (map fst stack))"
    by (simp add: rev_map [symmetric])
qed simp

definition walk_tree :: "node \<Rightarrow> located list" where
  "walk_tree root = walk [(root, [])]"

section \<open>Execution scopes\<close>

record exec_scope =
  scope_start :: nat
  scope_end :: nat

definition scope_contains :: "exec_scope \<Rightarrow> exec_scope \<Rightarrow> bool" where
  "scope_contains s other = (scope_start s \<le> scope_start other \<and> scope_end other \<le> scope_end s)"

definition node_scope :: "node \<Rightarrow> exec_scope" where
  "node_scope n = \<lparr>scope_start = start_byte n, scope_end = end_byte n\<rparr>"

fun execution_scope :: "node \<Rightarrow> (node option \<times> node) list \<Rightarrow> exec_scope" where
  "execution_scope current [] = \<lparr>scope_start = 0, scope_end = u64_max\<rparr>"
| "execution_scope current ((sibling, parent) # up) =
     (if (case sibling of Some s \<Rightarrow> kind s = ''&'' | None \<Rightarrow> False)
      then node_scope (if kind current = ''list'' then current else parent)
      else if kind parent \<in> {''subshell'', ''command_substitution'', ''process_substitution''} then node_scope parent
      else if kind parent = ''pipeline'' then node_scope current
      else execution_scope parent up)"

record cwd_poison =
  poison_at :: nat
  poison_scope :: exec_scope

abbreviation CHDIR_PROGRAMS :: "string set" where
  "CHDIR_PROGRAMS \<equiv> {''cd'', ''pushd'', ''popd''}"

definition poison_of :: "string \<Rightarrow> located \<Rightarrow> cwd_poison option" where
  "poison_of src l =
     (if kind (fst l) = ''command'' \<and>
         (case Option.bind (child_by_field_name (fst l) ''name'') (node_text src) of
            Some program \<Rightarrow> basename program \<in> CHDIR_PROGRAMS
          | None \<Rightarrow> False)
      then Some \<lparr>poison_at = start_byte (fst l), poison_scope = execution_scope (fst l) (snd l)\<rparr>
      else None)"

definition cwd_poison_positions :: "node \<Rightarrow> string \<Rightarrow> cwd_poison list" where
  "cwd_poison_positions root src = List.map_filter (poison_of src) (walk_tree root)"

definition script_has_cwd_change :: "node \<Rightarrow> string \<Rightarrow> bool" where
  "script_has_cwd_change root src = (cwd_poison_positions root src \<noteq> [])"

definition cwd_unpinned_before :: "cwd_poison list \<Rightarrow> nat \<Rightarrow> exec_scope \<Rightarrow> bool" where
  "cwd_unpinned_before positions at scope =
     list_ex (\<lambda>p. poison_at p < at \<and> (poison_scope p = scope \<or> scope_contains (poison_scope p) scope)) positions"

section \<open>Invocations\<close>

text \<open>\<open>InvocationWord\<close> owns its text and \<open>ShellWord\<close> borrows it; here they are one type.\<close>

record shell_invocation =
  inv_start :: nat
  inv_scope :: exec_scope
  inv_words :: "shell_word list"
  wrapper_words :: "string list"

definition operand_word :: "string \<Rightarrow> node \<Rightarrow> shell_word option" where
  "operand_word src child =
     (let operand =
        (if kind child = ''command_name''
         then Option.bind (nth_opt (named_children child) 0) (\<lambda>inner. shell_node_arg inner src)
         else shell_node_arg child src)
      in case operand of
           Some (ArgLiteral w) \<Rightarrow> Some (LiteralWord w)
         | Some Ambiguous \<Rightarrow> Some UntrustedWord
         | None \<Rightarrow> None)"

fun wrapper_word :: "shell_word \<Rightarrow> string" where
  "wrapper_word (LiteralWord w) = w"
| "wrapper_word UntrustedWord = nul_word"

definition invocation_of :: "string \<Rightarrow> located \<Rightarrow> shell_invocation option" where
  "invocation_of src l =
     (if kind (fst l) = ''command'' then
        let ws = List.map_filter (operand_word src) (named_children (fst l))
        in Some \<lparr>inv_start = start_byte (fst l), inv_scope = execution_scope (fst l) (snd l),
                 inv_words = ws, wrapper_words = map wrapper_word ws\<rparr>
      else None)"

definition shell_command_invocations :: "node \<Rightarrow> string \<Rightarrow> shell_invocation list" where
  "shell_command_invocations root src =
     sort_key inv_start (List.map_filter (invocation_of src) (walk_tree root))"

definition literal_words :: "shell_word list \<Rightarrow> string list" where
  "literal_words ws = List.map_filter (\<lambda>w. case w of LiteralWord s \<Rightarrow> Some s | UntrustedWord \<Rightarrow> None) ws"

record checked_invocation_peel =
  peeled_words :: "shell_word list"
  peeled_chdir :: bool
  peeled_split_string :: bool
  peeled_env_uncertain :: bool
  peeled_exhausted :: bool
  transparent_ambiguous :: bool

definition unwrap_invocation_checked :: "shell_invocation \<Rightarrow> checked_invocation_peel" where
  "unwrap_invocation_checked invocation =
     (let norm = normalize_command_words (wrapper_words invocation);
          peeled_count = length (wrapper_words invocation) - length (norm_words norm)
      in \<lparr>peeled_words = (if peeled_count \<le> length (inv_words invocation) then drop peeled_count (inv_words invocation) else []),
          peeled_chdir = norm_chdir norm, peeled_split_string = norm_split_string norm,
          peeled_env_uncertain = norm_env_uncertain norm, peeled_exhausted = norm_exhausted norm,
          transparent_ambiguous = norm_ambiguous norm\<rparr>)"

definition words_are_opaque_shell :: "shell_word list \<Rightarrow> bool" where
  "words_are_opaque_shell ws =
     (is_potential_inline (shell_dash_c_script ws) \<or>
      (case ws of LiteralWord program # _ \<Rightarrow> basename program = ''eval'' | _ \<Rightarrow> False))"

definition tree_has_opaque_shell :: "node \<Rightarrow> string \<Rightarrow> bool" where
  "tree_has_opaque_shell root src =
     list_ex (\<lambda>invocation. words_are_opaque_shell (peeled_words (unwrap_invocation_checked invocation)))
       (shell_command_invocations root src)"

section \<open>Redirects\<close>

datatype shell_file_mode = ReadMode | WriteMode | CreateMode

definition shell_arg_is_ambiguous :: "string \<Rightarrow> bool" where
  "shell_arg_is_ambiguous token = (CHR ''*'' \<in> set token \<or> CHR ''?'' \<in> set token \<or> CHR ''['' \<in> set token)"

text \<open>The kind of the redirection operator: the first child whose kind has an angle bracket; none for inline text.\<close>

fun redirect_operator :: "node list \<Rightarrow> string option" where
  "redirect_operator [] = None"
| "redirect_operator (c # cs) =
     (if contains_str (kind c) ''<<'' then None
      else if CHR ''>'' \<in> set (kind c) \<or> CHR ''<'' \<in> set (kind c) then Some (kind c)
      else redirect_operator cs)"

definition shell_redirect_one :: "node \<Rightarrow> string \<Rightarrow> (string option \<times> shell_file_mode \<times> bool) option" where
  "shell_redirect_one n src =
     (case redirect_operator (children n) of
        None \<Rightarrow> None
      | Some redirect \<Rightarrow>
          let mode = (if CHR ''>'' \<in> set redirect then WriteMode else ReadMode);
              duplicates_fd = (redirect = ''>&'' \<or> redirect = ''<&'')
          in case Option.bind (child_by_field_name n ''destination'') (\<lambda>dest. shell_node_arg dest src) of
               None \<Rightarrow> None
             | Some (ArgLiteral s) \<Rightarrow>
                 if s = [] \<or> starts_with s ''&'' \<or>
                    (duplicates_fd \<and> (s = ''-'' \<or> list_all is_ascii_digit s)) then None
                 else Some (Some s, mode, shell_arg_is_ambiguous s)
             | Some Ambiguous \<Rightarrow> Some (None, mode, True))"

record shell_redirect_target =
  red_path :: "string option"
  red_mode :: shell_file_mode
  red_ambiguous :: bool
  red_start :: nat
  red_scope :: exec_scope

definition redirect_of :: "string \<Rightarrow> located \<Rightarrow> shell_redirect_target option" where
  "redirect_of src l =
     (if kind (fst l) = ''file_redirect'' then
        map_option (\<lambda>(path, mode, ambiguous).
            \<lparr>red_path = path, red_mode = mode, red_ambiguous = ambiguous, red_start = start_byte (fst l),
             red_scope = execution_scope (fst l) (snd l)\<rparr>) (shell_redirect_one (fst l) src)
      else None)"

definition shell_redirect_targets :: "node \<Rightarrow> string \<Rightarrow> shell_redirect_target list" where
  "shell_redirect_targets root src = List.map_filter (redirect_of src) (walk_tree root)"

section \<open>Operands that name files\<close>

definition READER_PROGRAMS :: "string list" where
  "READER_PROGRAMS =
     [''cat'', ''tac'', ''nl'', ''head'', ''tail'', ''grep'', ''egrep'', ''fgrep'', ''rg'', ''sed'', ''awk'', ''less'', ''more'',
      ''bat'', ''strings'', ''xxd'', ''od'', ''hexdump'', ''base64'', ''base32'', ''cut'', ''sort'', ''uniq'', ''wc'', ''type'',
      ''get-content'', ''gc'', ''diff'', ''comm'', ''rev'', ''jq'', ''yq'', ''select-string'', ''sls'', ''ag'', ''ack'', ''zcat'',
      ''zless'', ''zmore'', ''zgrep'', ''zegrep'', ''zfgrep'', ''bzcat'', ''bzgrep'', ''xzcat'', ''xzgrep'', ''zstdcat'',
      ''lz4cat'']"

definition WRITER_PROGRAMS :: "string list" where
  "WRITER_PROGRAMS = [''tee'', ''set-content'', ''out-file'', ''add-content'', ''tee-object'', ''truncate'']"

definition shell_file_mode :: "string \<Rightarrow> shell_file_mode option" where
  "shell_file_mode program =
     (if program \<in> set READER_PROGRAMS then Some ReadMode
      else if program \<in> set WRITER_PROGRAMS then Some WriteMode
      else None)"

definition shell_sed_in_place :: "string list \<Rightarrow> bool" where
  "shell_sed_in_place ws =
     list_ex (\<lambda>w. w = ''--in-place'' \<or> starts_with w ''--in-place='' \<or>
                 (starts_with w ''-'' \<and> \<not> starts_with w ''--'' \<and> CHR ''i'' \<in> set w)) (drop 1 ws)"

definition output_flag_value :: "bool \<Rightarrow> string \<Rightarrow> string \<Rightarrow> string option" where
  "output_flag_value clustered_o token next_or_empty =
     (if starts_with token ''--'' then
        let (flag, attached) =
              (case split_once token (CHR ''='') of Some (f, v) \<Rightarrow> (f, Some v) | None \<Rightarrow> (token, None))
        in if is_accepted_long_option_prefix flag ''--output'' 3
           then Some (case attached of Some v \<Rightarrow> v | None \<Rightarrow> next_or_empty) else None
      else if token = ''-o'' then Some next_or_empty
      else case strip_prefix token ''-o'' of
        Some value \<Rightarrow> Some value
      | None \<Rightarrow>
          if \<not> clustered_o then None
          else case strip_prefix token ''-'' of
            None \<Rightarrow> None
          | Some flags \<Rightarrow>
              if flags = [] \<or> starts_with flags ''o'' \<or> CHR ''='' \<in> set flags then None
              else map_option (\<lambda>(_, after_o). if after_o = [] then next_or_empty else after_o)
                     (split_once flags (CHR ''o'')))"

fun shell_output_flag_values :: "string list \<Rightarrow> bool \<Rightarrow> string list" where
  "shell_output_flag_values [] clustered_o = []"
| "shell_output_flag_values (token # rest) clustered_o =
     (case output_flag_value clustered_o token (case rest of [] \<Rightarrow> [] | n # _ \<Rightarrow> n) of
        Some v \<Rightarrow> v # shell_output_flag_values rest clustered_o
      | None \<Rightarrow> shell_output_flag_values rest clustered_o)"

fun value_flag_values :: "string list \<Rightarrow> string \<Rightarrow> string list" where
  "value_flag_values [] flag = []"
| "value_flag_values (token # rest) flag =
     (case (case strip_prefix token (flag @ ''='') of
              Some v \<Rightarrow> Some v
            | None \<Rightarrow>
                if token = flag then nth_opt rest 0
                else if \<not> starts_with flag ''--'' then
                  (case strip_prefix token flag of Some v \<Rightarrow> if v \<noteq> [] then Some v else None | None \<Rightarrow> None)
                else None) of
        Some v \<Rightarrow> v # value_flag_values rest flag
      | None \<Rightarrow> value_flag_values rest flag)"

fun candidates_loop :: "bool \<Rightarrow> string list \<Rightarrow> string list" where
  "candidates_loop end_of_options [] = []"
| "candidates_loop end_of_options (token # rest) =
     (if \<not> end_of_options \<and> token = ''--'' then candidates_loop True rest
      else if end_of_options \<or> (token \<noteq> ''-'' \<and> \<not> starts_with token ''-'')
      then token # candidates_loop end_of_options rest
      else candidates_loop end_of_options rest)"

definition shell_file_candidates :: "string list \<Rightarrow> string list" where
  "shell_file_candidates ws = candidates_loop False (drop 1 ws)"

definition dd_operand :: "string \<Rightarrow> (string \<times> shell_file_mode) option" where
  "dd_operand token =
     (case strip_prefix token ''if='' of
        Some path \<Rightarrow> Some (path, ReadMode)
      | None \<Rightarrow> map_option (\<lambda>path. (path, WriteMode)) (strip_prefix token ''of=''))"

definition special_file_operands :: "string \<Rightarrow> string list \<Rightarrow> (string \<times> shell_file_mode) list" where
  "special_file_operands program ws =
     (if program = ''dd'' then List.map_filter dd_operand (drop 1 ws)
      else map (\<lambda>output. (output, WriteMode))
             (if program = ''sort'' then shell_output_flag_values ws True
              else if program = ''go'' \<or> program = ''git'' then shell_output_flag_values ws False
              else if program = ''rustc'' then shell_output_flag_values ws False @ value_flag_values ws ''--out-dir''
              else if program = ''rustfmt'' then shell_file_candidates ws
              else []))"

definition is_creation_program :: "string \<Rightarrow> bool" where
  "is_creation_program program = (program = ''mkdir'' \<or> program = ''touch'')"

definition shell_path_command_operands :: "string \<Rightarrow> string list \<Rightarrow> (string \<times> shell_file_mode) list option" where
  "shell_path_command_operands program ws =
     (let operands = shell_file_candidates ws
      in if program \<in> {''cp'', ''mv'', ''ln'', ''install''} then
           (if operands = [] then None
            else Some (map (\<lambda>s. (s, ReadMode)) (butlast operands) @ [(last operands, WriteMode)]))
         else if program = ''rm'' \<or> program = ''rmdir'' then Some (map (\<lambda>c. (c, WriteMode)) operands)
         else if is_creation_program program then Some (map (\<lambda>c. (c, CreateMode)) operands)
         else if program = ''uniq'' then
           (case operands of
              input # output # _ \<Rightarrow> Some [(input, ReadMode), (output, WriteMode)]
            | _ \<Rightarrow> None)
         else None)"

definition shell_access :: "shell_file_mode \<Rightarrow> string \<Rightarrow> access_kind" where
  "shell_access mode path =
     (case mode of ReadMode \<Rightarrow> access_kind.Read (Some path) | _ \<Rightarrow> access_kind.Edit path)"

definition is_directory_operand :: "string \<Rightarrow> bool" where
  "is_directory_operand token = (token = ''.'' \<or> token = ''..'' \<or> ends_with token [slash])"

definition shell_reader_can_recurse :: "string \<Rightarrow> string list \<Rightarrow> string list \<Rightarrow> bool" where
  "shell_reader_can_recurse program ws candidates =
     ((program \<in> {''grep'', ''egrep'', ''fgrep''} \<and>
       list_ex (\<lambda>w. w = ''--recursive'' \<or> w = ''--dereference-recursive'' \<or>
                   (starts_with w ''-'' \<and> \<not> starts_with w ''--'' \<and> (CHR ''r'' \<in> set w \<or> CHR ''R'' \<in> set w))) ws) \<or>
      (program \<in> {''rg'', ''ag'', ''ack''} \<and>
       (length candidates \<le> 1 \<or> list_ex is_directory_operand (drop 1 candidates))))"

section \<open>Spellings of a path\<close>

definition is_absolute_shell_path :: "string \<Rightarrow> bool" where
  "is_absolute_shell_path path =
     (starts_with path [slash] \<or> starts_with path ''~/'' \<or> nth_opt path 1 = Some (CHR '':''))"

definition normalize_shell_path_raw :: "string \<Rightarrow> string" where
  "normalize_shell_path_raw path =
     (let p = path_match_string (trim_matches (\<lambda>c. c = double_quote \<or> c = single_quote) path)
      in case strip_prefix p ''/c/'' of Some rest \<Rightarrow> ''C:/'' @ rest | None \<Rightarrow> p)"

definition normalize_segment :: "bool \<Rightarrow> string list \<Rightarrow> string \<Rightarrow> string list" where
  "normalize_segment absolute out segment =
     (if segment = [] \<or> segment = ''.'' then out
      else if segment = ''..'' then
        (if out \<noteq> [] \<and> last out \<noteq> ''..'' then butlast out
         else if \<not> absolute then out @ [''..'']
         else out)
      else out @ [segment])"

definition lexical_normalize :: "string \<Rightarrow> string" where
  "lexical_normalize path =
     (let prefix_len = (if nth_opt path 1 = Some (CHR '':'') then 2 else 0);
          pre = take prefix_len path;
          rest = drop prefix_len path;
          absolute = starts_with rest [slash];
          body = join [slash] (foldl (normalize_segment absolute) [] (split_slash rest))
      in if pre \<noteq> [] then
           (if absolute then pre @ [slash] @ body else pre @ body)
         else if absolute then [slash] @ body
         else body)"

definition normalize_shell_path :: "string \<Rightarrow> string" where
  "normalize_shell_path path = lexical_normalize (normalize_shell_path_raw path)"

section \<open>The gate\<close>

definition file_escalate ::
  "policy_env \<Rightarrow> compiled_policy \<Rightarrow> access_kind \<Rightarrow> rule_base option \<Rightarrow> gate_decision option" where
  "file_escalate env p access rule_base =
     (case evaluate_rules_with_base env p access rule_base of
        Some (decision.Reject reason) \<Rightarrow> Some (GateReject reason)
      | Some decision.Ask \<Rightarrow> Some AskRuleMatch
      | _ \<Rightarrow> None)"

definition anchored_path :: "rule_base \<Rightarrow> string \<Rightarrow> string" where
  "anchored_path base path =
     (if is_absolute_shell_path path then path
      else normalize_shell_path (push_path (lexical base) path))"

text \<open>The uncollapsed absolute spelling that symlinks are followed from; none for a relative operand when the
  working directory is unknown.\<close>

definition raw_absolute_operand :: "rule_base \<Rightarrow> bool \<Rightarrow> string \<Rightarrow> string option" where
  "raw_absolute_operand base cwd_unpinned raw =
     (if is_absolute_shell_path raw then Some raw
      else if cwd_unpinned then None
      else Some (normalize_shell_path_raw (push_path (lexical base) raw)))"

definition resolved_decision ::
  "policy_env \<Rightarrow> compiled_policy \<Rightarrow> shell_file_mode \<Rightarrow> rule_base option \<Rightarrow> string \<Rightarrow> bool \<Rightarrow> string \<Rightarrow>
   gate_decision option" where
  "resolved_decision env p mode rule_base raw_absolute has_parent_dir absolute =
     (case follow_absolute_symlink (fs env) raw_absolute absolute of
        FollowTarget resolved \<Rightarrow> file_escalate env p (shell_access mode resolved) rule_base
      | FollowNone \<Rightarrow>
          if has_parent_dir then file_escalate env p (shell_access mode absolute) rule_base else None
      | Unresolvable \<Rightarrow> Some AskFailClosed)"

definition evaluate_shell_path ::
  "policy_env \<Rightarrow> compiled_policy \<Rightarrow> rule_base \<Rightarrow> bool \<Rightarrow> string \<times> shell_file_mode \<Rightarrow> gate_decision option" where
  "evaluate_shell_path env p base cwd_unpinned operand =
     (let (token, mode) = operand;
          path = normalize_shell_path token;
          raw = normalize_shell_path_raw token;
          absolute_spelling = is_absolute_shell_path path;
          rule_base = (if absolute_spelling \<or> \<not> cwd_unpinned then Some base else None);
          has_parent_dir = path_has_parent_dir raw;
          path_rule_base = map_option (\<lambda>b. if has_parent_dir then without_physical base else b) rule_base;
          resolved = Option.bind (raw_absolute_operand base cwd_unpinned raw)
            (\<lambda>raw_absolute.
               resolved_decision env p mode rule_base raw_absolute has_parent_dir (anchored_path base path));
          path_decision = file_escalate env p (shell_access mode path) path_rule_base;
          anchored_decision =
            (if cwd_unpinned \<and> \<not> absolute_spelling then None
             else combine_gate_decisions
                    (file_escalate env p (shell_access mode (anchored_path base path)) path_rule_base) resolved)
      in combine_gate_decisions (combine_gate_decisions path_decision anchored_decision)
           (if cwd_unpinned \<and> \<not> absolute_spelling then Some AskFailClosed else None))"

text \<open>The two variables of the gate: the decision so far and whether it must at least ask.\<close>

type_synonym gate_state = "gate_decision option \<times> bool"

definition check_operand ::
  "policy_env \<Rightarrow> compiled_policy \<Rightarrow> rule_base \<Rightarrow> bool \<Rightarrow> string \<times> shell_file_mode \<Rightarrow> gate_state \<Rightarrow> gate_state" where
  "check_operand env p base cwd_unpinned operand s =
     (combine_gate_decisions (fst s) (evaluate_shell_path env p base cwd_unpinned operand),
      snd s \<or> shell_arg_is_ambiguous (fst operand))"

definition redirect_step ::
  "policy_env \<Rightarrow> compiled_policy \<Rightarrow> rule_base \<Rightarrow> bool \<Rightarrow> cwd_poison list \<Rightarrow> shell_redirect_target \<Rightarrow>
   gate_state \<Rightarrow> gate_state" where
  "redirect_step env p base cwd_unpinned cwd_changes r s =
     (let unpinned = cwd_unpinned \<or> cwd_unpinned_before cwd_changes (red_start r) (red_scope r)
      in (case red_path r of
            None \<Rightarrow> fst s
          | Some path \<Rightarrow>
              combine_gate_decisions (fst s) (evaluate_shell_path env p base unpinned (path, red_mode r)),
          snd s \<or> red_ambiguous r))"

definition operand_modes :: "string \<Rightarrow> string list \<Rightarrow> shell_file_mode list" where
  "operand_modes program ws =
     (case shell_file_mode program of
        None \<Rightarrow> []
      | Some m \<Rightarrow>
          if program = ''sed'' \<and> shell_sed_in_place ws then [ReadMode, WriteMode]
          else if m = CreateMode then []
          else [m])"

text \<open>The operands of the program once wrappers and prefixes are peeled off.\<close>

definition program_step ::
  "policy_env \<Rightarrow> compiled_policy \<Rightarrow> rule_base \<Rightarrow> bool \<Rightarrow> bool \<Rightarrow> shell_word list \<Rightarrow> string \<Rightarrow> gate_state \<Rightarrow>
   gate_state" where
  "program_step env p base parse_failed unpinned ws program s =
     (if program \<in> CHDIR_PROGRAMS then s
      else
        let lits = literal_words ws;
            candidates = shell_file_candidates lits;
            path_operands = shell_path_command_operands program lits;
            is_known = (program = ''dd'' \<or> shell_file_mode program \<noteq> None \<or> path_operands \<noteq> None);
            s1 = (fst s, snd s \<or> (is_known \<and> (unpinned \<or> UntrustedWord \<in> set ws \<or> parse_failed)));
            s2 = fold (check_operand env p base unpinned) (special_file_operands program lits) s1
        in if program = ''dd'' then s2
           else case path_operands of
             Some operands \<Rightarrow> fold (check_operand env p base unpinned) operands s2
           | None \<Rightarrow>
               let modes = operand_modes program lits
               in if modes = [] then s2
                  else
                    let s3 = fold (\<lambda>token. fold (\<lambda>mode. check_operand env p base unpinned (token, mode)) modes)
                               candidates s2
                    in (fst s3, snd s3 \<or> shell_reader_can_recurse program lits candidates))"

text \<open>\<open>inner\<close> is the gate for an inline script with one level less, \<open>None\<close> when the levels are used up.\<close>

definition inline_step ::
  "(string \<Rightarrow> bool \<Rightarrow> gate_decision option) option \<Rightarrow> bool \<Rightarrow> bool \<Rightarrow> shell_word list \<Rightarrow> gate_state \<Rightarrow> gate_state" where
  "inline_step inner parse_failed unpinned ws s =
     (let script = shell_dash_c_script ws;
          forced = (snd s \<or> (parse_failed \<and> script \<noteq> NotInline))
      in case script of
           InlineLiteral index \<Rightarrow>
             (case inner of
                None \<Rightarrow> (fst s, True)
              | Some gate \<Rightarrow>
                  (case nth_opt ws index of
                     Some (LiteralWord text) \<Rightarrow> (combine_gate_decisions (fst s) (gate text unpinned), forced)
                   | _ \<Rightarrow> (fst s, forced)))
         | NotInline \<Rightarrow> (fst s, forced)
         | _ \<Rightarrow> (fst s, True))"

definition invocation_step ::
  "policy_env \<Rightarrow> compiled_policy \<Rightarrow> rule_base \<Rightarrow> (string \<Rightarrow> bool \<Rightarrow> gate_decision option) option \<Rightarrow> bool \<Rightarrow> bool \<Rightarrow>
   cwd_poison list \<Rightarrow> shell_invocation \<Rightarrow> gate_state \<Rightarrow> gate_state" where
  "invocation_step env p base inner parse_failed cwd_unpinned cwd_changes invocation s =
     (let peeled = unwrap_invocation_checked invocation;
          ws = peeled_words peeled;
          unpinned = (cwd_unpinned \<or> cwd_unpinned_before cwd_changes (inv_start invocation) (inv_scope invocation) \<or>
                      peeled_chdir peeled);
          s1 = (fst s, snd s \<or> peeled_exhausted peeled \<or> peeled_split_string peeled \<or>
                       peeled_env_uncertain peeled \<or> transparent_ambiguous peeled);
          s2 = inline_step inner parse_failed unpinned ws s1
      in case ws of
           LiteralWord program # _ \<Rightarrow>
             program_step env p base parse_failed unpinned ws (to_ascii_lowercase (basename program)) s2
         | _ \<Rightarrow> s2)"

definition file_access_gate ::
  "policy_env \<Rightarrow> compiled_policy \<Rightarrow> rule_base \<Rightarrow> (string \<Rightarrow> bool \<Rightarrow> gate_decision option) option \<Rightarrow> bool \<Rightarrow>
   string \<Rightarrow> bool \<Rightarrow> gate_decision option" where
  "file_access_gate env p base inner entered_inline cmd cwd_unpinned =
     (case try_parse_shell env cmd of
        None \<Rightarrow> if entered_inline then Some AskFailClosed else None
      | Some root \<Rightarrow>
          let parse_failed = has_error root;
              cwd_changes = cwd_poison_positions root cmd;
              s0 = (None, entered_inline \<and> parse_failed);
              s1 = fold (redirect_step env p base cwd_unpinned cwd_changes) (shell_redirect_targets root cmd) s0;
              s2 = fold (invocation_step env p base inner parse_failed cwd_unpinned cwd_changes)
                     (shell_command_invocations root cmd) s1
          in combine_gate_decisions (fst s2) (if snd s2 then Some AskFailClosed else None))"

fun evaluate_shell_file_access_inner ::
  "policy_env \<Rightarrow> compiled_policy \<Rightarrow> rule_base \<Rightarrow> nat \<Rightarrow> bool \<Rightarrow> string \<Rightarrow> bool \<Rightarrow> gate_decision option" where
  "evaluate_shell_file_access_inner env p base 0 entered cmd unpinned =
     file_access_gate env p base None entered cmd unpinned"
| "evaluate_shell_file_access_inner env p base (Suc depth) entered cmd unpinned =
     file_access_gate env p base (Some (evaluate_shell_file_access_inner env p base depth True)) entered cmd unpinned"

definition evaluate_shell_file_access_gate ::
  "policy_env \<Rightarrow> compiled_policy \<Rightarrow> string \<Rightarrow> string \<Rightarrow> gate_decision option" where
  "evaluate_shell_file_access_gate env p cmd cwd =
     (if \<not> has_file_restrictions p then None
      else evaluate_shell_file_access_inner env p (rule_base_new cwd) MAX_INLINE_SHELL_DEPTH False cmd False)"

definition evaluate_shell_file_access :: "policy_env \<Rightarrow> compiled_policy \<Rightarrow> string \<Rightarrow> string \<Rightarrow> decision option" where
  "evaluate_shell_file_access env p cmd cwd =
     map_option into_decision (evaluate_shell_file_access_gate env p cmd cwd)"

section \<open>Paths a command writes\<close>

definition is_write :: "shell_file_mode \<Rightarrow> bool" where
  "is_write mode = (mode = WriteMode)"

definition command_words_write_paths :: "string list \<Rightarrow> string list" where
  "command_words_write_paths ws =
     (let inner = unwrap_wrappers ws
      in case inner of
           [] \<Rightarrow> []
         | w # _ \<Rightarrow>
             let program = to_ascii_lowercase (basename w);
                 special = map fst (filter (is_write \<circ> snd) (special_file_operands program inner))
             in case shell_path_command_operands program inner of
                  Some operands \<Rightarrow> special @ map fst (filter (is_write \<circ> snd) operands)
                | None \<Rightarrow>
                    special @
                    (if shell_file_mode program = Some WriteMode \<or> (program = ''sed'' \<and> shell_sed_in_place inner)
                     then shell_file_candidates inner else []))"

definition command_words_creation_paths :: "string list \<Rightarrow> string list" where
  "command_words_creation_paths ws =
     (let inner = unwrap_wrappers ws
      in case inner of
           [] \<Rightarrow> []
         | w # _ \<Rightarrow>
             (case shell_path_command_operands (to_ascii_lowercase (basename w)) inner of
                None \<Rightarrow> []
              | Some operands \<Rightarrow> map fst (filter (\<lambda>o'. snd o' = CreateMode) operands)))"

record write_paths_split =
  redirect_paths :: "string list"
  unextracted_write_redirect :: bool
  word_paths :: "string list"
  creation_paths :: "string list"

definition command_write_paths_split :: "node \<Rightarrow> string \<Rightarrow> write_paths_split" where
  "command_write_paths_split root src =
     (let writes = filter (is_write \<circ> red_mode) (shell_redirect_targets root src);
          commands = map (literal_words \<circ> inv_words) (shell_command_invocations root src)
      in \<lparr>redirect_paths = List.map_filter red_path writes,
          unextracted_write_redirect = list_ex (\<lambda>r. red_path r = None) writes,
          word_paths = concat (map command_words_write_paths commands),
          creation_paths = concat (map command_words_creation_paths commands)\<rparr>)"

definition command_write_paths_in_tree :: "node \<Rightarrow> string \<Rightarrow> string list" where
  "command_write_paths_in_tree root src =
     (let split = command_write_paths_split root src in redirect_paths split @ word_paths split)"

definition is_safe_write_sink :: "string \<Rightarrow> bool" where
  "is_safe_write_sink path = (path = ''/dev/null'' \<or> path = ''/dev/stdout'' \<or> path = ''/dev/stderr'')"

end
