(* ===== verification/Shell_Guarantees.thy ===== *)
theory Shell_Guarantees
  imports Perm_Guarantees Shell_Access
begin

text \<open>
  What the file gate of a shell command guarantees: no operand it recognises escapes the rules, however deep the script
  is nested, operands that cannot be pinned down make it ask, restrictions only tighten it, and the list of written
  paths agrees with what the gate checks.
\<close>

section \<open>Steps that only escalate\<close>

definition state_le :: "gate_state \<Rightarrow> gate_state \<Rightarrow> bool" where
  "state_le a b = (gate_le (fst a) (fst b) \<and> (snd a \<longrightarrow> snd b))"

lemma state_le_refl [simp]: "state_le a a"
  by (simp add: state_le_def)

lemma state_le_trans: "state_le a b \<Longrightarrow> state_le b c \<Longrightarrow> state_le a c"
  by (auto simp: state_le_def)

locale escalating =
  fixes step :: "'x \<Rightarrow> gate_state \<Rightarrow> gate_state"
  assumes step_grows: "state_le s (step x s)"
begin

lemma fold_grows: "state_le s (fold step xs s)"
proof (induction xs arbitrary: s)
  case (Cons x xs)
  show ?case using state_le_trans [OF step_grows Cons.IH] by simp
qed simp

lemma fold_member:
  assumes "x \<in> set xs" and "\<And>t. state_le a (step x t)"
  shows "state_le a (fold step xs s)"
proof -
  obtain ys zs where "xs = ys @ x # zs" using assms(1) by (auto dest: split_list)
  then have "fold step xs s = fold step zs (step x (fold step ys s))" by simp
  then show ?thesis using state_le_trans [OF assms(2) fold_grows] by simp
qed

end

interpretation operands: escalating "check_operand env p base unpinned" for env p base unpinned
  by unfold_locales (simp add: state_le_def check_operand_def gate.rank_combine)

interpretation redirects: escalating "redirect_step env p base unpinned changes" for env p base unpinned changes
  by unfold_locales (simp add: state_le_def redirect_step_def gate.rank_combine Let_def split: option.split)

section \<open>The operands of a command\<close>

definition program_operands :: "string \<Rightarrow> string list \<Rightarrow> (string \<times> shell_file_mode) list" where
  "program_operands program lits =
     (if program \<in> CHDIR_PROGRAMS then []
      else special_file_operands program lits @
        (if program = ''dd'' then []
         else case shell_path_command_operands program lits of
           Some operands \<Rightarrow> operands
         | None \<Rightarrow> concat (map (\<lambda>token. map (Pair token) (operand_modes program lits)) (shell_file_candidates lits))))"

definition invocation_program :: "shell_word list \<Rightarrow> string option" where
  "invocation_program ws =
     (case ws of LiteralWord program # _ \<Rightarrow> Some (to_ascii_lowercase (basename program)) | _ \<Rightarrow> None)"

definition invocation_operands :: "shell_word list \<Rightarrow> (string \<times> shell_file_mode) list" where
  "invocation_operands ws =
     (case invocation_program ws of None \<Rightarrow> [] | Some program \<Rightarrow> program_operands program (literal_words ws))"

lemma concat_map_Nil [simp]: "concat (map (\<lambda>_. []) xs) = []"
  by (induction xs) simp_all

lemma fold_modes:
  "fold (\<lambda>token. fold (\<lambda>mode. f (token, mode)) modes) tokens s =
   fold f (concat (map (\<lambda>token. map (Pair token) modes) tokens)) s"
  by (induction tokens arbitrary: s) (simp_all add: fold_map comp_def)

text \<open>A program's step checks its operands one after the other and may demand a question.\<close>

lemma state_le_flag: "state_le s (fst s, snd s \<or> b)"
  by (simp add: state_le_def)

text \<open>When the program's operands cannot be pinned down.\<close>

definition program_asks :: "bool \<Rightarrow> bool \<Rightarrow> shell_word list \<Rightarrow> string \<Rightarrow> bool" where
  "program_asks pf unpinned ws program =
     ((program = ''dd'' \<or> shell_file_mode program \<noteq> None \<or>
       shell_path_command_operands program (literal_words ws) \<noteq> None) \<and>
      (unpinned \<or> UntrustedWord \<in> set ws \<or> pf))"

definition program_recurses :: "string \<Rightarrow> string list \<Rightarrow> bool" where
  "program_recurses program lits =
     (program \<noteq> ''dd'' \<and> shell_path_command_operands program lits = None \<and> operand_modes program lits \<noteq> [] \<and>
      shell_reader_can_recurse program lits (shell_file_candidates lits))"

lemma program_step_eq:
  assumes "program \<notin> CHDIR_PROGRAMS"
  shows "program_step env p base pf unpinned ws program s =
    (let t = fold (check_operand env p base unpinned) (program_operands program (literal_words ws))
               (fst s, snd s \<or> program_asks pf unpinned ws program)
     in (fst t, snd t \<or> program_recurses program (literal_words ws)))"
proof (cases "program = ''dd''")
  case True
  then show ?thesis
    by (simp add: program_step_def program_operands_def program_asks_def program_recurses_def)
next
  case False
  then show ?thesis
    using assms
    by (cases "shell_path_command_operands program (literal_words ws)")
      (auto simp add: program_step_def program_operands_def program_asks_def program_recurses_def Let_def fold_modes)
qed

lemma program_step_grows: "state_le s (program_step env p base pf unpinned ws program s)"
proof (cases "program \<in> CHDIR_PROGRAMS")
  case True
  then show ?thesis by (simp add: program_step_def)
next
  case False
  show ?thesis
    unfolding program_step_eq [OF False] Let_def
    by (rule state_le_trans [OF state_le_flag state_le_trans [OF operands.fold_grows state_le_flag]])
qed

lemma program_step_operand:
  assumes "operand \<in> set (program_operands program (literal_words ws))"
  shows "state_le (evaluate_shell_path env p base unpinned operand, shell_arg_is_ambiguous (fst operand))
    (program_step env p base pf unpinned ws program s)"
proof -
  have "program \<notin> CHDIR_PROGRAMS" using assms by (auto simp: program_operands_def)
  then show ?thesis
    unfolding program_step_eq [OF \<open>program \<notin> CHDIR_PROGRAMS\<close>] Let_def
    by (intro state_le_trans [OF operands.fold_member [OF assms] state_le_flag])
      (simp add: state_le_def check_operand_def gate.rank_combine)
qed

lemma program_step_asks:
  assumes "program \<notin> CHDIR_PROGRAMS"
    and "program_asks pf unpinned ws program \<or> program_recurses program (literal_words ws)"
  shows "snd (program_step env p base pf unpinned ws program s)"
  using assms(2) operands.fold_grows [of "(fst s, snd s \<or> program_asks pf unpinned ws program)"]
  by (auto simp: program_step_eq [OF assms(1)] Let_def state_le_def)

lemma inline_step_grows: "state_le s (inline_step inner pf unpinned ws s)"
  by (auto simp: inline_step_def state_le_def Let_def gate.rank_combine
      split: inline_shell_script.split option.split shell_word.split)

definition invocation_unpinned :: "bool \<Rightarrow> cwd_poison list \<Rightarrow> shell_invocation \<Rightarrow> bool" where
  "invocation_unpinned unpinned changes invocation =
     (unpinned \<or> cwd_unpinned_before changes (inv_start invocation) (inv_scope invocation) \<or>
      peeled_chdir (unwrap_invocation_checked invocation))"

abbreviation run_words :: "shell_invocation \<Rightarrow> shell_word list" where
  "run_words invocation \<equiv> peeled_words (unwrap_invocation_checked invocation)"

text \<open>The step of an invocation in terms of its program.\<close>

lemma invocation_step_eq:
  "invocation_step env p base inner pf unpinned changes invocation s =
     (let u = invocation_unpinned unpinned changes invocation;
          ws = run_words invocation;
          peeled = unwrap_invocation_checked invocation;
          s2 = inline_step inner pf u ws (fst s, snd s \<or> peeled_exhausted peeled \<or> peeled_split_string peeled \<or>
                 peeled_env_uncertain peeled \<or> transparent_ambiguous peeled)
      in case invocation_program ws of
           Some program \<Rightarrow> program_step env p base pf u ws program s2
         | None \<Rightarrow> s2)"
  by (simp add: invocation_step_def invocation_unpinned_def invocation_program_def Let_def
      split: list.split shell_word.split)

interpretation invocations: escalating "invocation_step env p base inner pf unpinned changes"
  for env p base inner pf unpinned changes
  by unfold_locales
    (auto simp: invocation_step_eq Let_def split: option.split
      intro: state_le_trans [OF state_le_flag inline_step_grows]
        state_le_trans [OF state_le_trans [OF state_le_flag inline_step_grows] program_step_grows])

lemma invocation_step_operand:
  assumes "operand \<in> set (invocation_operands (run_words invocation))"
  shows "state_le (evaluate_shell_path env p base (invocation_unpinned unpinned changes invocation) operand,
      shell_arg_is_ambiguous (fst operand))
    (invocation_step env p base inner pf unpinned changes invocation s)"
proof -
  obtain program where "invocation_program (run_words invocation) = Some program"
    "operand \<in> set (program_operands program (literal_words (run_words invocation)))"
    using assms by (cases "invocation_program (run_words invocation)") (simp_all add: invocation_operands_def)
  then show ?thesis by (simp add: invocation_step_eq Let_def program_step_operand)
qed

lemma invocation_step_after_inline:
  obtains s1 where "state_le (inline_step inner pf (invocation_unpinned unpinned changes invocation) (run_words invocation) s1)
      (invocation_step env p base inner pf unpinned changes invocation s)"
proof (rule that)
  show "state_le (inline_step inner pf (invocation_unpinned unpinned changes invocation) (run_words invocation)
      (fst s, snd s \<or> peeled_exhausted (unwrap_invocation_checked invocation) \<or>
        peeled_split_string (unwrap_invocation_checked invocation) \<or>
        peeled_env_uncertain (unwrap_invocation_checked invocation) \<or>
        transparent_ambiguous (unwrap_invocation_checked invocation)))
      (invocation_step env p base inner pf unpinned changes invocation s)"
    by (simp add: invocation_step_eq Let_def program_step_grows split: option.split)
qed

section \<open>The files a script touches\<close>

text \<open>
  \<open>touches env d cmd u operand v\<close>: run with its working directory known unless \<open>u\<close>, the script \<open>cmd\<close> has a redirect to
  \<open>operand\<close>, or a command with that operand once wrappers and prefixes are peeled off, directly or in a literal
  \<open>shell -c\<close> script nested at most \<open>d\<close> levels deep; \<open>v\<close> says that the working directory is unknown there.
\<close>

inductive touches ::
  "policy_env \<Rightarrow> nat \<Rightarrow> string \<Rightarrow> bool \<Rightarrow> string \<times> shell_file_mode \<Rightarrow> bool \<Rightarrow> bool" for env where
  redirect: "try_parse_shell env cmd = Some root \<Longrightarrow> r \<in> set (shell_redirect_targets root cmd) \<Longrightarrow>
    red_path r = Some path \<Longrightarrow>
    touches env d cmd u (path, red_mode r)
      (u \<or> cwd_unpinned_before (cwd_poison_positions root cmd) (red_start r) (red_scope r))"
| operand: "try_parse_shell env cmd = Some root \<Longrightarrow> invocation \<in> set (shell_command_invocations root cmd) \<Longrightarrow>
    operand \<in> set (invocation_operands (run_words invocation)) \<Longrightarrow>
    touches env d cmd u operand (invocation_unpinned u (cwd_poison_positions root cmd) invocation)"
| inline: "try_parse_shell env cmd = Some root \<Longrightarrow> invocation \<in> set (shell_command_invocations root cmd) \<Longrightarrow>
    shell_dash_c_script (run_words invocation) = InlineLiteral i \<Longrightarrow>
    nth_opt (run_words invocation) i = Some (LiteralWord script) \<Longrightarrow>
    touches env d script (invocation_unpinned u (cwd_poison_positions root cmd) invocation) operand v \<Longrightarrow>
    touches env (Suc d) cmd u operand v"

lemma touches_deeper: "touches env d cmd u operand v \<Longrightarrow> d \<le> d' \<Longrightarrow> touches env d' cmd u operand v"
proof (induction arbitrary: d' rule: touches.induct)
  case (inline cmd root invocation i script d u operand v)
  then show ?case using touches.inline by (cases d') auto
qed (auto intro: touches.redirect touches.operand)

lemma final_gate:
  "state_le a s \<Longrightarrow> gate_le (fst a) (combine_gate_decisions (fst s) (if snd s then Some AskFailClosed else None)) \<and>
   (snd a \<longrightarrow> gate_le (Some AskFailClosed) (combine_gate_decisions (fst s) (if snd s then Some AskFailClosed else None)))"
  by (auto simp: state_le_def gate.rank_combine)

lemma file_access_gate_redirect:
  assumes "try_parse_shell env cmd = Some root" and "r \<in> set (shell_redirect_targets root cmd)"
    and "\<And>t. state_le a (redirect_step env p base u (cwd_poison_positions root cmd) r t)"
  shows "gate_le (fst a) (file_access_gate env p base inner entered cmd u) \<and>
    (snd a \<longrightarrow> gate_le (Some AskFailClosed) (file_access_gate env p base inner entered cmd u))"
proof -
  have "state_le a (fold (redirect_step env p base u (cwd_poison_positions root cmd)) (shell_redirect_targets root cmd) s)" for s
    by (rule redirects.fold_member [OF assms(2,3)])
  from final_gate [OF state_le_trans [OF this invocations.fold_grows]] show ?thesis
    by (simp add: file_access_gate_def assms(1) Let_def)
qed

lemma file_access_gate_invocation:
  assumes "try_parse_shell env cmd = Some root" and "invocation \<in> set (shell_command_invocations root cmd)"
    and "\<And>t. state_le a (invocation_step env p base inner (has_error root) u (cwd_poison_positions root cmd) invocation t)"
  shows "gate_le (fst a) (file_access_gate env p base inner entered cmd u) \<and>
    (snd a \<longrightarrow> gate_le (Some AskFailClosed) (file_access_gate env p base inner entered cmd u))"
  using final_gate [OF invocations.fold_member [OF assms(2,3)]]
  by (simp add: file_access_gate_def assms(1) Let_def)

lemma file_access_inner_eq:
  "evaluate_shell_file_access_inner env p base d entered cmd u =
   file_access_gate env p base
     (case d of 0 \<Rightarrow> None | Suc d' \<Rightarrow> Some (evaluate_shell_file_access_inner env p base d' True)) entered cmd u"
  by (cases d) simp_all

lemma file_access_gate_nested:
  assumes "try_parse_shell env cmd = Some root" and "invocation \<in> set (shell_command_invocations root cmd)"
    and "shell_dash_c_script (run_words invocation) = InlineLiteral i"
    and "nth_opt (run_words invocation) i = Some (LiteralWord script)"
  shows "gate_le (evaluate_shell_file_access_inner env p base d True script
        (invocation_unpinned u (cwd_poison_positions root cmd) invocation))
      (evaluate_shell_file_access_inner env p base (Suc d) entered cmd u)"
    and "gate_le (Some AskFailClosed) (evaluate_shell_file_access_inner env p base 0 entered cmd u)"
proof -
  let ?u = "invocation_unpinned u (cwd_poison_positions root cmd) invocation"
  let ?inner = "evaluate_shell_file_access_inner env p base d True"
  have deeper: "state_le (?inner script ?u, False) (inline_step (Some ?inner) pf ?u (run_words invocation) t)" for pf t
    by (simp add: inline_step_def assms(3,4) state_le_def gate.rank_combine)
  have "state_le (?inner script ?u, False)
      (invocation_step env p base (Some ?inner) (has_error root) u (cwd_poison_positions root cmd) invocation t)" for t
    by (rule invocation_step_after_inline) (rule state_le_trans [OF deeper])
  from file_access_gate_invocation [OF assms(1,2) this]
  show "gate_le (?inner script ?u) (evaluate_shell_file_access_inner env p base (Suc d) entered cmd u)" by simp
  have last: "state_le (None, True) (inline_step None pf ?u (run_words invocation) t)" for pf t
    by (simp add: inline_step_def assms(3) state_le_def)
  have "state_le (None, True)
      (invocation_step env p base None (has_error root) u (cwd_poison_positions root cmd) invocation t)" for t
    by (rule invocation_step_after_inline) (rule state_le_trans [OF last])
  from file_access_gate_invocation [OF assms(1,2) this]
  show "gate_le (Some AskFailClosed) (evaluate_shell_file_access_inner env p base 0 entered cmd u)" by simp
qed

lemma file_access_touches:
  assumes "touches env d cmd u operand v"
  shows "gate_le (evaluate_shell_path env p base v operand) (evaluate_shell_file_access_inner env p base d entered cmd u)"
  using assms
proof (induction arbitrary: entered rule: touches.induct)
  case (redirect cmd root r path d u)
  let ?v = "u \<or> cwd_unpinned_before (cwd_poison_positions root cmd) (red_start r) (red_scope r)"
  have "state_le (evaluate_shell_path env p base ?v (path, red_mode r), False)
      (redirect_step env p base u (cwd_poison_positions root cmd) r t)" for t
    using redirect(3) by (simp add: state_le_def redirect_step_def gate.rank_combine)
  from file_access_gate_redirect [OF redirect(1,2) this] show ?case by (simp add: file_access_inner_eq)
next
  case (operand cmd root invocation operand d u)
  from file_access_gate_invocation [OF operand(1,2) invocation_step_operand [OF operand(3)]]
  show ?case by (simp add: file_access_inner_eq)
next
  case (inline cmd root invocation i script d u operand v)
  from file_access_gate_nested(1) [OF inline(1-4), of p base d u entered] inline.IH [of True] show ?case by linarith
qed

lemma gate_le_not_None: "gate_le g h \<Longrightarrow> g \<noteq> None \<Longrightarrow> h \<noteq> None"
  by (cases h) auto

text \<open>Nested deeper than the budget, a script still makes the gate ask.\<close>

lemma file_access_not_silent:
  assumes "touches env d cmd u operand v" and "evaluate_shell_path env p base v operand \<noteq> None"
  shows "evaluate_shell_file_access_inner env p base n entered cmd u \<noteq> None"
  using assms
proof (induction arbitrary: n entered rule: touches.induct)
  case (inline cmd root invocation i script d u operand v)
  show ?case
  proof (cases n)
    case 0
    show ?thesis
      unfolding 0 by (rule gate_le_not_None [OF file_access_gate_nested(2) [OF inline(1-4)]]) simp
  next
    case (Suc m)
    show ?thesis
      unfolding Suc by (rule gate_le_not_None [OF file_access_gate_nested(1) [OF inline(1-4)] inline.IH [OF inline.prems]])
  qed
next
  case (redirect cmd root r path d u)
  show ?case
    by (rule gate_le_not_None [OF file_access_touches [OF touches.redirect [OF redirect(1-3)]] redirect(4)])
next
  case (operand cmd root invocation operand d u)
  show ?case
    by (rule gate_le_not_None [OF file_access_touches [OF touches.operand [OF operand(1-3)]] operand(4)])
qed

section \<open>Deny rules on files\<close>

text \<open>The spellings under which the rules see an operand, each with the directory that relative rules refer to: the
  operand with dots collapsed, the same made absolute, and the file it leads to through symbolic links.\<close>

definition linked_spelling :: "policy_env \<Rightarrow> rule_base \<Rightarrow> bool \<Rightarrow> string \<Rightarrow> string option" where
  "linked_spelling env base unpinned token =
     (let raw = normalize_shell_path_raw token; absolute = anchored_path base (normalize_shell_path token)
      in case raw_absolute_operand base unpinned raw of
           None \<Rightarrow> None
         | Some raw_absolute \<Rightarrow>
             (case follow_absolute_symlink (fs env) raw_absolute absolute of
                FollowTarget target \<Rightarrow> Some target
              | FollowNone \<Rightarrow> if path_has_parent_dir raw then Some absolute else None
              | Unresolvable \<Rightarrow> None))"

definition operand_pinned :: "bool \<Rightarrow> string \<Rightarrow> bool" where
  "operand_pinned unpinned token = (is_absolute_shell_path (normalize_shell_path token) \<or> \<not> unpinned)"

definition operand_spellings ::
  "policy_env \<Rightarrow> rule_base \<Rightarrow> bool \<Rightarrow> string \<Rightarrow> (string \<times> rule_base option) list" where
  "operand_spellings env base unpinned token =
     (let path = normalize_shell_path token;
          written = (if path_has_parent_dir (normalize_shell_path_raw token) then without_physical base else base)
      in if operand_pinned unpinned token
         then (path, Some written) # (anchored_path base path, Some written) #
              (case linked_spelling env base unpinned token of Some q \<Rightarrow> [(q, Some base)] | None \<Rightarrow> [])
         else [(path, None)])"

lemma evaluate_spelling:
  assumes "(q, b) \<in> set (operand_spellings env base unpinned token)"
  shows "gate_le (file_escalate env p (shell_access mode q) b) (evaluate_shell_path env p base unpinned (token, mode))"
  using assms
  by (auto simp: operand_spellings_def operand_pinned_def linked_spelling_def evaluate_shell_path_def
      resolved_decision_def Let_def gate.rank_combine split: if_splits option.splits symlink_follow.splits)

lemma file_escalate_rule:
  assumes "r \<in> set (rules cfg)" and "applies env access b r"
  shows "action r = rule_action.Deny \<Longrightarrow>
      \<exists>reason. file_escalate env (compiled_policy_new env cfg) access b = Some (GateReject reason)"
    and "action r = rule_action.Ask \<Longrightarrow>
      gate_le (Some AskRuleMatch) (file_escalate env (compiled_policy_new env cfg) access b)"
  using assms evaluate_rules_cases [of env cfg access b]
  by (auto simp: file_escalate_def some_applies_def split: if_splits)

lemma restriction_on_file:
  assumes "r \<in> set (rules cfg)" and "is_restriction (action r)" and "applies env (shell_access mode q) b r"
  shows "has_file_restrictions (compiled_policy_new env cfg)"
proof -
  have "tool r = tool_filter.Read \<or> tool r = tool_filter.Edit \<or> tool r = Any"
    using assms(3)
    by (cases mode; cases "tool r") (auto simp: applies_def rule_matches_def rule_reaches_def shell_access_def)
  then show ?thesis using assms(1,2) by (auto simp: compiled_policy_new_def list_ex_iff)
qed

text \<open>A rule on a file, seen by the file gate.\<close>

lemma file_rule_gate:
  assumes "touches env d cmd False (token, mode) v"
    and "(q, b) \<in> set (operand_spellings env (rule_base_new cwd) v token)"
    and "r \<in> set (rules cfg)" and "is_restriction (action r)" and "applies env (shell_access mode q) b r"
  defines "gate \<equiv> evaluate_shell_file_access_gate env (compiled_policy_new env cfg) cmd cwd"
  shows "gate \<noteq> None"
    and "d \<le> MAX_INLINE_SHELL_DEPTH \<Longrightarrow> gate_le (Some AskRuleMatch) gate"
    and "d \<le> MAX_INLINE_SHELL_DEPTH \<Longrightarrow> action r = rule_action.Deny \<Longrightarrow> \<exists>reason. gate = Some (GateReject reason)"
proof -
  let ?p = "compiled_policy_new env cfg" and ?base = "rule_base_new cwd"
  let ?rule = "file_escalate env ?p (shell_access mode q) b"
  let ?path = "evaluate_shell_path env ?p ?base v (token, mode)"
  have gate: "gate = evaluate_shell_file_access_inner env ?p ?base MAX_INLINE_SHELL_DEPTH False cmd False"
    using restriction_on_file [OF assms(3-5)] by (simp add: gate_def evaluate_shell_file_access_gate_def)
  have asks: "gate_le (Some AskRuleMatch) ?rule"
    using file_escalate_rule [OF assms(3,5)] assms(4) by (auto simp: is_restriction_def)
  have path: "gate_le ?rule ?path" by (rule evaluate_spelling [OF assms(2)])
  show "gate \<noteq> None"
    unfolding gate by (rule file_access_not_silent [OF assms(1) gate_le_not_None [OF order_trans [OF asks path]]]) simp
  have reaches: "gate_le ?rule gate" if "d \<le> MAX_INLINE_SHELL_DEPTH"
    unfolding gate by (rule order_trans [OF path file_access_touches [OF touches_deeper [OF assms(1) that]]])
  then show "gate_le (Some AskRuleMatch) gate" if "d \<le> MAX_INLINE_SHELL_DEPTH"
    using asks that order_trans by blast
  show "\<exists>reason. gate = Some (GateReject reason)" if "d \<le> MAX_INLINE_SHELL_DEPTH" "action r = rule_action.Deny"
    using file_escalate_rule(1) [OF assms(3,5) that(2)] reaches [OF that(1)]
    unfolding gate_rank_reject [symmetric] by auto
qed

text \<open>C6: a rule on a file binds every shell command that touches the file. If a script redirects to an operand, or runs a
  recognised reader or writer on it, behind wrappers and prefixes or nested in literal \<open>shell -c\<close> scripts, and a deny or ask
  rule applies to the operand under one of its spellings, as written, made absolute, or as the file it leads to through
  symbolic links, then the gate never lets the script pass in silence. Nested at most \<open>MAX_INLINE_SHELL_DEPTH\<close> levels
  deep it asks with the rule as its reason or rejects, and it rejects when the rule denies.\<close>

theorem shell_file_rule_is_enforced:
  assumes "touches env d cmd False (token, mode) v"
    and "(q, b) \<in> set (operand_spellings env (rule_base_new cwd) v token)"
    and "r \<in> set (rules cfg)" and "is_restriction (action r)" and "applies env (shell_access mode q) b r"
  shows "let gate = evaluate_shell_file_access_gate env (compiled_policy_new env cfg) cmd cwd
    in gate \<noteq> None \<and>
       (d \<le> MAX_INLINE_SHELL_DEPTH \<longrightarrow>
          rank_of gate_rank (Some AskRuleMatch) \<le> rank_of gate_rank gate \<and>
          (action r = rule_action.Deny \<longrightarrow> (\<exists>reason. gate = Some (GateReject reason))))"
  using file_rule_gate [OF assms] unfolding Let_def by blast

section \<open>What cannot be read\<close>

text \<open>
  \<open>obscure env cmd u\<close>: something in the script hides a file operand. An expansion or a glob, options of a wrapper that are
  not understood, a \<open>-c\<close> script that is not literal, a recursive search, a relative operand after a change of directory, or a
  nested script that does not parse or is itself obscure.
\<close>

inductive obscure :: "policy_env \<Rightarrow> string \<Rightarrow> bool \<Rightarrow> bool" for env where
  relative: "touches env d cmd u (token, mode) True \<Longrightarrow> \<not> is_absolute_shell_path (normalize_shell_path token) \<Longrightarrow>
    obscure env cmd u"
| redirect: "try_parse_shell env cmd = Some root \<Longrightarrow> r \<in> set (shell_redirect_targets root cmd) \<Longrightarrow> red_ambiguous r \<Longrightarrow>
    obscure env cmd u"
| glob: "try_parse_shell env cmd = Some root \<Longrightarrow> invocation \<in> set (shell_command_invocations root cmd) \<Longrightarrow>
    operand \<in> set (invocation_operands (run_words invocation)) \<Longrightarrow> shell_arg_is_ambiguous (fst operand) \<Longrightarrow>
    obscure env cmd u"
| peel: "try_parse_shell env cmd = Some root \<Longrightarrow> invocation \<in> set (shell_command_invocations root cmd) \<Longrightarrow>
    norm = normalize_command_words (wrapper_words invocation) \<Longrightarrow>
    norm_exhausted norm \<or> norm_split_string norm \<or> norm_env_uncertain norm \<or> norm_ambiguous norm \<Longrightarrow>
    obscure env cmd u"
| unreadable: "try_parse_shell env cmd = Some root \<Longrightarrow> invocation \<in> set (shell_command_invocations root cmd) \<Longrightarrow>
    shell_dash_c_script (run_words invocation) \<in> {InlineUntrusted, InlineUnrecognized} \<Longrightarrow> obscure env cmd u"
| program: "try_parse_shell env cmd = Some root \<Longrightarrow> invocation \<in> set (shell_command_invocations root cmd) \<Longrightarrow>
    invocation_program (run_words invocation) = Some program \<Longrightarrow> program \<notin> CHDIR_PROGRAMS \<Longrightarrow>
    program_asks (has_error root) (invocation_unpinned u (cwd_poison_positions root cmd) invocation)
      (run_words invocation) program \<or>
    program_recurses program (literal_words (run_words invocation)) \<Longrightarrow> obscure env cmd u"
| nested: "try_parse_shell env cmd = Some root \<Longrightarrow> invocation \<in> set (shell_command_invocations root cmd) \<Longrightarrow>
    shell_dash_c_script (run_words invocation) = InlineLiteral i \<Longrightarrow>
    nth_opt (run_words invocation) i = Some (LiteralWord script) \<Longrightarrow>
    (case try_parse_shell env script of None \<Rightarrow> True | Some inner \<Rightarrow> has_error inner) \<or>
    obscure env script (invocation_unpinned u (cwd_poison_positions root cmd) invocation) \<Longrightarrow> obscure env cmd u"

lemma asks_not_None:
  "gate_le d g \<and> (b \<longrightarrow> gate_le (Some AskFailClosed) g) \<Longrightarrow> b \<Longrightarrow> g \<noteq> None"
  using gate_le_not_None [of "Some AskFailClosed" g] by blast

lemma invocation_asks:
  assumes "try_parse_shell env cmd = Some root" and "invocation \<in> set (shell_command_invocations root cmd)"
    and "\<And>inner t. snd (invocation_step env p base inner (has_error root) u (cwd_poison_positions root cmd) invocation t)"
  shows "evaluate_shell_file_access_inner env p base n entered cmd u \<noteq> None"
proof -
  have "state_le (None, True)
      (invocation_step env p base inner (has_error root) u (cwd_poison_positions root cmd) invocation t)" for inner t
    using assms(3) by (simp add: state_le_def)
  note step = this
  show ?thesis
    by (subst file_access_inner_eq) (rule asks_not_None [OF file_access_gate_invocation [OF assms(1,2) step]], simp)
qed

lemma invocation_step_flags:
  assumes "norm = normalize_command_words (wrapper_words invocation)"
    and "norm_exhausted norm \<or> norm_split_string norm \<or> norm_env_uncertain norm \<or> norm_ambiguous norm"
  shows "snd (invocation_step env p base inner pf u changes invocation t)"
proof -
  let ?ws = "run_words invocation" and ?u = "invocation_unpinned u changes invocation"
  have flags: "snd (inline_step inner pf ?u ?ws (fst t, True))"
    using inline_step_grows [of "(fst t, True)"] by (simp add: state_le_def)
  moreover have "snd (program_step env p base pf ?u ?ws program (inline_step inner pf ?u ?ws (fst t, True)))" for program
    using flags program_step_grows [of "inline_step inner pf ?u ?ws (fst t, True)"] by (simp add: state_le_def)
  moreover have "peeled_exhausted (unwrap_invocation_checked invocation) \<or>
      peeled_split_string (unwrap_invocation_checked invocation) \<or>
      peeled_env_uncertain (unwrap_invocation_checked invocation) \<or>
      transparent_ambiguous (unwrap_invocation_checked invocation)"
    using assms by (simp add: unwrap_invocation_checked_def Let_def)
  then have "(snd t \<or> peeled_exhausted (unwrap_invocation_checked invocation) \<or>
      peeled_split_string (unwrap_invocation_checked invocation) \<or>
      peeled_env_uncertain (unwrap_invocation_checked invocation) \<or>
      transparent_ambiguous (unwrap_invocation_checked invocation)) = True" by blast
  ultimately show ?thesis
    unfolding invocation_step_eq Let_def by (simp split: option.split)
qed

lemma unreadable_step:
  assumes "shell_dash_c_script (run_words invocation) \<in> {InlineUntrusted, InlineUnrecognized}"
  shows "snd (invocation_step env p base inner pf u changes invocation t)"
proof -
  have "snd (inline_step inner pf (invocation_unpinned u changes invocation) (run_words invocation) s)" for s
    using assms by (auto simp: inline_step_def Let_def)
  moreover obtain s1 where "state_le (inline_step inner pf (invocation_unpinned u changes invocation) (run_words invocation) s1)
      (invocation_step env p base inner pf u changes invocation t)"
    by (rule invocation_step_after_inline)
  ultimately show ?thesis by (auto simp: state_le_def)
qed

lemma unparsed_asks:
  assumes "case try_parse_shell env script of None \<Rightarrow> True | Some inner \<Rightarrow> has_error inner"
  shows "evaluate_shell_file_access_inner env p base n True script u \<noteq> None"
proof (cases "try_parse_shell env script")
  case None
  then show ?thesis by (simp add: file_access_inner_eq file_access_gate_def)
next
  case (Some root)
  then have "has_error root" using assms by simp
  have "state_le (None, True) (fold (redirect_step env p base u (cwd_poison_positions root script))
      (shell_redirect_targets root script) (None, True))"
    by (rule redirects.fold_grows)
  note step = state_le_trans [OF this invocations.fold_grows]
  show ?thesis
    unfolding file_access_gate_def Some option.case Let_def
    by (subst file_access_inner_eq)
      (simp only: file_access_gate_def Some option.case Let_def \<open>has_error root\<close> simp_thms,
       rule asks_not_None [OF final_gate [OF step]], simp)
qed

lemma obscure_asks:
  assumes "obscure env cmd u"
  shows "evaluate_shell_file_access_inner env p base n entered cmd u \<noteq> None"
  using assms
proof (induction arbitrary: n entered rule: obscure.induct)
  case (relative d cmd u token mode)
  then have "gate_le (Some AskFailClosed) (evaluate_shell_path env p base True (token, mode))"
    by (simp add: evaluate_shell_path_def Let_def gate.rank_combine)
  from file_access_not_silent [OF relative(1) gate_le_not_None [OF this]] show ?case by blast
next
  case (redirect cmd root r u)
  have "state_le (None, True) (redirect_step env p base u (cwd_poison_positions root cmd) r t)" for t
    using redirect(3) by (simp add: state_le_def redirect_step_def Let_def)
  note step = this
  show ?case
    by (subst file_access_inner_eq) (rule asks_not_None [OF file_access_gate_redirect [OF redirect(1,2) step]], simp)
next
  case (glob cmd root invocation operand u)
  show ?case
    by (rule invocation_asks [OF glob(1,2)]) (use invocation_step_operand [OF glob(3)] glob(4) in \<open>auto simp: state_le_def\<close>)
next
  case (peel cmd root invocation norm u)
  show ?case by (rule invocation_asks [OF peel(1,2) invocation_step_flags [OF peel(3,4)]])
next
  case (unreadable cmd root invocation u)
  show ?case by (rule invocation_asks [OF unreadable(1,2) unreadable_step [OF unreadable(3)]])
next
  case (program cmd root invocation program u)
  show ?case
    by (rule invocation_asks [OF program(1,2)])
      (use program(3) program_step_asks [OF program(4,5)] in \<open>simp add: invocation_step_eq Let_def\<close>)
next
  case (nested cmd root invocation i script u)
  show ?case
  proof (cases n)
    case 0
    show ?thesis unfolding 0 by (rule gate_le_not_None [OF file_access_gate_nested(2) [OF nested(1-4)]]) simp
  next
    case (Suc m)
    have "evaluate_shell_file_access_inner env p base m True script
        (invocation_unpinned u (cwd_poison_positions root cmd) invocation) \<noteq> None"
      using nested(5) unparsed_asks by blast
    then show ?thesis unfolding Suc by (rule gate_le_not_None [OF file_access_gate_nested(1) [OF nested(1-4)]])
  qed
qed

text \<open>C14: what cannot be read makes the gate ask. As soon as some rule restricts files, a script that hides a file operand
  anywhere, in itself or in a nested \<open>shell -c\<close> script, is never passed in silence.\<close>

theorem obscure_scripts_ask:
  assumes "obscure env cmd False" and "has_file_restrictions p"
  shows "evaluate_shell_file_access env p cmd cwd \<noteq> None"
  using obscure_asks [OF assms(1)] assms(2)
  by (simp add: evaluate_shell_file_access_def evaluate_shell_file_access_gate_def)

section \<open>More restrictions, a stricter gate\<close>

lemma fold_state_mono:
  assumes "\<And>x s t. state_le s t \<Longrightarrow> state_le (f x s) (g x t)" and "state_le s t"
  shows "state_le (fold f xs s) (fold g xs t)"
  using assms(2) by (induction xs arbitrary: s t) (simp_all add: assms(1))

lemma file_escalate_tighter:
  assumes "restricts c1 c2"
  shows "gate_le (file_escalate env (compiled_policy_new env c1) access b)
    (file_escalate env (compiled_policy_new env c2) access b)"
  using evaluate_rules_tighter [OF assms, of env access b]
    evaluate_rules_cases [of env c1 access b] evaluate_rules_cases [of env c2 access b]
  by (auto simp: tighter_def file_escalate_def split: if_splits)

text \<open>Two policies of which the second is at least as strict on every access.\<close>

definition stricter :: "policy_env \<Rightarrow> compiled_policy \<Rightarrow> compiled_policy \<Rightarrow> bool" where
  "stricter env p p' = (\<forall>access b. gate_le (file_escalate env p access b) (file_escalate env p' access b))"

lemma combine_gate_mono:
  "gate_le a a' \<Longrightarrow> gate_le b b' \<Longrightarrow> gate_le (combine_gate_decisions a b) (combine_gate_decisions a' b')"
  unfolding gate.rank_combine by (rule max.mono)

lemma if_gate_mono: "gate_le a a' \<Longrightarrow> gate_le b b' \<Longrightarrow> gate_le (if c then a else b) (if c then a' else b')"
  by simp

lemma evaluate_shell_path_stricter:
  assumes "stricter env p p'"
  shows "gate_le (evaluate_shell_path env p base unpinned operand) (evaluate_shell_path env p' base unpinned operand)"
proof -
  have esc: "gate_le (file_escalate env p access b) (file_escalate env p' access b)" for access b
    using assms by (simp add: stricter_def)
  have "gate_le (resolved_decision env p mode rb raw dir abs) (resolved_decision env p' mode rb raw dir abs)"
    for mode rb raw dir abs
    by (simp add: resolved_decision_def esc split: symlink_follow.split)
  then have bound: "gate_le (Option.bind r (\<lambda>raw. resolved_decision env p mode rb raw dir abs))
      (Option.bind r (\<lambda>raw. resolved_decision env p' mode rb raw dir abs))" for r mode rb dir abs
    by (cases r) simp_all
  obtain token mode where "operand = (token, mode)" by (cases operand)
  then show ?thesis
    unfolding evaluate_shell_path_def Let_def
    by (simp only: prod.case) (intro combine_gate_mono if_gate_mono esc bound order_refl)
qed

lemma state_le_combine:
  "state_le s t \<Longrightarrow> gate_le d d' \<Longrightarrow> state_le (combine_gate_decisions (fst s) d, snd s \<or> b)
     (combine_gate_decisions (fst t) d', snd t \<or> b)"
  by (auto simp: state_le_def gate.rank_combine)

lemma check_operand_stricter:
  "stricter env p p' \<Longrightarrow> state_le s t \<Longrightarrow>
   state_le (check_operand env p base unpinned operand s) (check_operand env p' base unpinned operand t)"
  unfolding check_operand_def by (intro state_le_combine evaluate_shell_path_stricter)

lemma redirect_step_stricter:
  "stricter env p p' \<Longrightarrow> state_le s t \<Longrightarrow>
   state_le (redirect_step env p base unpinned changes r s) (redirect_step env p' base unpinned changes r t)"
  unfolding redirect_step_def Let_def
  by (cases "red_path r") (auto simp: state_le_combine evaluate_shell_path_stricter, auto simp: state_le_def)

lemma program_step_stricter:
  assumes "stricter env p p'" and "state_le s t"
  shows "state_le (program_step env p base pf unpinned ws program s) (program_step env p' base pf unpinned ws program t)"
proof (cases "program \<in> CHDIR_PROGRAMS")
  case True
  then show ?thesis using assms(2) by (simp add: program_step_def)
next
  case False
  have start: "state_le (fst s, snd s \<or> b) (fst t, snd t \<or> b)" for b using assms(2) by (auto simp: state_le_def)
  have "state_le (fold (check_operand env p base unpinned) os (fst s, snd s \<or> b))
      (fold (check_operand env p' base unpinned) os (fst t, snd t \<or> b))" for os b
    by (rule fold_state_mono [OF _ start]) (rule check_operand_stricter [OF assms(1)])
  then show ?thesis unfolding program_step_eq [OF False] Let_def by (auto simp: state_le_def)
qed

lemma inline_step_stricter:
  assumes "rel_option (\<lambda>f g. \<forall>c v. gate_le (f c v) (g c v)) inner inner'" and "state_le s t"
  shows "state_le (inline_step inner pf unpinned ws s) (inline_step inner' pf unpinned ws t)"
  using assms unfolding inline_step_def Let_def
  by (cases inner; cases inner') (auto simp: state_le_def intro: combine_gate_mono
      split: inline_shell_script.split option.split shell_word.split)

lemma invocation_step_stricter:
  assumes "stricter env p p'" and "rel_option (\<lambda>f g. \<forall>c v. gate_le (f c v) (g c v)) inner inner'" and "state_le s t"
  shows "state_le (invocation_step env p base inner pf unpinned changes invocation s)
    (invocation_step env p' base inner' pf unpinned changes invocation t)"
proof -
  have start: "state_le (fst s, snd s \<or> b) (fst t, snd t \<or> b)" for b using assms(3) by (auto simp: state_le_def)
  note inline = inline_step_stricter [OF assms(2) start]
  show ?thesis
    unfolding invocation_step_eq Let_def
    by (cases "invocation_program (run_words invocation)")
      (simp_all only: option.case inline program_step_stricter [OF assms(1) inline])
qed

lemma file_access_gate_stricter:
  assumes "stricter env p p'" and "rel_option (\<lambda>f g. \<forall>c v. gate_le (f c v) (g c v)) inner inner'"
  shows "gate_le (file_access_gate env p base inner entered cmd u) (file_access_gate env p' base inner' entered cmd u)"
proof (cases "try_parse_shell env cmd")
  case (Some root)
  let ?changes = "cwd_poison_positions root cmd"
  let ?final = "\<lambda>p inner. fold (invocation_step env p base inner (has_error root) u ?changes)
      (shell_command_invocations root cmd)
      (fold (redirect_step env p base u ?changes) (shell_redirect_targets root cmd) (None, entered \<and> has_error root))"
  have "state_le (?final p inner) (?final p' inner')"
    by (intro fold_state_mono invocation_step_stricter [OF assms] redirect_step_stricter [OF assms(1)] state_le_refl)
  then show ?thesis
    by (auto simp: file_access_gate_def Some Let_def state_le_def gate.rank_combine)
qed (simp add: file_access_gate_def)

lemma file_access_inner_stricter:
  assumes "stricter env p p'"
  shows "gate_le (evaluate_shell_file_access_inner env p base d entered cmd u)
    (evaluate_shell_file_access_inner env p' base d entered cmd u)"
proof (induction d arbitrary: entered cmd u)
  case 0
  show ?case using file_access_gate_stricter [OF assms, of None None] by simp
next
  case (Suc d)
  have "rel_option (\<lambda>f g. \<forall>c v. gate_le (f c v) (g c v))
      (Some (evaluate_shell_file_access_inner env p base d True)) (Some (evaluate_shell_file_access_inner env p' base d True))"
    using Suc.IH by simp
  from file_access_gate_stricter [OF assms this] show ?case by simp
qed

text \<open>C35: the file gate only escalates. It never allows a command, and adding deny and ask rules to a configuration never
  lowers its decision on any command.\<close>

theorem file_gate_only_escalates:
  assumes "restricts c1 c2"
  shows "evaluate_shell_file_access env (compiled_policy_new env c2) cmd cwd \<noteq> Some decision.Allow \<and>
    rank_of gate_rank (evaluate_shell_file_access_gate env (compiled_policy_new env c1) cmd cwd) \<le>
    rank_of gate_rank (evaluate_shell_file_access_gate env (compiled_policy_new env c2) cmd cwd)"
proof
  have "into_decision g \<noteq> decision.Allow" for g by (cases g) simp_all
  then show "evaluate_shell_file_access env (compiled_policy_new env c2) cmd cwd \<noteq> Some decision.Allow"
    by (auto simp: evaluate_shell_file_access_def)
  have "stricter env (compiled_policy_new env c1) (compiled_policy_new env c2)"
    using file_escalate_tighter [OF assms] by (simp add: stricter_def)
  moreover have "has_file_restrictions (compiled_policy_new env c1) \<Longrightarrow> has_file_restrictions (compiled_policy_new env c2)"
    using assms by (auto simp: compiled_policy_new_def list_ex_iff restricts_def)
  ultimately show "rank_of gate_rank (evaluate_shell_file_access_gate env (compiled_policy_new env c1) cmd cwd) \<le>
      rank_of gate_rank (evaluate_shell_file_access_gate env (compiled_policy_new env c2) cmd cwd)"
    by (simp add: evaluate_shell_file_access_gate_def file_access_inner_stricter)
qed

section \<open>The list of written paths\<close>

inductive_cases touches_directly: "touches env 0 cmd u operand v"

lemma literal_words_map [simp]: "literal_words (map LiteralWord ws) = ws"
  by (induction ws) (simp_all add: literal_words_def)

lemma all_literal: "UntrustedWord \<notin> set ws \<Longrightarrow> ws = map LiteralWord (literal_words ws)"
proof (induction ws)
  case (Cons w ws)
  then show ?case by (cases w) (simp_all add: literal_words_def)
qed (simp add: literal_words_def)

lemma write_operands: "fst ` {operand \<in> set os. is_write (snd operand)} = {q. (q, WriteMode) \<in> set os}"
  by (force simp: is_write_def)

lemma write_paths_operands:
  "set (command_words_write_paths ws) =
   {q. (q, WriteMode) \<in> set (invocation_operands (map LiteralWord (unwrap_wrappers ws)))}"
proof (cases "unwrap_wrappers ws")
  case Nil
  then show ?thesis by (simp add: command_words_write_paths_def invocation_operands_def invocation_program_def)
next
  case (Cons w rest)
  let ?program = "to_ascii_lowercase (basename w)" and ?inner = "w # rest"
  have chdir: "special_file_operands c ?inner = []" "shell_path_command_operands c ?inner = None" "shell_file_mode c = None"
    if "c \<in> CHDIR_PROGRAMS" for c
    using that
    by (elim insertE; simp add: special_file_operands_def shell_path_command_operands_def is_creation_program_def
        shell_file_mode_def READER_PROGRAMS_def WRITER_PROGRAMS_def)+
  have dd: "shell_path_command_operands ''dd'' ?inner = None" "shell_file_mode ''dd'' = None"
    by (simp_all add: shell_path_command_operands_def is_creation_program_def shell_file_mode_def READER_PROGRAMS_def
        WRITER_PROGRAMS_def)
  have sed: "shell_file_mode ''sed'' = Some ReadMode" by (simp add: shell_file_mode_def READER_PROGRAMS_def)
  have modes: "WriteMode \<in> set (operand_modes c ?inner) \<longleftrightarrow>
      shell_file_mode c = Some WriteMode \<or> (c = ''sed'' \<and> shell_sed_in_place ?inner)" for c
  proof (cases "c = ''sed''")
    case True
    show ?thesis unfolding True by (simp add: operand_modes_def sed)
  next
    case False
    then show ?thesis by (cases "shell_file_mode c") (auto simp add: operand_modes_def)
  qed
  have "invocation_operands (map LiteralWord ?inner) = program_operands ?program ?inner"
    by (simp add: invocation_operands_def invocation_program_def literal_words_map [of "w # rest", simplified])
  moreover have "set (command_words_write_paths ws) = {q. (q, WriteMode) \<in> set (program_operands ?program ?inner)}"
  proof (cases "?program \<in> CHDIR_PROGRAMS")
    case True
    then show ?thesis
      using chdir [OF True] by (auto simp: command_words_write_paths_def Cons program_operands_def)
  next
    case False
    have paths: "set (command_words_write_paths ws) =
        {q. (q, WriteMode) \<in> set (special_file_operands ?program ?inner)} \<union>
        (case shell_path_command_operands ?program ?inner of
           Some operands \<Rightarrow> {q. (q, WriteMode) \<in> set operands}
         | None \<Rightarrow> if WriteMode \<in> set (operand_modes ?program ?inner) then set (shell_file_candidates ?inner) else {})"
      unfolding modes command_words_write_paths_def Cons Let_def list.case
      by (cases "shell_path_command_operands ?program ?inner") (simp_all add: write_operands, blast?)
    show ?thesis
    proof (cases "?program = ''dd''")
      case True
      have "operand_modes ''dd'' ?inner = []" by (simp add: operand_modes_def dd)
      then show ?thesis unfolding paths True program_operands_def by (simp add: dd)
    next
      case other: False
      show ?thesis
        unfolding paths program_operands_def if_not_P [OF False] if_not_P [OF other]
        by (cases "shell_path_command_operands ?program ?inner") auto
    qed
  qed
  ultimately show ?thesis by (simp only: Cons)
qed

text \<open>Commands of which both readings peel the same words: no expansion, and no \<open>exec\<close>, \<open>command\<close> or \<open>builtin\<close> in front.\<close>

definition plainly_wrapped :: "shell_invocation \<Rightarrow> bool" where
  "plainly_wrapped invocation =
     (UntrustedWord \<notin> set (inv_words invocation) \<and>
      norm_words (normalize_command_words (wrapper_words invocation)) = unwrap_wrappers (wrapper_words invocation))"

lemma invocation_wrapper_words:
  assumes "invocation \<in> set (shell_command_invocations root cmd)"
  shows "wrapper_words invocation = map wrapper_word (inv_words invocation)"
  using assms
  by (auto simp: shell_command_invocations_def List.map_filter_def invocation_of_def Let_def split: if_splits)

lemma run_words_plain:
  assumes "invocation \<in> set (shell_command_invocations root cmd)" and "plainly_wrapped invocation"
  shows "run_words invocation = map LiteralWord (unwrap_wrappers (literal_words (inv_words invocation)))"
proof -
  let ?lits = "literal_words (inv_words invocation)"
  have words: "inv_words invocation = map LiteralWord ?lits"
    using assms(2) all_literal by (simp add: plainly_wrapped_def)
  have "map (wrapper_word \<circ> LiteralWord) ?lits = ?lits" by (simp add: comp_def)
  then have wrapper: "wrapper_words invocation = ?lits"
    using invocation_wrapper_words [OF assms(1)] by (metis words map_map)
  have same: "norm_words (normalize_command_words ?lits) = unwrap_wrappers ?lits"
    using assms(2) by (simp add: plainly_wrapped_def wrapper)
  have "suffix (unwrap_wrappers ?lits) ?lits" by (simp add: unwrap_wrappers_def unwrap_wrappers_suffix)
  then obtain pre where "?lits = pre @ unwrap_wrappers ?lits" by (auto simp: suffix_def)
  then have "drop (length ?lits - length (unwrap_wrappers ?lits)) ?lits = unwrap_wrappers ?lits"
    by (metis append_eq_conv_conj length_append diff_add_inverse2)
  then show ?thesis
    unfolding unwrap_invocation_checked_def Let_def wrapper same
    by (subst (2) words) (simp add: drop_map words [THEN arg_cong, of length, simplified])
qed

lemma in_map_filter: "y \<in> set (List.map_filter f xs) \<longleftrightarrow> (\<exists>x\<in>set xs. f x = Some y)"
  by (force simp: List.map_filter_def)

text \<open>C36: the two readings of a script agree on its own commands. When every command of the script is plainly wrapped, the
  paths listed as written, which decide whether a command may run without asking, are exactly those the file gate checks as
  written by the commands and redirections of the script itself. The list leaves out scripts passed to an inner shell, whose files the
  gate checks one level deeper.\<close>

theorem written_paths_are_gated:
  assumes "try_parse_shell env cmd = Some root" and "list_all plainly_wrapped (shell_command_invocations root cmd)"
  shows "set (command_write_paths_in_tree root cmd) = {q. \<exists>v. touches env 0 cmd False (q, WriteMode) v}"
proof (rule set_eqI)
  fix q
  have operands: "(q, WriteMode) \<in> set (invocation_operands (run_words invocation)) \<longleftrightarrow>
      q \<in> set (command_words_write_paths (literal_words (inv_words invocation)))"
    if "invocation \<in> set (shell_command_invocations root cmd)" for invocation
    using that assms(2) write_paths_operands run_words_plain [OF that] by (simp add: list_all_iff)
  have "q \<in> set (command_write_paths_in_tree root cmd) \<longleftrightarrow>
      (\<exists>r\<in>set (shell_redirect_targets root cmd). red_path r = Some q \<and> red_mode r = WriteMode) \<or>
      (\<exists>invocation\<in>set (shell_command_invocations root cmd).
        (q, WriteMode) \<in> set (invocation_operands (run_words invocation)))"
    using operands
    by (auto simp: command_write_paths_in_tree_def command_write_paths_split_def Let_def in_map_filter is_write_def)
  also have "\<dots> \<longleftrightarrow> (\<exists>v. touches env 0 cmd False (q, WriteMode) v)"
  proof
    assume "(\<exists>r\<in>set (shell_redirect_targets root cmd). red_path r = Some q \<and> red_mode r = WriteMode) \<or>
      (\<exists>invocation\<in>set (shell_command_invocations root cmd).
        (q, WriteMode) \<in> set (invocation_operands (run_words invocation)))"
    then show "\<exists>v. touches env 0 cmd False (q, WriteMode) v"
      using touches.redirect [OF assms(1), of _ q 0 False] touches.operand [OF assms(1)] by metis
  next
    assume "\<exists>v. touches env 0 cmd False (q, WriteMode) v"
    then show "(\<exists>r\<in>set (shell_redirect_targets root cmd). red_path r = Some q \<and> red_mode r = WriteMode) \<or>
      (\<exists>invocation\<in>set (shell_command_invocations root cmd).
        (q, WriteMode) \<in> set (invocation_operands (run_words invocation)))"
      using assms(1) by (auto elim!: touches_directly)
  qed
  finally show "q \<in> set (command_write_paths_in_tree root cmd) \<longleftrightarrow> q \<in> {q. \<exists>v. touches env 0 cmd False (q, WriteMode) v}"
    by simp
qed

section \<open>Sample scripts\<close>

text \<open>A shell that knows \<open>cat k\<close>, \<open>bash -c 'cat k'\<close>, \<open>cd d; cat k\<close> and \<open>tee k\<close>.\<close>

definition two_words :: "nat \<Rightarrow> nat \<Rightarrow> nat \<Rightarrow> nat \<Rightarrow> node" where
  "two_words s m a e =
     Node ''command'' True False s e None
       [Node ''command_name'' True False s m (Some ''name'') [word_leaf s m], word_leaf a e]"

definition program_of :: "nat \<Rightarrow> node list \<Rightarrow> node" where
  "program_of e cs = Node ''program'' True False 0 e None cs"

definition nested_cat :: string where
  "nested_cat = ''bash -c '' @ [single_quote] @ ''cat k'' @ [single_quote]"

definition nested_cat_tree :: node where
  "nested_cat_tree = program_of 15
     [Node ''command'' True False 0 15 None
        [Node ''command_name'' True False 0 4 (Some ''name'') [word_leaf 0 4],
         word_leaf 5 7, Node ''raw_string'' True False 8 15 (Some ''argument'') []]]"

definition cd_cat_tree :: node where
  "cd_cat_tree = program_of 11 [two_words 0 2 3 4, Node '';'' False False 4 5 None [], two_words 6 9 10 11]"

definition file_env :: policy_env where
  "file_env = sample_env\<lparr>try_parse_shell :=
     (\<lambda>s. if s = ''cat k'' then Some (program_of 5 [two_words 0 3 4 5])
          else if s = nested_cat then Some nested_cat_tree
          else if s = ''cd d; cat k'' then Some cd_cat_tree
          else if s = ''tee k'' then Some (program_of 5 [two_words 0 3 4 5])
          else None)\<rparr>"

definition read_rule :: "rule_action \<Rightarrow> permission_rule" where
  "read_rule act = \<lparr>action = act, tool = tool_filter.Read, pattern = Some ''/w/k'', pattern_mode = Glob\<rparr>"

abbreviation file_policy :: "permission_rule list \<Rightarrow> compiled_policy" where
  "file_policy rs \<equiv> compiled_policy_new file_env (permission_config_new rs)"

text \<open>The largest scope stays a name when the samples are evaluated.\<close>

declare u64_max_def [code del]

lemma sample_invocations:
  "map (\<lambda>i. (run_words i, invocation_unpinned False (cwd_poison_positions nested_cat_tree nested_cat) i))
     (shell_command_invocations nested_cat_tree nested_cat) =
     [([LiteralWord ''bash'', LiteralWord ''-c'', LiteralWord ''cat k''], False)]"
  "map (\<lambda>i. (run_words i, invocation_unpinned False (cwd_poison_positions (program_of 5 [two_words 0 3 4 5]) ''cat k'') i))
     (shell_command_invocations (program_of 5 [two_words 0 3 4 5]) ''cat k'') =
     [([LiteralWord ''cat'', LiteralWord ''k''], False)]"
  "map (\<lambda>i. (run_words i, invocation_unpinned False (cwd_poison_positions cd_cat_tree ''cd d; cat k'') i))
     (shell_command_invocations cd_cat_tree ''cd d; cat k'') =
     [([LiteralWord ''cd'', LiteralWord ''d''], False), ([LiteralWord ''cat'', LiteralWord ''k''], True)]"
  by code_simp+

lemma parsed_samples:
  "try_parse_shell file_env ''cat k'' = Some (program_of 5 [two_words 0 3 4 5])"
  "try_parse_shell file_env nested_cat = Some nested_cat_tree"
  "try_parse_shell file_env ''cd d; cat k'' = Some cd_cat_tree"
  "try_parse_shell file_env ''tee k'' = Some (program_of 5 [two_words 0 3 4 5])"
  by (simp_all add: file_env_def nested_cat_def)

lemma in_mapped: "map f xs = ys \<Longrightarrow> y \<in> set ys \<Longrightarrow> \<exists>x. x \<in> set xs \<and> f x = y"
  by auto

lemma cat_operands: "invocation_operands [LiteralWord ''cat'', LiteralWord ''k''] = [(''k'', ReadMode)]"
  by code_simp

lemma cat_touches: "touches file_env 0 ''cat k'' False (''k'', ReadMode) False"
proof -
  obtain i where i: "i \<in> set (shell_command_invocations (program_of 5 [two_words 0 3 4 5]) ''cat k'')"
    "run_words i = [LiteralWord ''cat'', LiteralWord ''k'']"
    "\<not> invocation_unpinned False (cwd_poison_positions (program_of 5 [two_words 0 3 4 5]) ''cat k'') i"
    using in_mapped [OF sample_invocations(2)] by force
  have "(''k'', ReadMode) \<in> set (invocation_operands (run_words i))" by (simp add: i(2) cat_operands)
  from touches.operand [OF parsed_samples(1) i(1) this, of 0 False] i(3) show ?thesis by simp
qed

lemma nested_cat_touches: "touches file_env 1 nested_cat False (''k'', ReadMode) False"
proof -
  obtain i where i: "i \<in> set (shell_command_invocations nested_cat_tree nested_cat)"
    "run_words i = [LiteralWord ''bash'', LiteralWord ''-c'', LiteralWord ''cat k'']"
    "\<not> invocation_unpinned False (cwd_poison_positions nested_cat_tree nested_cat) i"
    using in_mapped [OF sample_invocations(1)] by force
  have "shell_dash_c_script (run_words i) = InlineLiteral 2" unfolding i(2) by code_simp
  moreover have "nth_opt (run_words i) 2 = Some (LiteralWord ''cat k'')" unfolding i(2) by code_simp
  ultimately show ?thesis
    using touches.inline [OF parsed_samples(2) i(1), of 2 "''cat k''" 0 False] cat_touches i(3) by simp
qed

theorem shell_file_rule_is_enforced_witness:
  "\<exists>reason. evaluate_shell_file_access_gate file_env (file_policy [read_rule rule_action.Deny]) nested_cat ''/w'' =
     Some (GateReject reason)"
proof -
  let ?cfg = "permission_config_new [read_rule rule_action.Deny]" and ?base = "rule_base_new ''/w''"
  have "(''/w/k'', Some ?base) \<in> set (operand_spellings file_env ?base False ''k'')" by code_simp
  moreover have "read_rule rule_action.Deny \<in> set (rules ?cfg)" by (simp add: permission_config_new_def)
  moreover have "is_restriction (action (read_rule rule_action.Deny))" by code_simp
  moreover have "applies file_env (shell_access ReadMode ''/w/k'') (Some ?base) (read_rule rule_action.Deny)" by code_simp
  moreover have "(1 :: nat) \<le> MAX_INLINE_SHELL_DEPTH" "action (read_rule rule_action.Deny) = rule_action.Deny"
    by code_simp+
  ultimately show ?thesis
    using shell_file_rule_is_enforced [OF nested_cat_touches] unfolding Let_def by blast
qed

theorem obscure_scripts_ask_witness:
  "evaluate_shell_file_access file_env (file_policy [read_rule rule_action.Deny]) ''cd d; cat k'' ''/w'' \<noteq> None"
proof -
  obtain i where i: "i \<in> set (shell_command_invocations cd_cat_tree ''cd d; cat k'')"
    "run_words i = [LiteralWord ''cat'', LiteralWord ''k'']"
    "invocation_unpinned False (cwd_poison_positions cd_cat_tree ''cd d; cat k'') i"
    using in_mapped [OF sample_invocations(3)] by force
  have "invocation_program (run_words i) = Some ''cat''" unfolding i(2) by code_simp
  moreover have "program_asks (has_error cd_cat_tree)
      (invocation_unpinned False (cwd_poison_positions cd_cat_tree ''cd d; cat k'') i) (run_words i) ''cat''"
    unfolding i(2) program_asks_def shell_file_mode_def READER_PROGRAMS_def by (simp add: i(3))
  ultimately have "obscure file_env ''cd d; cat k'' False"
    using obscure.program [OF parsed_samples(3) i(1), of "''cat''" False] by simp
  moreover have "has_file_restrictions (file_policy [read_rule rule_action.Deny])" by code_simp
  ultimately show ?thesis by (rule obscure_scripts_ask)
qed

theorem file_gate_only_escalates_witness:
  "rank_of gate_rank (evaluate_shell_file_access_gate file_env (file_policy [read_rule rule_action.Ask]) ''cat k'' ''/w'') = 3 \<and>
   3 \<le> rank_of gate_rank (evaluate_shell_file_access_gate file_env
         (file_policy [read_rule rule_action.Ask, read_rule rule_action.Deny]) ''cat k'' ''/w'')"
proof -
  have "restricts (permission_config_new [read_rule rule_action.Ask])
      (permission_config_new [read_rule rule_action.Ask, read_rule rule_action.Deny])"
    by (simp add: restricts_def permission_config_new_def read_rule_def is_restriction_def)
  from file_gate_only_escalates [OF this, of file_env "''cat k''" "''/w''"]
  have "rank_of gate_rank (evaluate_shell_file_access_gate file_env (file_policy [read_rule rule_action.Ask]) ''cat k'' ''/w'') \<le>
      rank_of gate_rank (evaluate_shell_file_access_gate file_env
         (file_policy [read_rule rule_action.Ask, read_rule rule_action.Deny]) ''cat k'' ''/w'')" by simp
  moreover have
    "rank_of gate_rank (evaluate_shell_file_access_gate file_env (file_policy [read_rule rule_action.Ask]) ''cat k'' ''/w'') = 3"
    by code_simp
  ultimately show ?thesis by simp
qed

theorem written_paths_are_gated_witness:
  "{q. \<exists>v. touches file_env 0 ''tee k'' False (q, WriteMode) v} = {''k''}"
proof -
  let ?root = "program_of 5 [two_words 0 3 4 5]"
  have "list_all plainly_wrapped (shell_command_invocations ?root ''tee k'')" by code_simp
  from written_paths_are_gated [OF parsed_samples(4) this]
  have "{q. \<exists>v. touches file_env 0 ''tee k'' False (q, WriteMode) v} = set (command_write_paths_in_tree ?root ''tee k'')"
    by simp
  moreover have "command_write_paths_in_tree ?root ''tee k'' = [''k'']" by code_simp
  ultimately show ?thesis by simp
qed

end
