(* ===== verification/Gate_Preflight.thy ===== *)
theory Gate_Preflight
  imports Shell_Guarantees
begin

text \<open>
  The preflight of a permission request (\<open>gate_preflight.rs\<close>): the direct pass over the rules, the command gate and the
  file gate are evaluated once and kept with the reason each gate asks for. A model that classifies requests may answer a
  question that only says that a script could not be read; it never answers a rule.
\<close>

section \<open>The preflight\<close>

record gate_preflight =
  direct :: "decision option"
  bash_command :: "gate_decision option"
  shell_file :: "gate_decision option"
  native_symlink_fail_closed :: bool
  defers_gate_ask :: bool

definition preflight_evaluate ::
  "policy_env \<Rightarrow> compiled_policy option \<Rightarrow> access_kind \<Rightarrow> string \<Rightarrow> bool \<Rightarrow> gate_preflight" where
  "preflight_evaluate env policy access cwd auto_mode =
     (let (direct, native_symlink_fail_closed) =
            (case policy of Some p \<Rightarrow> evaluate_with_cwd_details env p access (Some cwd) | None \<Rightarrow> (None, False));
          (bash_command, shell_file) =
            (case (policy, access) of
               (Some p, access_kind.Bash cmd) \<Rightarrow>
                 (evaluate_bash_command_gate env p cmd, evaluate_shell_file_access_gate env p cmd cwd)
             | _ \<Rightarrow> (None, None));
          rule_match_ask =
            (direct = Some decision.Ask \<or> bash_command = Some AskRuleMatch \<or> shell_file = Some AskRuleMatch);
          fail_closed_ask = (bash_command = Some AskFailClosed \<or> shell_file = Some AskFailClosed)
      in \<lparr>direct = direct, bash_command = bash_command, shell_file = shell_file,
          native_symlink_fail_closed = native_symlink_fail_closed,
          defers_gate_ask = auto_mode \<and> fail_closed_ask \<and> \<not> rule_match_ask\<rparr>)"

definition policy_decision :: "gate_preflight \<Rightarrow> decision option" where
  "policy_decision pf =
     combine_decisions
       (combine_decisions (direct pf) (map_option into_decision (bash_command pf)))
       (map_option into_decision (shell_file pf))"

definition policy_forced_prompt :: "gate_preflight \<Rightarrow> bool" where
  "policy_forced_prompt pf = (policy_decision pf = Some decision.Ask)"

definition shell_file_forced_prompt :: "gate_preflight \<Rightarrow> bool" where
  "shell_file_forced_prompt pf = (case shell_file pf of Some g \<Rightarrow> is_ask g | None \<Rightarrow> False)"

definition shell_forced_prompt :: "gate_preflight \<Rightarrow> bool" where
  "shell_forced_prompt pf =
     ((case bash_command pf of Some g \<Rightarrow> is_ask g | None \<Rightarrow> False) \<or>
      shell_file_forced_prompt pf \<or> native_symlink_fail_closed pf)"

definition admits_auto_classifier :: "gate_preflight \<Rightarrow> bool" where
  "admits_auto_classifier pf = (\<not> policy_forced_prompt pf \<or> defers_gate_ask pf)"

definition classifier_allowed_decision :: "gate_preflight \<Rightarrow> decision" where
  "classifier_allowed_decision pf =
     (case policy_decision pf of None \<Rightarrow> decision.Allow | Some d \<Rightarrow> d)"

definition POLICY_ASK :: string where
  "POLICY_ASK = ''policy_ask''"

definition BASH_COMMAND_GATE_ASK :: string where
  "BASH_COMMAND_GATE_ASK = ''bash_command_gate_ask''"

definition SHELL_FILE_GATE_ASK :: string where
  "SHELL_FILE_GATE_ASK = ''shell_file_gate_ask''"

definition prompt_trigger :: "gate_preflight \<Rightarrow> string option \<Rightarrow> string option" where
  "prompt_trigger pf auto_prompt_reason =
     (if direct pf = Some decision.Ask then Some POLICY_ASK
      else if defers_gate_ask pf then auto_prompt_reason
      else if (case bash_command pf of Some g \<Rightarrow> is_ask g | None \<Rightarrow> False) then Some BASH_COMMAND_GATE_ASK
      else if shell_file_forced_prompt pf then Some SHELL_FILE_GATE_ASK
      else auto_prompt_reason)"

section \<open>Rules bind the classifier\<close>

lemma preflight_fields:
  "direct (preflight_evaluate env (Some p) access cwd auto) = fst (evaluate_with_cwd_details env p access (Some cwd))"
  "bash_command (preflight_evaluate env (Some p) (access_kind.Bash cmd) cwd auto) = evaluate_bash_command_gate env p cmd"
  "shell_file (preflight_evaluate env (Some p) (access_kind.Bash cmd) cwd auto) =
     evaluate_shell_file_access_gate env p cmd cwd"
  by (simp_all add: preflight_evaluate_def Let_def split: prod.split access_kind.split)

lemma preflight_defers:
  "defers_gate_ask (preflight_evaluate env policy access cwd auto) \<Longrightarrow>
     auto \<and> bash_command (preflight_evaluate env policy access cwd auto) \<noteq> Some AskRuleMatch \<and>
     shell_file (preflight_evaluate env policy access cwd auto) \<noteq> Some AskRuleMatch \<and>
     direct (preflight_evaluate env policy access cwd auto) \<noteq> Some decision.Ask"
  by (auto simp: preflight_evaluate_def Let_def split: prod.splits)

lemma decision_rank_gate: "rank_of decision_rank (map_option into_decision g) =
    (case g of None \<Rightarrow> 0 | Some (GateReject r) \<Rightarrow> 4 | Some _ \<Rightarrow> 3)"
  by (cases g) (auto split: gate_decision.split)

lemma policy_decision_rank:
  "rank_of decision_rank (policy_decision pf) =
     max (max (rank_of decision_rank (direct pf)) (rank_of decision_rank (map_option into_decision (bash_command pf))))
       (rank_of decision_rank (map_option into_decision (shell_file pf)))"
  by (simp add: policy_decision_def decisions.rank_combine)

lemma direct_bash:
  "direct (preflight_evaluate env (Some (compiled_policy_new env cfg)) (access_kind.Bash cmd) cwd auto) \<noteq> Some (PolicyDeny reason)"
  using evaluate_rules_cases [of env cfg "access_kind.Bash cmd" "Some (rule_base_new cwd)"]
  by (auto simp: preflight_fields evaluate_with_cwd_details_def native_file_path_def split: if_splits)

lemma policy_decision_of:
  "policy_decision pf \<in> {direct pf, map_option into_decision (bash_command pf), map_option into_decision (shell_file pf)}"
  using decisions.combine_cases unfolding policy_decision_def by (metis insertCI)

lemma policy_decision_reject:
  assumes "4 \<le> rank_of decision_rank (policy_decision pf)" and "\<And>reason. direct pf \<noteq> Some (PolicyDeny reason)"
  shows "\<exists>reason. policy_decision pf = Some (decision.Reject reason)"
proof (cases "policy_decision pf")
  case (Some d)
  have "d \<noteq> PolicyDeny reason" for reason
    using policy_decision_of [of pf] assms(2) Some into_decision.elims
    by (auto elim!: into_decision.elims simp: eq_commute [of "Some _"])
  then show ?thesis using assms(1) Some by (cases d) auto
qed (use assms in simp)

text \<open>A gate that asks or rejects, in the preflight.\<close>

lemma gate_binds:
  assumes "gate = bash_command pf \<or> gate = shell_file pf" and "gate \<noteq> None"
  shows "3 \<le> rank_of decision_rank (policy_decision pf)"
    and "\<exists>reason. gate = Some (GateReject reason) \<Longrightarrow> 4 \<le> rank_of decision_rank (policy_decision pf)"
proof -
  have rank: "rank_of decision_rank (map_option into_decision gate) \<le> rank_of decision_rank (policy_decision pf)"
    using assms(1) by (auto simp: policy_decision_rank)
  moreover have "3 \<le> rank_of decision_rank (map_option into_decision gate)"
    using assms(2) by (auto simp: decision_rank_gate split: option.split gate_decision.split)
  ultimately show "3 \<le> rank_of decision_rank (policy_decision pf)" by simp
  show "4 \<le> rank_of decision_rank (policy_decision pf)" if "\<exists>reason. gate = Some (GateReject reason)"
    using rank that by (auto simp: decision_rank_gate)
qed

lemma rank_three: "rank_of decision_rank d = 3 \<Longrightarrow> d = Some decision.Ask"
proof (cases d)
  case (Some x)
  then show "rank_of decision_rank d = 3 \<Longrightarrow> ?thesis" by (cases x) auto
qed simp

lemma asks_rule_match:
  "gate_le (Some AskRuleMatch) g \<Longrightarrow> g = Some AskRuleMatch \<or> (\<exists>reason. g = Some (GateReject reason))"
proof (cases g)
  case (Some x)
  then show "gate_le (Some AskRuleMatch) g \<Longrightarrow> ?thesis" by (cases x) auto
qed simp

text \<open>The rule \<open>r\<close> binds a command of the script, or a file that it touches, \<open>d\<close> levels of nesting deep.\<close>

inductive binds_script :: "policy_env \<Rightarrow> string \<Rightarrow> string \<Rightarrow> nat \<Rightarrow> permission_rule \<Rightarrow> bool" for env cmd cwd where
  command:
    "runs env pk d cmd ws \<Longrightarrow>
     applies env (access_kind.Bash (join '' '' ws)) None r \<or>
     applies env (access_kind.Bash (join '' '' (normal_words ws))) None r \<Longrightarrow>
     binds_script env cmd cwd d r"
| touched:
    "touches env d cmd False (token, mode) v \<Longrightarrow>
     (q, b) \<in> set (operand_spellings env (rule_base_new cwd) v token) \<Longrightarrow> applies env (shell_access mode q) b r \<Longrightarrow>
     binds_script env cmd cwd d r"

lemma bound_gate:
  fixes auto
  assumes "binds_script env cmd cwd d r" "r \<in> set (rules cfg)" "is_restriction (action r)"
  defines "pf \<equiv> preflight_evaluate env (Some (compiled_policy_new env cfg)) (access_kind.Bash cmd) cwd auto"
  shows "\<exists>gate. (gate = bash_command pf \<or> gate = shell_file pf) \<and> gate \<noteq> None \<and>
    (d \<le> MAX_INLINE_SHELL_DEPTH \<longrightarrow> gate_le (Some AskRuleMatch) gate \<and>
       (action r = rule_action.Deny \<longrightarrow> (\<exists>reason. gate = Some (GateReject reason))))"
  using assms(1)
proof cases
  case (command pk ws)
  from command_rule_gate [OF command(1) assms(2,3) command(2)] show ?thesis
    by (intro exI [of _ "bash_command pf"]) (auto simp: pf_def preflight_fields)
next
  case (touched token mode v q b)
  from file_rule_gate [OF touched(1,2) assms(2,3) touched(3)] show ?thesis
    by (intro exI [of _ "shell_file pf"]) (auto simp: pf_def preflight_fields)
qed

text \<open>C1: The auto-mode classifier does not answer a rule that binds within the nesting bound. When a deny or ask rule binds a
  command that a script runs or a file that it touches, at most \<open>MAX_INLINE_SHELL_DEPTH\<close> levels deep, the preflight rejects the
  script, or the rule asks, the preflight asks and the classifier is not admitted; it rejects when the rule denies. At any depth
  the preflight rejects or asks, never allows or stays silent, and its check of a call the classifier has already allowed
  gives the same answer. Deeper than the bound the question may be one that a script could not be read, which auto mode
  leaves to the classifier.\<close>

theorem classifier_cannot_lift_rules:
  fixes env cfg cmd cwd auto
  defines "pf \<equiv> preflight_evaluate env (Some (compiled_policy_new env cfg)) (access_kind.Bash cmd) cwd auto"
  assumes "binds_script env cmd cwd d r" "r \<in> set (rules cfg)" "is_restriction (action r)"
  shows "(d \<le> MAX_INLINE_SHELL_DEPTH \<longrightarrow>
       (\<exists>reason. policy_decision pf = Some (decision.Reject reason)) \<or>
       action r = rule_action.Ask \<and> policy_decision pf = Some decision.Ask \<and> \<not> admits_auto_classifier pf) \<and>
    ((\<exists>reason. policy_decision pf = Some (decision.Reject reason)) \<or> policy_decision pf = Some decision.Ask) \<and>
    policy_decision pf = Some (classifier_allowed_decision pf)"
proof -
  obtain gate where gate: "gate = bash_command pf \<or> gate = shell_file pf" "gate \<noteq> None"
    and deep: "d \<le> MAX_INLINE_SHELL_DEPTH \<Longrightarrow> gate_le (Some AskRuleMatch) gate"
      "d \<le> MAX_INLINE_SHELL_DEPTH \<Longrightarrow> action r = rule_action.Deny \<Longrightarrow> \<exists>reason. gate = Some (GateReject reason)"
    using bound_gate [OF assms(2-4), of auto] unfolding pf_def by blast
  have "(\<exists>reason. policy_decision pf = Some (decision.Reject reason)) \<or>
      action r = rule_action.Ask \<and> policy_decision pf = Some decision.Ask \<and> \<not> admits_auto_classifier pf"
    if d: "d \<le> MAX_INLINE_SHELL_DEPTH"
  proof (cases "4 \<le> rank_of decision_rank (policy_decision pf)")
    case True
    then show ?thesis using policy_decision_reject [OF True] direct_bash unfolding pf_def by blast
  next
    case False
    then have asks: "policy_decision pf = Some decision.Ask"
      using gate_binds(1) [OF gate] by (intro rank_three) simp
    have "gate = Some AskRuleMatch" using asks_rule_match [OF deep(1) [OF d]] gate_binds(2) [OF gate] False by blast
    then have "\<not> defers_gate_ask pf" using gate(1) preflight_defers unfolding pf_def by metis
    moreover have "action r = rule_action.Ask"
      using deep(2) [OF d] gate_binds(2) [OF gate] False assms(4) by (auto simp: is_restriction_def)
    ultimately show ?thesis using asks by (simp add: admits_auto_classifier_def policy_forced_prompt_def)
  qed
  moreover have outcome: "(\<exists>reason. policy_decision pf = Some (decision.Reject reason)) \<or> policy_decision pf = Some decision.Ask"
  proof (cases "4 \<le> rank_of decision_rank (policy_decision pf)")
    case True
    then show ?thesis using policy_decision_reject [OF True] direct_bash unfolding pf_def by blast
  next
    case False
    then show ?thesis using gate_binds(1) [OF gate] by (intro disjI2 rank_three) simp
  qed
  moreover have "policy_decision pf = Some (classifier_allowed_decision pf)"
    using outcome by (auto simp: classifier_allowed_decision_def)
  ultimately show ?thesis by blast
qed

theorem classifier_cannot_lift_rules_witness:
  "binds_script file_env nested_cat ''/w'' 1 (read_rule rule_action.Deny) \<and>
   (\<exists>reason. policy_decision
     (preflight_evaluate file_env (Some (compiled_policy_new file_env (permission_config_new [read_rule rule_action.Deny])))
        (access_kind.Bash nested_cat) ''/w'' True) = Some (decision.Reject reason))"
proof -
  have "(''/w/k'', Some (rule_base_new ''/w'')) \<in> set (operand_spellings file_env (rule_base_new ''/w'') False ''k'')"
    by code_simp
  moreover have "applies file_env (shell_access ReadMode ''/w/k'') (Some (rule_base_new ''/w'')) (read_rule rule_action.Deny)"
    by code_simp
  ultimately have "binds_script file_env nested_cat ''/w'' 1 (read_rule rule_action.Deny)"
    by (rule binds_script.touched [OF nested_cat_touches])
  moreover have "is_restriction (action (read_rule rule_action.Deny))" by code_simp
  moreover have "read_rule rule_action.Deny \<in> set (rules (permission_config_new [read_rule rule_action.Deny]))"
    by (simp add: permission_config_new_def)
  moreover have "1 \<le> MAX_INLINE_SHELL_DEPTH" "action (read_rule rule_action.Deny) \<noteq> rule_action.Ask" by code_simp+
  ultimately show ?thesis
    using classifier_cannot_lift_rules [where cfg = "permission_config_new [read_rule rule_action.Deny]" and auto = True] by blast
qed

end
