(* ===== verification/Url_Match.thy ===== *)
theory Url_Match
  imports Path_Match
begin

text \<open>
  Matching of server addresses for managed policy (\<open>managed_policy/url_match.rs\<close>, \<open>source_identity.rs\<close>). An allow
  pattern is a positive grant: scheme, host, port and path match separately, and anything unreadable grants
  nothing. A deny pattern ignores scheme and port, and an address that cannot be read is denied.

  IP addresses are the standard library's: an IPv4 address is its four octets, an IPv6 address its eight groups, with the
  parsers of \<open>core::net\<close>. Parsing of whole URLs and of URL hosts (crate \<open>url\<close>), globs (crate \<open>glob\<close>) and Unicode lower-casing
  are parameters. What the code only logs is left out: \<open>warn_on_unmatchable_allow_url\<close> does nothing else.
\<close>

section \<open>IP addresses (\<open>std::net\<close>)\<close>

type_synonym ipv4 = "nat list"
type_synonym ipv6 = "nat list"

datatype ip_addr = V4 ipv4 | V6 ipv6

definition digit_value :: "char \<Rightarrow> nat option" where
  "digit_value c =
     (if is_ascii_digit c then Some (byte c - 48)
      else if 97 \<le> byte c \<and> byte c \<le> 102 then Some (byte c - 87)
      else if 65 \<le> byte c \<and> byte c \<le> 70 then Some (byte c - 55)
      else None)"

definition is_digit_of :: "nat \<Rightarrow> char \<Rightarrow> bool" where
  "is_digit_of radix c = (case digit_value c of Some d \<Rightarrow> d < radix | None \<Rightarrow> False)"

text \<open>\<open>Parser::read_number\<close>: the value and the rest of the input. \<open>bound\<close> is the largest value of the type.\<close>

definition read_number :: "nat \<Rightarrow> nat \<Rightarrow> bool \<Rightarrow> nat \<Rightarrow> string \<Rightarrow> (nat \<times> string) option" where
  "read_number radix max_digits allow_zero_prefix bound s =
     (let ds = takeWhile (is_digit_of radix) s;
          v = foldl (\<lambda>n c. radix * n + the (digit_value c)) 0 ds
      in if ds = [] \<or> max_digits < length ds then None
         else if \<not> allow_zero_prefix \<and> hd ds = CHR ''0'' \<and> 1 < length ds then None
         else if bound < v then None
         else Some (v, drop (length ds) s))"

text \<open>\<open>Parser::read_separator\<close>: the separator precedes every item but the first.\<close>

definition after_separator :: "char \<Rightarrow> bool \<Rightarrow> string \<Rightarrow> string option" where
  "after_separator sep first s =
     (if first then Some s else case s of c # rest \<Rightarrow> (if c = sep then Some rest else None) | [] \<Rightarrow> None)"

fun read_octets :: "nat \<Rightarrow> bool \<Rightarrow> string \<Rightarrow> (nat list \<times> string) option" where
  "read_octets 0 first s = Some ([], s)"
| "read_octets (Suc n) first s =
     (case Option.bind (after_separator (CHR ''.'') first s) (read_number 10 3 False 255) of
        None \<Rightarrow> None
      | Some (octet, rest) \<Rightarrow> map_option (\<lambda>(os, rest'). (octet # os, rest')) (read_octets n False rest))"

definition read_ipv4 :: "string \<Rightarrow> (ipv4 \<times> string) option" where
  "read_ipv4 s = read_octets 4 True s"

text \<open>\<open>read_groups\<close> with \<open>n\<close> groups left to read: the groups, whether they end in an IPv4 address, and the rest.\<close>

fun read_groups :: "nat \<Rightarrow> bool \<Rightarrow> string \<Rightarrow> nat list \<times> bool \<times> string" where
  "read_groups 0 first s = ([], False, s)"
| "read_groups (Suc n) first s =
     (case (if 1 \<le> n then Option.bind (after_separator (CHR '':'') first s) read_ipv4 else None) of
        Some ([a, b, c, d], rest) \<Rightarrow> ([256 * a + b, 256 * c + d], True, rest)
      | _ \<Rightarrow>
          (case Option.bind (after_separator (CHR '':'') first s) (read_number 16 4 True 65535) of
             None \<Rightarrow> ([], False, s)
           | Some (g, rest) \<Rightarrow>
               (let (gs, v4, rest') = read_groups n False rest in (g # gs, v4, rest'))))"

definition read_ipv6 :: "string \<Rightarrow> (ipv6 \<times> string) option" where
  "read_ipv6 s =
     (let (head, head_v4, rest) = read_groups 8 True s
      in if length head = 8 then Some (head, rest)
         else if head_v4 then None
         else case strip_prefix rest ''::'' of
           None \<Rightarrow> None
         | Some back \<Rightarrow>
             (let (tail, _, rest') = read_groups (8 - (length head + 1)) True back
              in Some (head @ replicate (8 - length head - length tail) 0 @ tail, rest')))"

definition parse_ipv6 :: "string \<Rightarrow> ipv6 option" where
  "parse_ipv6 s = (case read_ipv6 s of Some (a, []) \<Rightarrow> Some a | _ \<Rightarrow> None)"

definition ipv4_display :: "ipv4 \<Rightarrow> string" where
  "ipv4_display a = join ''.'' (map decimal a)"

definition to_ipv4_mapped :: "ipv6 \<Rightarrow> ipv4 option" where
  "to_ipv4_mapped a =
     (if take 6 a = [0, 0, 0, 0, 0, 65535] \<and> length a = 8
      then Some [a ! 6 div 256, a ! 6 mod 256, a ! 7 div 256, a ! 7 mod 256]
      else None)"

text \<open>The first longest run of zero groups: where it starts and how long it is.\<close>

fun zero_run_loop :: "nat \<Rightarrow> nat list \<Rightarrow> nat \<times> nat \<Rightarrow> nat \<times> nat \<Rightarrow> nat \<times> nat" where
  "zero_run_loop i [] cur longest = longest"
| "zero_run_loop i (g # gs) cur longest =
     (if g = 0 then
        let cur' = (if snd cur = 0 then (i, 1) else (fst cur, snd cur + 1))
        in zero_run_loop (Suc i) gs cur' (if snd longest < snd cur' then cur' else longest)
      else zero_run_loop (Suc i) gs (0, 0) longest)"

definition ipv6_display :: "ipv6 \<Rightarrow> string" where
  "ipv6_display a =
     (case to_ipv4_mapped a of
        Some v4 \<Rightarrow> ''::ffff:'' @ ipv4_display v4
      | None \<Rightarrow>
          let (start, len) = zero_run_loop 0 a (0, 0) (0, 0); groups = (\<lambda>gs. join '':'' (map hex gs))
          in if 1 < len then groups (take start a) @ ''::'' @ groups (drop (start + len) a) else groups a)"

definition to_canonical :: "ip_addr \<Rightarrow> ip_addr" where
  "to_canonical a =
     (case a of V4 v4 \<Rightarrow> V4 v4 | V6 v6 \<Rightarrow> (case to_ipv4_mapped v6 of Some v4 \<Rightarrow> V4 v4 | None \<Rightarrow> V6 v6))"

section \<open>Parameters\<close>

datatype url_host = HostDomain string | HostV4 ipv4 | HostV6 ipv6

record parsed_url =
  parsed_scheme :: string
  parsed_host :: "url_host option"
  parsed_port :: "nat option"
  parsed_path :: string

text \<open>\<open>glob_accepts pattern case_sensitive text\<close>.\<close>

record url_library =
  glob_compiles :: "string \<Rightarrow> bool"
  glob_accepts :: "string \<Rightarrow> bool \<Rightarrow> string \<Rightarrow> bool"
  url_parse :: "string \<Rightarrow> parsed_url option"
  host_parse :: "string \<Rightarrow> url_host option"
  unicode_lowercase :: "string \<Rightarrow> string"

section \<open>Splitting patterns\<close>

fun find_str :: "string \<Rightarrow> string \<Rightarrow> nat option" where
  "find_str [] p = (if p = [] then Some 0 else None)"
| "find_str (c # s) p = (if starts_with (c # s) p then Some 0 else map_option Suc (find_str s p))"

text \<open>\<open>s.rsplit(c).next()\<close>, \<open>s.split(c).next()\<close>, and \<open>is_ascii\<close>.\<close>

definition after_last :: "char \<Rightarrow> string \<Rightarrow> string" where
  "after_last c s = rev (takeWhile (\<lambda>x. x \<noteq> c) (rev s))"

definition before_first :: "char \<Rightarrow> string \<Rightarrow> string" where
  "before_first c s = takeWhile (\<lambda>x. x \<noteq> c) s"

definition is_ascii_text :: "string \<Rightarrow> bool" where
  "is_ascii_text s = list_all (\<lambda>c. byte c < 128) s"

fun split_dot :: "string \<Rightarrow> string list" where
  "split_dot [] = [[]]"
| "split_dot (c # s) =
     (if c = CHR ''.'' then [] # split_dot s else case split_dot s of [] \<Rightarrow> [[c]] | w # ws \<Rightarrow> (c # w) # ws)"

definition has_glob_meta :: "string \<Rightarrow> bool" where
  "has_glob_meta s = list_ex (\<lambda>c. c = CHR ''*'' \<or> c = CHR ''?'' \<or> c = CHR ''['') s"

definition split_scheme :: "string \<Rightarrow> string option \<times> string" where
  "split_scheme s =
     (case find_str s ''://'' of Some i \<Rightarrow> (Some (take i s), drop (i + 3) s) | None \<Rightarrow> (None, s))"

definition split_authority_path :: "string \<Rightarrow> string \<times> string" where
  "split_authority_path s =
     (case find_char s slash of Some i \<Rightarrow> (take i s, drop i s) | None \<Rightarrow> (s, []))"

definition is_bracketed_ipv6 :: "string \<Rightarrow> bool" where
  "is_bracketed_ipv6 authority =
     (case Option.bind (strip_prefix authority ''['') (\<lambda>rest. split_once rest (CHR '']'')) of
        Some (addr, _) \<Rightarrow> parse_ipv6 addr \<noteq> None
      | None \<Rightarrow> False)"

text \<open>A decimal port only: \<open>port.parse::<u16>()\<close>.\<close>

definition parse_port :: "string \<Rightarrow> nat option" where
  "parse_port p = parse_unsigned u16_max p"

text \<open>The host of a deny pattern when its authority has no bracketed address.\<close>

definition plain_deny_host :: "string \<Rightarrow> string" where
  "plain_deny_host authority =
     (case rsplit_once authority (CHR '':'') of
        Some (before_port, port) \<Rightarrow>
          if port \<noteq> [] \<and> list_all is_ascii_digit port \<and> parse_port port \<noteq> None \<and> parse_ipv6 before_port \<noteq> None
          then before_port
          else if parse_ipv6 authority \<noteq> None then authority
          else before_first (CHR '':'') authority
      | None \<Rightarrow> if parse_ipv6 authority \<noteq> None then authority else before_first (CHR '':'') authority)"

definition split_host_path :: "string \<Rightarrow> string option \<times> string" where
  "split_host_path s =
     (let after_scheme = (case find_str s ''://'' of Some i \<Rightarrow> drop (i + 3) s | None \<Rightarrow> s);
          (raw_authority, path) = split_authority_path after_scheme;
          authority = after_last (CHR ''@'') raw_authority;
          bracket = Option.bind (strip_prefix authority ''['') (\<lambda>rest.
            let content = (case find_char rest (CHR '']'') of Some i \<Rightarrow> take i rest | None \<Rightarrow> rest)
            in if parse_ipv6 content \<noteq> None then Some content else None);
          host = (case bracket of Some content \<Rightarrow> content | None \<Rightarrow> plain_deny_host authority);
          host' = to_ascii_lowercase (trim_end_char host (CHR ''.''))
      in if host' = [] then (None, path) else (Some host', path))"

section \<open>Canonical forms\<close>

definition canonicalize_label :: "url_library \<Rightarrow> string \<Rightarrow> string" where
  "canonicalize_label lib label =
     (if has_glob_meta label \<or> (is_ascii_text label \<and> CHR ''%'' \<notin> set label) then to_ascii_lowercase label
      else case host_parse lib label of
        Some (HostDomain canonical) \<Rightarrow> canonical
      | _ \<Rightarrow> to_ascii_lowercase label)"

definition canonicalize_pattern_host :: "url_library \<Rightarrow> string \<Rightarrow> string" where
  "canonicalize_pattern_host lib raw =
     (let host = trim_end_char raw (CHR ''.'')
      in if is_ascii_text host \<and> CHR ''%'' \<notin> set host then to_ascii_lowercase host
         else join ''.'' (map (canonicalize_label lib) (split_dot host)))"

definition is_unreserved :: "char \<Rightarrow> bool" where
  "is_unreserved c = (is_ascii_alphanumeric c \<or> c = CHR ''-'' \<or> c = CHR ''.'' \<or> c = CHR ''_'' \<or> c = CHR ''~'')"

definition to_ascii_uppercase_char :: "char \<Rightarrow> char" where
  "to_ascii_uppercase_char c = (if is_ascii_lower c then char_of (byte c - 32) else c)"

text \<open>The escape at the front: \<open>hi\<close> and \<open>lo\<close> are the two characters after the percent sign.\<close>

definition decoded_escape :: "char \<Rightarrow> char \<Rightarrow> string option" where
  "decoded_escape hi lo =
     (case (digit_value hi, digit_value lo) of
        (Some h, Some l) \<Rightarrow>
          let decoded = char_of (16 * h + l)
          in Some (if is_unreserved decoded then [decoded]
                   else [CHR ''%'', to_ascii_uppercase_char hi, to_ascii_uppercase_char lo])
      | _ \<Rightarrow> None)"

fun decode_unreserved_escapes :: "string \<Rightarrow> string" where
  "decode_unreserved_escapes (b # hi # lo # rest) =
     (case (if b = CHR ''%'' then decoded_escape hi lo else None) of
        Some out \<Rightarrow> out @ decode_unreserved_escapes rest
      | None \<Rightarrow> b # decode_unreserved_escapes (hi # lo # rest))"
| "decode_unreserved_escapes s = s"

definition dot_segment_step :: "string list \<Rightarrow> string \<Rightarrow> string list" where
  "dot_segment_step out seg =
     (if seg = ''.'' then out
      else if seg = ''..'' then (if 1 < length out then butlast out else out)
      else out @ [seg])"

definition resolve_pattern_dot_segments :: "string \<Rightarrow> string" where
  "resolve_pattern_dot_segments path =
     (if \<not> contains_str path ''/.'' then path
      else
        let ends_dir = (after_last slash path = ''.'' \<or> after_last slash path = ''..'');
            joined = join [slash] (foldl dot_segment_step [] (split_slash path));
            joined = (if joined = [] then [slash] else joined)
        in if ends_dir \<and> \<not> ends_with joined [slash] then joined @ [slash] else joined)"

definition needs_encoding :: "char \<Rightarrow> bool" where
  "needs_encoding b =
     (128 \<le> byte b \<or> byte b < 32 \<or>
      b \<in> {CHR '' '', CHR 0x22, CHR ''#'', CHR ''<'', CHR ''>'', CHR 0x60, CHR ''{'', CHR ''}'', CHR 0x7F})"

definition percent_encode :: "char \<Rightarrow> string" where
  "percent_encode b =
     (if needs_encoding b
      then [CHR ''%'', to_ascii_uppercase_char (hex_digit (byte b div 16)),
            to_ascii_uppercase_char (hex_digit (byte b mod 16))]
      else [b])"

definition canonicalize_pattern_path :: "string \<Rightarrow> string" where
  "canonicalize_pattern_path raw =
     (let path = resolve_pattern_dot_segments (decode_unreserved_escapes raw)
      in if \<not> list_ex needs_encoding path then path else concat (map percent_encode path))"

fun collapse_loop :: "string \<Rightarrow> string \<Rightarrow> string" where
  "collapse_loop out [] = out"
| "collapse_loop out (c # s) =
     (if c = slash \<and> ends_with out [slash] then collapse_loop out s else collapse_loop (out @ [c]) s)"

definition collapse_empty_segments :: "string \<Rightarrow> string" where
  "collapse_empty_segments path = collapse_loop [] path"

section \<open>The address a client would connect to\<close>

record runtime_url =
  run_scheme :: string
  run_host :: url_host
  run_port :: "nat option"
  run_path :: string

definition runtime_url_parse :: "url_library \<Rightarrow> string \<Rightarrow> runtime_url option" where
  "runtime_url_parse lib url =
     (case url_parse lib url of
        None \<Rightarrow> None
      | Some parsed \<Rightarrow>
          (case parsed_host parsed of
             None \<Rightarrow> None
           | Some host \<Rightarrow>
               Some \<lparr>run_scheme = parsed_scheme parsed, run_host = host, run_port = parsed_port parsed,
                     run_path = decode_unreserved_escapes (parsed_path parsed)\<rparr>))"

definition host_text :: "runtime_url \<Rightarrow> string" where
  "host_text r =
     (case run_host r of
        HostDomain d \<Rightarrow> to_ascii_lowercase (trim_end_char d (CHR ''.''))
      | HostV4 a \<Rightarrow> ipv4_display a
      | HostV6 a \<Rightarrow> ipv6_display a)"

definition runtime_authority :: "runtime_url \<Rightarrow> string" where
  "runtime_authority r =
     (let host = (case run_host r of HostV6 a \<Rightarrow> ''['' @ ipv6_display a @ '']'' | _ \<Rightarrow> host_text r)
      in case run_port r of Some port \<Rightarrow> host @ '':'' @ decimal port | None \<Rightarrow> host)"

definition warn_on_dead_unicode_glob_label :: "string \<Rightarrow> bool" where
  "warn_on_dead_unicode_glob_label host =
     list_ex (\<lambda>label. \<not> is_ascii_text label \<and> has_glob_meta label) (split_dot host)"

definition warn_on_unmatchable_deny_url :: "url_library \<Rightarrow> string \<Rightarrow> bool" where
  "warn_on_unmatchable_deny_url lib pattern =
     (case fst (split_host_path pattern) of
        None \<Rightarrow> True
      | Some host \<Rightarrow>
          \<not> glob_compiles lib (canonicalize_pattern_host lib host) \<or> warn_on_dead_unicode_glob_label host)"

definition argv_matches :: "string list \<Rightarrow> string \<Rightarrow> string list \<Rightarrow> bool" where
  "argv_matches argv command args =
     (case argv of [] \<Rightarrow> False | first # rest \<Rightarrow> first = command \<and> rest = args)"

section \<open>Allow patterns\<close>

datatype allow_scheme = AnyScheme | LiteralScheme string | NeverScheme

definition SUPPORTED_REMOTE_SCHEMES :: "string list" where
  "SUPPORTED_REMOTE_SCHEMES = [''http'', ''https'']"

definition allow_scheme_new :: "string \<Rightarrow> allow_scheme" where
  "allow_scheme_new scheme =
     (if scheme = ''*'' then AnyScheme
      else if scheme = [] \<or> has_glob_meta scheme then NeverScheme
      else LiteralScheme scheme)"

fun allow_scheme_matches :: "allow_scheme \<Rightarrow> string \<Rightarrow> bool" where
  "allow_scheme_matches AnyScheme runtime_scheme =
     list_ex (\<lambda>s. eq_ignore_ascii_case s runtime_scheme) SUPPORTED_REMOTE_SCHEMES"
| "allow_scheme_matches (LiteralScheme scheme) runtime_scheme = eq_ignore_ascii_case scheme runtime_scheme"
| "allow_scheme_matches NeverScheme runtime_scheme = False"

text \<open>A compiled glob is its text.\<close>

datatype allow_authority = BracketedIpv6 string | HostPort "string option" "string option"

datatype allow_path = AnyPath | GlobPath string | NeverPath

record allow_pattern_parts =
  part_scheme :: "string option"
  part_authority :: string
  part_bracketed :: bool
  part_host :: string
  part_port :: "string option"
  part_path :: string

definition split_allow_pattern :: "string \<Rightarrow> allow_pattern_parts" where
  "split_allow_pattern pattern =
     (let (scheme, rest) = split_scheme pattern;
          (raw_authority, path) = split_authority_path rest;
          authority = after_last (CHR ''@'') raw_authority;
          bracketed = is_bracketed_ipv6 authority;
          (host, port) =
            (if bracketed then (authority, None)
             else case rsplit_once authority (CHR '':'') of
               Some (host, port) \<Rightarrow> (host, Some port)
             | None \<Rightarrow> (authority, None))
      in \<lparr>part_scheme = scheme, part_authority = authority, part_bracketed = bracketed, part_host = host,
          part_port = port, part_path = path\<rparr>)"

definition allow_path_new :: "url_library \<Rightarrow> string \<Rightarrow> allow_path" where
  "allow_path_new lib canonical =
     (if canonical = [] \<or> canonical = [slash] then AnyPath
      else if glob_compiles lib canonical then GlobPath canonical
      else NeverPath)"

fun allow_path_matches :: "url_library \<Rightarrow> allow_path \<Rightarrow> string \<Rightarrow> bool" where
  "allow_path_matches lib AnyPath url_path = True"
| "allow_path_matches lib (GlobPath p) url_path = glob_accepts lib p True url_path"
| "allow_path_matches lib NeverPath url_path = False"

record compiled_allow =
  allow_scheme_of :: allow_scheme
  allow_authority_of :: allow_authority
  allow_path_of :: allow_path

definition allow_url_matcher_new :: "url_library \<Rightarrow> string \<Rightarrow> compiled_allow option" where
  "allow_url_matcher_new lib pattern =
     (let parts = split_allow_pattern pattern
      in case part_scheme parts of
           None \<Rightarrow> None
         | Some scheme \<Rightarrow>
             let canonical_host = canonicalize_pattern_host lib (part_host parts);
                 authority =
                   (if part_bracketed parts then BracketedIpv6 (part_authority parts)
                    else HostPort (if glob_compiles lib canonical_host then Some canonical_host else None)
                           (part_port parts))
             in Some \<lparr>allow_scheme_of = allow_scheme_new scheme, allow_authority_of = authority,
                      allow_path_of = allow_path_new lib (canonicalize_pattern_path (part_path parts))\<rparr>)"

definition scheme_default_port :: "string \<Rightarrow> string option" where
  "scheme_default_port scheme =
     (if scheme = ''http'' \<or> scheme = ''ws'' then Some ''80''
      else if scheme = ''https'' \<or> scheme = ''wss'' then Some ''443''
      else None)"

definition strip_pattern_default_port :: "string \<Rightarrow> string \<Rightarrow> string" where
  "strip_pattern_default_port authority scheme =
     (case Option.bind (scheme_default_port scheme) parse_port of
        None \<Rightarrow> authority
      | Some default_port \<Rightarrow>
          (case rsplit_once authority (CHR '':'') of
             Some (host, port) \<Rightarrow>
               if ends_with host '']'' \<and> parse_port port = Some default_port then host else authority
           | None \<Rightarrow> authority))"

definition bracketed_parts :: "string \<Rightarrow> (ipv6 \<times> string) option" where
  "bracketed_parts authority =
     (case strip_prefix authority ''['' of
        None \<Rightarrow> None
      | Some rest \<Rightarrow>
          (case find_char rest (CHR '']'') of
             None \<Rightarrow> None
           | Some i \<Rightarrow> map_option (\<lambda>addr. (addr, drop (i + 1) rest)) (parse_ipv6 (take i rest))))"

definition ports_equal :: "string \<Rightarrow> string \<Rightarrow> bool" where
  "ports_equal a b =
     (case (Option.bind (strip_prefix a '':'') parse_port, Option.bind (strip_prefix b '':'') parse_port) of
        (Some pa, Some pb) \<Rightarrow> pa = pb
      | _ \<Rightarrow> a = b)"

definition ipv6_authorities_equal :: "string \<Rightarrow> string \<Rightarrow> bool" where
  "ipv6_authorities_equal a b =
     (case (bracketed_parts a, bracketed_parts b) of
        (Some (addr_a, port_a), Some (addr_b, port_b)) \<Rightarrow> addr_a = addr_b \<and> ports_equal port_a port_b
      | _ \<Rightarrow> eq_ignore_ascii_case a b)"

definition port_granted :: "string option \<Rightarrow> runtime_url \<Rightarrow> bool" where
  "port_granted port r =
     (case (port, run_port r) of
        (None, None) \<Rightarrow> True
      | (None, Some _) \<Rightarrow> False
      | (Some p, Some n) \<Rightarrow> parse_port p = Some n
      | (Some p, None) \<Rightarrow>
          (case scheme_default_port (run_scheme r) of
             Some default_port \<Rightarrow> parse_port p = parse_port default_port
           | None \<Rightarrow> False))"

definition allow_authority_matches :: "url_library \<Rightarrow> allow_authority \<Rightarrow> runtime_url \<Rightarrow> bool" where
  "allow_authority_matches lib authority r =
     (case authority of
        BracketedIpv6 pat \<Rightarrow>
          ipv6_authorities_equal (strip_pattern_default_port pat (run_scheme r)) (runtime_authority r)
      | HostPort host port \<Rightarrow>
          (case host of Some h \<Rightarrow> glob_accepts lib h False (host_text r) | None \<Rightarrow> False) \<and> port_granted port r)"

definition allow_url_matches :: "url_library \<Rightarrow> compiled_allow option \<Rightarrow> string \<Rightarrow> bool" where
  "allow_url_matches lib matcher url =
     (case matcher of
        None \<Rightarrow> False
      | Some compiled \<Rightarrow>
          (case runtime_url_parse lib url of
             None \<Rightarrow> False
           | Some r \<Rightarrow>
               allow_scheme_matches (allow_scheme_of compiled) (run_scheme r) \<and>
               allow_authority_matches lib (allow_authority_of compiled) r \<and>
               allow_path_matches lib (allow_path_of compiled) (run_path r)))"

section \<open>Deny patterns\<close>

datatype deny_host = GlobHost string | LiteralHost string

datatype deny_path = HostOnly | DenyGlob string | BrokenGlob

record compiled_deny =
  deny_ip :: "ip_addr option"
  deny_host_of :: deny_host
  deny_path_of :: deny_path

definition parse_ip_host :: "url_library \<Rightarrow> string \<Rightarrow> ip_addr option" where
  "parse_ip_host lib host =
     map_option to_canonical
       (case parse_ipv6 host of
          Some v6 \<Rightarrow> Some (V6 v6)
        | None \<Rightarrow>
            (case host_parse lib host of
               Some (HostV4 a) \<Rightarrow> Some (V4 a)
             | Some (HostV6 a) \<Rightarrow> Some (V6 a)
             | _ \<Rightarrow> None))"

definition deny_url_matcher_new :: "url_library \<Rightarrow> string \<Rightarrow> compiled_deny option" where
  "deny_url_matcher_new lib pattern =
     (case split_host_path pattern of
        (None, _) \<Rightarrow> None
      | (Some pat_host, raw_path) \<Rightarrow>
          let canonical_host = canonicalize_pattern_host lib pat_host;
              pat_path = collapse_empty_segments (canonicalize_pattern_path raw_path)
          in Some \<lparr>deny_ip = parse_ip_host lib pat_host,
                   deny_host_of =
                     (if glob_compiles lib canonical_host then GlobHost canonical_host else LiteralHost canonical_host),
                   deny_path_of =
                     (if pat_path = [] \<or> pat_path = [slash] then HostOnly
                      else if glob_compiles lib pat_path then DenyGlob pat_path
                      else BrokenGlob)\<rparr>)"

definition deny_host_matches :: "url_library \<Rightarrow> compiled_deny \<Rightarrow> string \<Rightarrow> bool" where
  "deny_host_matches lib compiled url_host =
     (case (deny_ip compiled, parse_ip_host lib url_host) of
        (Some pat_ip, Some url_ip) \<Rightarrow> pat_ip = url_ip
      | _ \<Rightarrow>
          (case deny_host_of compiled of
             GlobHost p \<Rightarrow> glob_accepts lib p False url_host
           | LiteralHost canonical \<Rightarrow> eq_ignore_ascii_case canonical url_host))"

definition deny_path_matches :: "url_library \<Rightarrow> deny_path \<Rightarrow> string \<Rightarrow> bool" where
  "deny_path_matches lib path url_path =
     (case path of
        HostOnly \<Rightarrow> True
      | DenyGlob p \<Rightarrow> glob_accepts lib p False (collapse_empty_segments url_path)
      | BrokenGlob \<Rightarrow> True)"

definition deny_url_matches :: "url_library \<Rightarrow> compiled_deny option \<Rightarrow> string \<Rightarrow> bool" where
  "deny_url_matches lib matcher url =
     (case matcher of
        None \<Rightarrow> False
      | Some compiled \<Rightarrow>
          (case runtime_url_parse lib url of
             None \<Rightarrow> True
           | Some r \<Rightarrow>
               deny_host_matches lib compiled (host_text r) \<and> deny_path_matches lib (deny_path_of compiled) (run_path r)))"

section \<open>Identity of a git source\<close>

definition canonical_remote :: "string \<Rightarrow> string option" where
  "canonical_remote url =
     (case split_scheme url of
        (Some scheme, rest) \<Rightarrow>
          (let (authority, path) = split_authority_path rest
           in Some (to_ascii_lowercase scheme @ ''://'' @ to_ascii_lowercase authority @ path))
      | (None, _) \<Rightarrow>
          (case split_once url (CHR '':'') of
             None \<Rightarrow> None
           | Some (user_host, path) \<Rightarrow>
               if CHR ''@'' \<in> set user_host \<and> slash \<notin> set user_host
               then Some (to_ascii_lowercase user_host @ '':'' @ path) else None))"

definition normalize_git_url :: "string \<Rightarrow> string" where
  "normalize_git_url raw =
     (let url = (case strip_suffix raw ''.git'' of Some u \<Rightarrow> u | None \<Rightarrow> raw)
      in case canonical_remote url of Some c \<Rightarrow> c | None \<Rightarrow> url)"

definition is_same_source_identity :: "string \<Rightarrow> string \<Rightarrow> bool" where
  "is_same_source_identity a b =
     (a = b \<or> (canonical_remote a \<noteq> None \<and> normalize_git_url a = normalize_git_url b))"

end
