(* ===== verification/Managed_Policy.thy ===== *)
theory Managed_Policy
  imports Url_Match Perm_Rules
begin

text \<open>
  Managed policy (\<open>managed_policy\<close>: \<open>layer.rs\<close>, \<open>parse.rs\<close>, \<open>mcp.rs\<close>, \<open>marketplace.rs\<close>, \<open>mod.rs\<close>, \<open>verdict.rs\<close>, and the reading
  of \<open>managed-settings.json\<close> in \<open>resolution.rs\<close>): settings files of an administrator and of the user, folded into
  lists of allowed and denied servers and marketplaces and into switches that only tighten.

  A settings file is a JSON value. The layers written in TOML arrive as tables whose values have a type of their own;
  their conversion to JSON (crates \<open>toml\<close> and \<open>serde_json\<close>) is a parameter that may fail. Discovery and reading
  of the files, the per-process cache, and messages that are only logged are left out. Paths are UTF-8.
\<close>

section \<open>JSON (\<open>serde_json::Value\<close>)\<close>

fun json_get :: "json \<Rightarrow> string \<Rightarrow> json option" where
  "json_get (JObject kvs) key = map_of kvs key"
| "json_get v key = None"

fun as_str :: "json \<Rightarrow> string option" where
  "as_str (JString s) = Some s"
| "as_str v = None"

fun as_bool :: "json \<Rightarrow> bool option" where
  "as_bool (JBool b) = Some b"
| "as_bool v = None"

fun as_array :: "json \<Rightarrow> json list option" where
  "as_array (JArray vs) = Some vs"
| "as_array v = None"

fun as_object :: "json \<Rightarrow> (string \<times> json) list option" where
  "as_object (JObject kvs) = Some kvs"
| "as_object v = None"

lemma json_element_size: "x \<in> set xs \<Longrightarrow> size x < size (JArray xs)"
  by (induction xs) auto

lemma json_entry_size: "(key, x) \<in> set kvs \<Longrightarrow> size x < size (JObject kvs)"
  by (induction kvs) auto

text \<open>A number is its text as serde_json prints it: an integer without a point, a float with a point or an exponent in its shortest
  form. Two numbers print alike exactly when serde_json takes them as equal, but for the two float zeros, which are equal.\<close>

definition number_eq :: "string \<Rightarrow> string \<Rightarrow> bool" where
  "number_eq x y \<longleftrightarrow> x = y \<or> (x \<in> {''0.0'', ''-0.0''} \<and> y \<in> {''0.0'', ''-0.0''})"

text \<open>Objects are equal when they have the same entries, in any order.\<close>

function json_eq :: "json \<Rightarrow> json \<Rightarrow> bool" where
  "json_eq a b =
     (case (a, b) of
        (JNull, JNull) \<Rightarrow> True
      | (JBool x, JBool y) \<Rightarrow> x = y
      | (JNumber x, JNumber y) \<Rightarrow> number_eq x y
      | (JString x, JString y) \<Rightarrow> x = y
      | (JArray xs, JArray ys) \<Rightarrow> length xs = length ys \<and> list_all (\<lambda>(x, y). json_eq x y) (zip xs ys)
      | (JObject xs, JObject ys) \<Rightarrow>
          length xs = length ys \<and>
          list_all (\<lambda>(key, x). case map_of ys key of Some y \<Rightarrow> json_eq x y | None \<Rightarrow> False) xs
      | _ \<Rightarrow> False)"
  by pat_completeness auto
termination
proof (relation "measure (size \<circ> fst)", goal_cases)
  case (2 a b x y xs ys z xa ya)
  then show ?case using json_element_size set_zip_leftD by fastforce
next
  case (3 a b x y xs ys z key xa ya)
  then show ?case using json_entry_size by fastforce
qed simp

declare json_eq.simps [simp del]

section \<open>Layers\<close>

datatype policy_layer_tier =
  Mdm | SystemRequirementsTier | SystemManaged | UserRequirements | UserManaged | Vendor

text \<open>The derived order: the order of the constructors.\<close>

fun tier_rank :: "policy_layer_tier \<Rightarrow> nat" where
  "tier_rank Mdm = 0"
| "tier_rank SystemRequirementsTier = 1"
| "tier_rank SystemManaged = 2"
| "tier_rank UserRequirements = 3"
| "tier_rank UserManaged = 4"
| "tier_rank Vendor = 5"

datatype policy_source_authority = Native | Advisory

datatype policy_layer_ownership = Admin | User

definition tier_authority :: "policy_layer_tier \<Rightarrow> policy_source_authority" where
  "tier_authority tier = (if tier = Vendor then Advisory else Native)"

definition tier_ownership :: "policy_layer_tier \<Rightarrow> policy_layer_ownership" where
  "tier_ownership tier = (if tier = UserRequirements \<or> tier = UserManaged then User else Admin)"

text \<open>A layer's table; \<open>None\<close> when the file is not a table.\<close>

record 't policy_layer =
  layer_tier :: policy_layer_tier
  layer_path :: string
  layer_table :: "(string \<times> 't) list option"

datatype policy_pin = Unpinned | Disabled string policy_layer_ownership

fun is_disabled :: "policy_pin \<Rightarrow> bool" where
  "is_disabled Unpinned = False"
| "is_disabled (Disabled source ownership) = True"

fun pin_source :: "policy_pin \<Rightarrow> string option" where
  "pin_source Unpinned = None"
| "pin_source (Disabled source ownership) = Some source"

definition accepts_grant_from :: "policy_layer_ownership \<Rightarrow> policy_layer_ownership \<Rightarrow> bool" where
  "accepts_grant_from restriction grant = (restriction = User \<or> grant = Admin)"

section \<open>Servers and entries\<close>

text \<open>\<open>McpServer\<close> of the protocol crate may grow; what this build cannot inspect is \<open>OtherServer\<close>.\<close>

datatype mcp_server =
  HttpServer string string
| SseServer string string
| StdioServer string string "string list"
| OtherServer

fun mcp_server_name :: "mcp_server \<Rightarrow> string" where
  "mcp_server_name (HttpServer name url) = name"
| "mcp_server_name (SseServer name url) = name"
| "mcp_server_name (StdioServer name command args) = name"
| "mcp_server_name OtherServer = []"

fun server_url :: "mcp_server \<Rightarrow> string option" where
  "server_url (HttpServer name url) = Some url"
| "server_url (SseServer name url) = Some url"
| "server_url s = None"

definition mcp_transport_known :: "mcp_server \<Rightarrow> bool" where
  "mcp_transport_known server = (server \<noteq> OtherServer)"

datatype policy_subject_origin = GrokNative | Foreign

datatype allowed_mcp_server =
  Http string | Stdio string | StdioArgv "string list" | Name string

definition MANAGED_MCP_PREFIX :: string where
  "MANAGED_MCP_PREFIX = ''grok_com_''"

definition MANAGED_MCP_NAME_MAX_CHARS :: nat where
  "MANAGED_MCP_NAME_MAX_CHARS = 39"

definition normalize_managed_name :: "url_library \<Rightarrow> string \<Rightarrow> string" where
  "normalize_managed_name lib bare = replace (unicode_lowercase lib bare) '' '' ''_''"

text \<open>\<open>chars().count()\<close>, and the bytes of the first \<open>n\<close> characters.\<close>

definition char_count :: "string \<Rightarrow> nat" where
  "char_count s = length (filter (\<lambda>c. \<not> is_continuation c) s)"

fun take_chars :: "nat \<Rightarrow> string \<Rightarrow> string" where
  "take_chars n [] = []"
| "take_chars n (c # s) =
     (if is_continuation c then c # take_chars n s
      else case n of 0 \<Rightarrow> [] | Suc m \<Rightarrow> c # take_chars m s)"

definition name_key :: "url_library \<Rightarrow> string \<Rightarrow> string" where
  "name_key lib s =
     normalize_managed_name lib (case strip_prefix s MANAGED_MCP_PREFIX of Some bare \<Rightarrow> bare | None \<Rightarrow> s)"

definition truncate_key :: "string \<Rightarrow> string" where
  "truncate_key key = take_chars (MANAGED_MCP_NAME_MAX_CHARS - length MANAGED_MCP_PREFIX) key"

definition mcp_name_matches :: "url_library \<Rightarrow> string \<Rightarrow> string \<Rightarrow> bool" where
  "mcp_name_matches lib pat name =
     (let truncated = (starts_with name MANAGED_MCP_PREFIX \<and> char_count name = MANAGED_MCP_NAME_MAX_CHARS);
          shorten = (\<lambda>key. if truncated then truncate_key key else key);
          pattern_key = shorten (name_key lib pat)
      in pattern_key \<noteq> [] \<and> pattern_key = shorten (name_key lib name))"

fun mcp_entry_matches :: "url_library \<Rightarrow> allowed_mcp_server \<Rightarrow> mcp_server \<Rightarrow> bool" where
  "mcp_entry_matches lib (Name name) server = mcp_name_matches lib name (mcp_server_name server)"
| "mcp_entry_matches lib (Stdio command) (StdioServer n server_command args) = (command = server_command)"
| "mcp_entry_matches lib (StdioArgv argv) (StdioServer n server_command args) = argv_matches argv server_command args"
| "mcp_entry_matches lib entry server = False"

fun mcp_entry_restricts :: "allowed_mcp_server \<Rightarrow> mcp_server \<Rightarrow> bool" where
  "mcp_entry_restricts entry OtherServer = True"
| "mcp_entry_restricts (Name name) server = True"
| "mcp_entry_restricts (Http url) server = (server_url server \<noteq> None)"
| "mcp_entry_restricts entry server = (server_url server = None)"

record 'm compiled_entry =
  entry_of :: allowed_mcp_server
  url_matcher :: "'m option"

definition compile_entries :: "allowed_mcp_server list \<Rightarrow> (string \<Rightarrow> 'm) \<Rightarrow> 'm compiled_entry list" where
  "compile_entries entries compile =
     map (\<lambda>e. \<lparr>entry_of = e, url_matcher = (case e of Http url_pattern \<Rightarrow> Some (compile url_pattern) | _ \<Rightarrow> None)\<rparr>) entries"

section \<open>One source of server policy\<close>

record mcp_server_allowlist =
  allow_entries :: "compiled_allow option compiled_entry list"
  deny_entries :: "compiled_deny option compiled_entry list"
  managed_only :: bool
  is_lockdown :: bool
  ownership :: policy_layer_ownership
  source_path :: "string option"
  authority :: policy_source_authority

definition allowlist_new ::
  "url_library \<Rightarrow> allowed_mcp_server list \<Rightarrow> allowed_mcp_server list \<Rightarrow> string option \<Rightarrow> mcp_server_allowlist" where
  "allowlist_new lib allow deny path =
     \<lparr>allow_entries = compile_entries allow (allow_url_matcher_new lib),
      deny_entries = compile_entries deny (deny_url_matcher_new lib),
      managed_only = False, is_lockdown = False, ownership = User, source_path = path, authority = Native\<rparr>"

definition binds :: "mcp_server_allowlist \<Rightarrow> policy_subject_origin \<Rightarrow> bool" where
  "binds s origin = (authority s = Native \<or> origin = Foreign)"

definition is_restricted :: "mcp_server_allowlist \<Rightarrow> bool" where
  "is_restricted s = (is_lockdown s \<or> managed_only s \<or> allow_entries s \<noteq> [] \<or> deny_entries s \<noteq> [])"

definition entry_grants :: "url_library \<Rightarrow> mcp_server \<Rightarrow> compiled_allow option compiled_entry \<Rightarrow> bool" where
  "entry_grants lib server compiled =
     (case url_matcher compiled of
        Some matcher \<Rightarrow> (case server_url server of Some url \<Rightarrow> allow_url_matches lib matcher url | None \<Rightarrow> False)
      | None \<Rightarrow> mcp_entry_matches lib (entry_of compiled) server)"

definition matches_allow_entry :: "url_library \<Rightarrow> mcp_server_allowlist \<Rightarrow> mcp_server \<Rightarrow> bool" where
  "matches_allow_entry lib s server = list_ex (entry_grants lib server) (allow_entries s)"

definition allows_ignoring_managed_only :: "url_library \<Rightarrow> mcp_server_allowlist \<Rightarrow> mcp_server \<Rightarrow> bool" where
  "allows_ignoring_managed_only lib s server =
     (if is_lockdown s then False
      else if \<not> is_restricted s then True
      else \<not> list_ex (\<lambda>c. mcp_entry_restricts (entry_of c) server) (allow_entries s) \<or> matches_allow_entry lib s server)"

definition entry_denies :: "url_library \<Rightarrow> mcp_server \<Rightarrow> compiled_deny option compiled_entry \<Rightarrow> bool" where
  "entry_denies lib server compiled =
     (case url_matcher compiled of
        Some matcher \<Rightarrow> (case server_url server of Some url \<Rightarrow> deny_url_matches lib matcher url | None \<Rightarrow> False)
      | None \<Rightarrow> mcp_entry_matches lib (entry_of compiled) server)"

definition is_server_denied_known :: "url_library \<Rightarrow> mcp_server_allowlist \<Rightarrow> mcp_server \<Rightarrow> bool \<Rightarrow> bool" where
  "is_server_denied_known lib s server known =
     (if \<not> known then deny_entries s \<noteq> [] else list_ex (entry_denies lib server) (deny_entries s))"

definition is_server_denied :: "url_library \<Rightarrow> mcp_server_allowlist \<Rightarrow> mcp_server \<Rightarrow> bool" where
  "is_server_denied lib s server = is_server_denied_known lib s server (mcp_transport_known server)"

section \<open>Server policy across sources\<close>

type_synonym mcp_server_policy = "mcp_server_allowlist list"

definition policy_is_restricted :: "mcp_server_policy \<Rightarrow> bool" where
  "policy_is_restricted p = list_ex is_restricted p"

definition binding_sources :: "mcp_server_policy \<Rightarrow> policy_subject_origin \<Rightarrow> mcp_server_allowlist list" where
  "binding_sources p origin = filter (\<lambda>s. binds s origin) p"

definition policy_managed_only :: "mcp_server_policy \<Rightarrow> policy_subject_origin \<Rightarrow> bool" where
  "policy_managed_only p origin = list_ex managed_only (binding_sources p origin)"

definition denying_source ::
  "url_library \<Rightarrow> mcp_server_policy \<Rightarrow> mcp_server \<Rightarrow> policy_subject_origin \<Rightarrow> mcp_server_allowlist option" where
  "denying_source lib p server origin = List.find (\<lambda>s. is_server_denied lib s server) (binding_sources p origin)"

definition policy_is_server_denied :: "url_library \<Rightarrow> mcp_server_policy \<Rightarrow> mcp_server \<Rightarrow> policy_subject_origin \<Rightarrow> bool" where
  "policy_is_server_denied lib p server origin = (denying_source lib p server origin \<noteq> None)"

definition grants_exception :: "url_library \<Rightarrow> mcp_server_policy \<Rightarrow> mcp_server \<Rightarrow> policy_layer_ownership \<Rightarrow> bool" where
  "grants_exception lib p server restriction =
     list_ex (\<lambda>s. accepts_grant_from restriction (ownership s) \<and> matches_allow_entry lib s server) p"

definition blocking_allow_source ::
  "url_library \<Rightarrow> mcp_server_policy \<Rightarrow> mcp_server \<Rightarrow> policy_subject_origin \<Rightarrow> mcp_server_allowlist option" where
  "blocking_allow_source lib p server origin =
     (case List.find (\<lambda>s. managed_only s \<and> \<not> grants_exception lib p server (ownership s)) (binding_sources p origin) of
        Some s \<Rightarrow> Some s
      | None \<Rightarrow> List.find (\<lambda>s. \<not> allows_ignoring_managed_only lib s server) (binding_sources p origin))"

definition is_server_allowed :: "url_library \<Rightarrow> mcp_server_policy \<Rightarrow> mcp_server \<Rightarrow> policy_subject_origin \<Rightarrow> bool" where
  "is_server_allowed lib p server origin =
     (\<not> policy_is_server_denied lib p server origin \<and> blocking_allow_source lib p server origin = None)"

definition entry_count :: "mcp_server_policy \<Rightarrow> nat" where
  "entry_count p = sum_list (map (\<lambda>s. length (allow_entries s) + length (deny_entries s)) p)"

definition source_paths :: "mcp_server_policy \<Rightarrow> string list" where
  "source_paths p = List.map_filter source_path p"

section \<open>Marketplaces\<close>

record marketplace_allowlist =
  allowed_urls :: "string list"
  market_source_path :: "string option"
  market_authority :: policy_source_authority

definition market_binds :: "marketplace_allowlist \<Rightarrow> policy_subject_origin \<Rightarrow> bool" where
  "market_binds s origin = (market_authority s = Native \<or> origin = Foreign)"

definition market_is_lockdown :: "marketplace_allowlist \<Rightarrow> bool" where
  "market_is_lockdown s = (allowed_urls s = [])"

definition source_allows_url :: "marketplace_allowlist \<Rightarrow> string \<Rightarrow> bool" where
  "source_allows_url s url =
     (let normalized = normalize_git_url url in list_ex (\<lambda>allowed. normalize_git_url allowed = normalized) (allowed_urls s))"

definition user_facing_policy_source :: "string \<Rightarrow> string" where
  "user_facing_policy_source path = (case path_file_name path of Some name \<Rightarrow> name | None \<Rightarrow> path)"

definition source_block_reason :: "marketplace_allowlist \<Rightarrow> string" where
  "source_block_reason s =
     (case market_source_path s of
        Some p \<Rightarrow> ''source not in strictKnownMarketplaces ('' @ p @ '')''
      | None \<Rightarrow> ''source not in strictKnownMarketplaces'')"

definition user_facing_block_reason :: "marketplace_allowlist \<Rightarrow> string" where
  "user_facing_block_reason s =
     (case market_source_path s of
        Some p \<Rightarrow> ''source not in strictKnownMarketplaces ('' @ user_facing_policy_source p @ '')''
      | None \<Rightarrow> ''source not in strictKnownMarketplaces'')"

type_synonym marketplace_policy = "marketplace_allowlist list"

definition is_restricted_for :: "marketplace_policy \<Rightarrow> policy_subject_origin \<Rightarrow> bool" where
  "is_restricted_for p origin = list_ex (\<lambda>s. market_binds s origin) p"

definition is_url_allowed :: "marketplace_policy \<Rightarrow> string \<Rightarrow> policy_subject_origin \<Rightarrow> bool" where
  "is_url_allowed p url origin = list_all (\<lambda>s. source_allows_url s url) (filter (\<lambda>s. market_binds s origin) p)"

definition blocking_source :: "marketplace_policy \<Rightarrow> string \<Rightarrow> policy_subject_origin \<Rightarrow> marketplace_allowlist option" where
  "blocking_source p url origin =
     (case List.find (\<lambda>s. market_binds s origin \<and> \<not> source_allows_url s url) p of
        Some s \<Rightarrow> Some s
      | None \<Rightarrow> List.find (\<lambda>s. market_binds s origin) p)"

definition block_reason :: "marketplace_policy \<Rightarrow> string \<Rightarrow> policy_subject_origin \<Rightarrow> string" where
  "block_reason p url origin =
     (case blocking_source p url origin of
        Some s \<Rightarrow> source_block_reason s
      | None \<Rightarrow> ''source not in strictKnownMarketplaces'')"

definition add_block_reason :: "marketplace_policy \<Rightarrow> string \<Rightarrow> string option" where
  "add_block_reason p identity =
     (if is_restricted_for p Foreign \<and> \<not> is_url_allowed p identity Foreign
      then Some (case blocking_source p identity Foreign of
                   Some s \<Rightarrow> user_facing_block_reason s
                 | None \<Rightarrow> ''source not in strictKnownMarketplaces'')
      else None)"

definition union_urls :: "marketplace_policy \<Rightarrow> string list" where
  "union_urls p = fold (\<lambda>url out. if url \<in> set out then out else out @ [url]) (concat (map allowed_urls p)) []"

datatype managed_marketplace_kind = Git string "string option" | Local string

record managed_marketplace =
  market_name :: string
  market_kind :: managed_marketplace_kind
  market_ownership :: policy_layer_ownership

section \<open>Policy keys\<close>

datatype 'a policy_key = Absent | Present 'a | Malformed

fun policy_key_and_then :: "'a policy_key \<Rightarrow> ('a \<Rightarrow> 'b policy_key) \<Rightarrow> 'b policy_key" where
  "policy_key_and_then Absent f = Absent"
| "policy_key_and_then (Present v) f = f v"
| "policy_key_and_then Malformed f = Malformed"

definition policy_key_map :: "('a \<Rightarrow> 'b) \<Rightarrow> 'a policy_key \<Rightarrow> 'b policy_key" where
  "policy_key_map f k = policy_key_and_then k (\<lambda>v. Present (f v))"

definition locks_down :: "'a list policy_key \<Rightarrow> bool" where
  "locks_down k = (k = Present [] \<or> k = Malformed)"

fun policy_entries :: "'a list policy_key \<Rightarrow> 'a list" where
  "policy_entries (Present es) = es"
| "policy_entries k = []"

definition policy_field :: "json \<Rightarrow> string list \<Rightarrow> (string \<times> json) policy_key" where
  "policy_field j keys =
     (case List.map_filter (\<lambda>key. map_option (Pair key) (json_get j key)) keys of
        [] \<Rightarrow> Absent
      | first # rest \<Rightarrow> if list_ex (\<lambda>(_, v). \<not> json_eq v (snd first)) rest then Malformed else Present first)"

definition policy_bool :: "json \<Rightarrow> string list \<Rightarrow> bool \<Rightarrow> bool option" where
  "policy_bool j keys fail_closed =
     (case policy_field j keys of
        Absent \<Rightarrow> None
      | Malformed \<Rightarrow> Some fail_closed
      | Present (_, v) \<Rightarrow> Some (case as_bool v of Some b \<Rightarrow> b | None \<Rightarrow> fail_closed))"

definition policy_array :: "json \<Rightarrow> string list \<Rightarrow> json list policy_key" where
  "policy_array j keys =
     policy_key_and_then (policy_field j keys)
       (\<lambda>(_, v). case as_array v of Some arr \<Rightarrow> Present arr | None \<Rightarrow> Malformed)"

definition MANAGED_POLICY_CONFIG_KEYS :: "string list" where
  "MANAGED_POLICY_CONFIG_KEYS =
     [''allowedMcpServers'', ''allowed_mcp_servers'', ''deniedMcpServers'', ''denied_mcp_servers'',
      ''allowManagedMcpServersOnly'', ''allow_managed_mcp_servers_only'', ''allowManagedHooksOnly'',
      ''allow_managed_hooks_only'', ''enableAllProjectMcpServers'', ''enable_all_project_mcp_servers'',
      ''pluginAutoUpdate'', ''plugin_auto_update'', ''strictKnownMarketplaces'', ''strict_known_marketplaces'',
      ''extraKnownMarketplaces'', ''extra_known_marketplaces'']"

definition marketplace_source_from_json :: "json \<Rightarrow> managed_marketplace_kind option" where
  "marketplace_source_from_json e =
     (let git_ref = Option.bind (case json_get e ''ref'' of Some r \<Rightarrow> Some r | None \<Rightarrow> json_get e ''branch'') as_str;
          text = (\<lambda>key. Option.bind (json_get e key) as_str)
      in case text ''source'' of
           None \<Rightarrow> None
         | Some src \<Rightarrow>
             if src = ''git'' then map_option (\<lambda>url. Git url git_ref) (text ''url'')
             else if src = ''github'' then
               map_option (\<lambda>repo. Git (''https://github.com/'' @ repo @ ''.git'') git_ref) (text ''repo'')
             else if src = ''local'' then map_option Local (text ''path'')
             else None)"

definition parse_strict_marketplaces :: "json \<Rightarrow> string list policy_key" where
  "parse_strict_marketplaces j =
     policy_key_map
       (List.map_filter (\<lambda>e. case marketplace_source_from_json e of Some (Git url _) \<Rightarrow> Some url | _ \<Rightarrow> None))
       (policy_array j [''strictKnownMarketplaces'', ''strict_known_marketplaces''])"

record extra_marketplaces =
  extra_entries :: "managed_marketplace list"
  pin_auto_update_off :: bool

text \<open>One entry of the table: what it registers and whether it switches automatic updates off.\<close>

definition extra_marketplace :: "policy_layer_ownership \<Rightarrow> string \<times> json \<Rightarrow> managed_marketplace list \<times> bool" where
  "extra_marketplace owner named =
     (let (name, e) = named
      in case as_object e of
           None \<Rightarrow> ([], True)
         | Some kvs \<Rightarrow>
             (case Option.bind (map_of kvs ''source'') marketplace_source_from_json of
                None \<Rightarrow> []
              | Some kind \<Rightarrow> [\<lparr>market_name = name, market_kind = kind, market_ownership = owner\<rparr>],
              policy_bool e [''autoUpdate'', ''auto_update''] False = Some False))"

definition parse_extra_marketplaces :: "json \<Rightarrow> policy_layer_ownership \<Rightarrow> extra_marketplaces" where
  "parse_extra_marketplaces j owner =
     (case policy_field j [''extraKnownMarketplaces'', ''extra_known_marketplaces''] of
        Absent \<Rightarrow> \<lparr>extra_entries = [], pin_auto_update_off = False\<rparr>
      | Malformed \<Rightarrow> \<lparr>extra_entries = [], pin_auto_update_off = True\<rparr>
      | Present (_, v) \<Rightarrow>
          (case as_object v of
             None \<Rightarrow> \<lparr>extra_entries = [], pin_auto_update_off = True\<rparr>
           | Some named \<Rightarrow>
               let parsed = map (extra_marketplace owner) named
               in \<lparr>extra_entries = concat (map fst parsed), pin_auto_update_off = list_ex snd parsed\<rparr>))"

datatype mcp_policy_list = AllowList | DenyList

definition list_keys :: "mcp_policy_list \<Rightarrow> string list" where
  "list_keys l =
     (case l of AllowList \<Rightarrow> [''allowedMcpServers'', ''allowed_mcp_servers'']
      | DenyList \<Rightarrow> [''deniedMcpServers'', ''denied_mcp_servers''])"

definition SERVER_URL :: "string list" where
  "SERVER_URL = [''serverUrl'', ''server_url'']"

definition SERVER_COMMAND :: "string list" where
  "SERVER_COMMAND = [''serverCommand'', ''server_command'']"

definition SERVER_NAME :: "string list" where
  "SERVER_NAME = [''serverName'', ''server_name'']"

text \<open>The value under the first spelling that is there, and an array of text, all or nothing.\<close>

definition entry_field :: "json \<Rightarrow> string list \<Rightarrow> json option" where
  "entry_field e keys = (case List.map_filter (json_get e) keys of v # _ \<Rightarrow> Some v | [] \<Rightarrow> None)"

definition all_text :: "json list \<Rightarrow> string list option" where
  "all_text vs = those (map as_str vs)"

definition parse_mcp_entry :: "url_library \<Rightarrow> json \<Rightarrow> mcp_policy_list \<Rightarrow> allowed_mcp_server option" where
  "parse_mcp_entry lib e l =
     (if list_ex (\<lambda>keys. policy_field e keys = Malformed) [SERVER_URL, SERVER_COMMAND, SERVER_NAME] then None
      else case Option.bind (entry_field e SERVER_URL) as_str of
        Some url \<Rightarrow>
          if l = DenyList \<and> warn_on_unmatchable_deny_url lib url then None else Some (Http url)
      | None \<Rightarrow>
          (case Option.bind (Option.bind (entry_field e SERVER_COMMAND) as_array) all_text of
             Some (a # argv) \<Rightarrow> Some (StdioArgv (a # argv))
           | _ \<Rightarrow>
               (case Option.bind (json_get e ''command'') as_str of
                  Some cmd \<Rightarrow> Some (Stdio cmd)
                | None \<Rightarrow> map_option Name (Option.bind (entry_field e SERVER_NAME) as_str))))"

text \<open>An allow entry that cannot be used is dropped; a deny entry that cannot be used spoils the list.\<close>

definition parse_mcp_entries :: "url_library \<Rightarrow> json list \<Rightarrow> mcp_policy_list \<Rightarrow> allowed_mcp_server list option" where
  "parse_mcp_entries lib arr l =
     (if l = DenyList \<and> list_ex (\<lambda>e. parse_mcp_entry lib e l = None) arr then None
      else Some (List.map_filter (\<lambda>e. parse_mcp_entry lib e l) arr))"

definition parse_mcp_entry_list :: "url_library \<Rightarrow> json \<Rightarrow> mcp_policy_list \<Rightarrow> allowed_mcp_server list policy_key" where
  "parse_mcp_entry_list lib j l =
     policy_key_and_then (policy_array j (list_keys l))
       (\<lambda>arr. case parse_mcp_entries lib arr l of Some es \<Rightarrow> Present es | None \<Rightarrow> Malformed)"

section \<open>Managed settings\<close>

record managed_settings_features =
  disable_telemetry :: "bool option"
  disable_feedback :: "bool option"
  disable_yolo :: "bool option"
  features_path :: "string option"

record sourced_rule =
  rule_value :: permission_rule
  rule_source :: requirement_source

record managed_settings =
  features :: managed_settings_features
  managed_permissions :: "sourced_rule list"
  managed_default_mode :: "default_permission_mode option"
  mcp_allowlist :: mcp_server_policy
  market_allowlist :: marketplace_policy
  project_mcp :: policy_pin
  plugin_auto_update :: policy_pin
  non_managed_hooks :: policy_pin
  extra_known :: "managed_marketplace list"

definition managed_settings_default :: managed_settings where
  "managed_settings_default =
     \<lparr>features = \<lparr>disable_telemetry = None, disable_feedback = None, disable_yolo = None, features_path = None\<rparr>,
      managed_permissions = [], managed_default_mode = None, mcp_allowlist = [], market_allowlist = [],
      project_mcp = Unpinned, plugin_auto_update = Unpinned, non_managed_hooks = Unpinned, extra_known = []\<rparr>"

datatype bool_pin = ProjectMcp | PluginAutoUpdate | NonManagedHooks

definition ALL_PINS :: "bool_pin list" where
  "ALL_PINS = [ProjectMcp, PluginAutoUpdate, NonManagedHooks]"

fun pin_keys :: "bool_pin \<Rightarrow> string list" where
  "pin_keys ProjectMcp = [''enableAllProjectMcpServers'', ''enable_all_project_mcp_servers'']"
| "pin_keys PluginAutoUpdate = [''pluginAutoUpdate'', ''plugin_auto_update'']"
| "pin_keys NonManagedHooks = [''allowManagedHooksOnly'', ''allow_managed_hooks_only'']"

fun engages_on :: "bool_pin \<Rightarrow> bool" where
  "engages_on ProjectMcp = False"
| "engages_on PluginAutoUpdate = False"
| "engages_on NonManagedHooks = True"

definition pin_disabled :: "string \<Rightarrow> policy_layer_ownership \<Rightarrow> policy_pin \<Rightarrow> policy_pin" where
  "pin_disabled path owner pin =
     (let upgrades = (owner = Admin \<and> (case pin of Disabled _ User \<Rightarrow> True | _ \<Rightarrow> False))
      in if \<not> is_disabled pin \<or> upgrades then Disabled path owner else pin)"

text \<open>\<open>pin_mut\<close>: apply a change to the pin a row names.\<close>

fun change_pin :: "(policy_pin \<Rightarrow> policy_pin) \<Rightarrow> bool_pin \<Rightarrow> managed_settings \<Rightarrow> managed_settings" where
  "change_pin f ProjectMcp ms = ms\<lparr>project_mcp := f (project_mcp ms)\<rparr>"
| "change_pin f PluginAutoUpdate ms = ms\<lparr>plugin_auto_update := f (plugin_auto_update ms)\<rparr>"
| "change_pin f NonManagedHooks ms = ms\<lparr>non_managed_hooks := f (non_managed_hooks ms)\<rparr>"

definition apply_unreadable_policy_source ::
  "url_library \<Rightarrow> string \<Rightarrow> policy_layer_tier \<Rightarrow> managed_settings \<Rightarrow> managed_settings" where
  "apply_unreadable_policy_source lib path tier ms =
     fold (change_pin (pin_disabled path (tier_ownership tier))) ALL_PINS
       (ms\<lparr>mcp_allowlist := mcp_allowlist ms @
              [(allowlist_new lib [] [] (Some path))\<lparr>authority := tier_authority tier, ownership := tier_ownership tier,
                 is_lockdown := True\<rparr>],
           market_allowlist := market_allowlist ms @
              [\<lparr>allowed_urls = [], market_source_path = Some path, market_authority = tier_authority tier\<rparr>]\<rparr>)"

definition mcp_source ::
  "url_library \<Rightarrow> json \<Rightarrow> string \<Rightarrow> policy_layer_tier \<Rightarrow> mcp_server_allowlist list" where
  "mcp_source lib j path tier =
     (let allow_key = parse_mcp_entry_list lib j AllowList;
          deny_key = parse_mcp_entry_list lib j DenyList;
          only = (policy_bool j [''allowManagedMcpServersOnly'', ''allow_managed_mcp_servers_only''] True = Some True);
          lock = (locks_down allow_key \<or> deny_key = Malformed);
          allow = policy_entries allow_key;
          deny = policy_entries deny_key
      in if lock \<or> allow \<noteq> [] \<or> deny \<noteq> [] \<or> only
         then [(allowlist_new lib allow deny (Some path))\<lparr>authority := tier_authority tier, ownership := tier_ownership tier,
                 managed_only := only, is_lockdown := lock\<rparr>]
         else [])"

definition engage_pin :: "json \<Rightarrow> string \<Rightarrow> policy_layer_ownership \<Rightarrow> bool_pin \<Rightarrow> managed_settings \<Rightarrow> managed_settings" where
  "engage_pin j path owner pin ms =
     (if policy_bool j (pin_keys pin) (engages_on pin) = Some (engages_on pin)
      then change_pin (pin_disabled path owner) pin ms else ms)"

definition market_source :: "json \<Rightarrow> string \<Rightarrow> policy_layer_tier \<Rightarrow> marketplace_allowlist list" where
  "market_source j path tier =
     (let strict = parse_strict_marketplaces j
      in if strict = Absent then []
         else [\<lparr>allowed_urls = policy_entries strict, market_source_path = Some path,
                market_authority = tier_authority tier\<rparr>])"

text \<open>The first source to name a marketplace keeps it, except that an administrator's entry replaces a user's.\<close>

fun claim_marketplace :: "managed_marketplace \<Rightarrow> managed_marketplace list \<Rightarrow> managed_marketplace list" where
  "claim_marketplace extra [] = [extra]"
| "claim_marketplace extra (m # ms) =
     (if market_name m = market_name extra
      then (if market_ownership m = User \<and> market_ownership extra = Admin then extra else m) # ms
      else m # claim_marketplace extra ms)"

definition apply_policy_source ::
  "url_library \<Rightarrow> json \<Rightarrow> string \<Rightarrow> policy_layer_tier \<Rightarrow> managed_settings \<Rightarrow> managed_settings" where
  "apply_policy_source lib j path tier ms =
     (let owner = tier_ownership tier;
          ms1 = ms\<lparr>mcp_allowlist := mcp_allowlist ms @ mcp_source lib j path tier\<rparr>;
          ms2 = fold (engage_pin j path owner) ALL_PINS ms1;
          ms3 = ms2\<lparr>market_allowlist := market_allowlist ms2 @ market_source j path tier\<rparr>;
          extras = parse_extra_marketplaces j owner;
          ms4 = (if pin_auto_update_off extras then change_pin (pin_disabled path owner) PluginAutoUpdate ms3 else ms3)
      in ms4\<lparr>extra_known := fold claim_marketplace (extra_entries extras) (extra_known ms4)\<rparr>)"

section \<open>The base of \<open>managed-settings.json\<close>\<close>

text \<open>\<open>Number::as_i64\<close>: an integer that fits; a number with a fraction or an exponent is none.\<close>

definition as_i64 :: "string \<Rightarrow> int option" where
  "as_i64 n =
     (let neg = starts_with n ''-''; ds = (if neg then drop 1 n else n)
      in if ds = [] \<or> \<not> list_all is_ascii_digit ds then None
         else let v = foldl (\<lambda>k c. 10 * k + (byte c - 48)) 0 ds
              in if neg then (if v \<le> 9223372036854775808 then Some (- int v) else None)
                 else if v \<le> 9223372036854775807 then Some (int v) else None)"

definition json_env_flag :: "json option \<Rightarrow> string \<Rightarrow> bool option" where
  "json_env_flag env key =
     (case Option.bind env (\<lambda>e. json_get e key) of
        Some (JNumber n) \<Rightarrow> Some (case as_i64 n of Some i \<Rightarrow> i \<noteq> 0 | None \<Rightarrow> False)
      | Some (JBool b) \<Rightarrow> Some b
      | Some (JString v) \<Rightarrow> Some (\<not> (v = ''0'' \<or> v = [] \<or> v = ''false''))
      | _ \<Rightarrow> None)"

definition parse_disable_bypass_permissions :: "json \<Rightarrow> bool option" where
  "parse_disable_bypass_permissions j =
     map_option (\<lambda>v. as_str v = Some ''disable'')
       (Option.bind (json_get j ''permissions'') (\<lambda>p. json_get p ''disableBypassPermissionsMode''))"

definition claude_bypass_lock_request :: "managed_settings_features \<Rightarrow> bool" where
  "claude_bypass_lock_request f = (features_path f \<noteq> None \<and> disable_yolo f = Some True)"

record parsed_permissions =
  allow_texts :: "string list"
  deny_texts :: "string list"
  ask_texts :: "string list"

text \<open>The derived deserialisation: an object whose three fields may be missing, or an array of at most three; a field is an
  array of text.\<close>

definition text_field :: "json option \<Rightarrow> string list option" where
  "text_field v = (case v of None \<Rightarrow> Some [] | Some j \<Rightarrow> Option.bind (as_array j) all_text)"

definition parsed_permissions_of :: "json option \<Rightarrow> json option \<Rightarrow> json option \<Rightarrow> parsed_permissions option" where
  "parsed_permissions_of a d q =
     (case (text_field a, text_field d, text_field q) of
        (Some allow, Some deny, Some ask) \<Rightarrow> Some \<lparr>allow_texts = allow, deny_texts = deny, ask_texts = ask\<rparr>
      | _ \<Rightarrow> None)"

fun parsed_permissions_from_value :: "json \<Rightarrow> parsed_permissions option" where
  "parsed_permissions_from_value (JObject kvs) =
     parsed_permissions_of (map_of kvs ''allow'') (map_of kvs ''deny'') (map_of kvs ''ask'')"
| "parsed_permissions_from_value (JArray vs) =
     (if length vs \<le> 3 then parsed_permissions_of (nth_opt vs 0) (nth_opt vs 1) (nth_opt vs 2) else None)"
| "parsed_permissions_from_value v = None"

text \<open>The rules that parse, and the texts that do not with their error.\<close>

definition parse_rule_texts ::
  "rule_action \<Rightarrow> string list \<Rightarrow> permission_rule list \<times> (string \<times> rule_parse_error) list" where
  "parse_rule_texts act texts =
     (List.map_filter (\<lambda>t. case parse_permission_rule t act of Inr r \<Rightarrow> Some r | Inl _ \<Rightarrow> None) texts,
      List.map_filter (\<lambda>t. case parse_permission_rule t act of Inr _ \<Rightarrow> None | Inl e \<Rightarrow> Some (t, e)) texts)"

definition into_permission_config :: "parsed_permissions \<Rightarrow> permission_config \<times> string list" where
  "into_permission_config p =
     (let parsed = map (\<lambda>(act, texts, label). (label, parse_rule_texts act texts))
            [(rule_action.Allow, allow_texts p, ''allow''), (rule_action.Deny, deny_texts p, ''deny''),
             (rule_action.Ask, ask_texts p, ''ask'')]
      in (permission_config_new (concat (map (\<lambda>(_, rs, _). rs) parsed)),
          concat (map (\<lambda>(label, _, errs).
              map (\<lambda>(t, e). ''permissions.'' @ label @ '': '' @ t @ '' -- '' @ rule_parse_error_display e) errs) parsed)))"

definition parse_managed_settings_permissions :: "json \<Rightarrow> string \<Rightarrow> sourced_rule list" where
  "parse_managed_settings_permissions j path =
     (case Option.bind (json_get j ''permissions'') parsed_permissions_from_value of
        None \<Rightarrow> []
      | Some p \<Rightarrow>
          map (\<lambda>r. \<lparr>rule_value = r, rule_source = requirement_source.ManagedSettings path\<rparr>)
            (rules (fst (into_permission_config p))))"

definition extract_default_mode :: "json \<Rightarrow> string option" where
  "extract_default_mode j =
     (case Option.bind (json_get j ''permissions'') (\<lambda>p. json_get p ''defaultMode'') of
        Some dm \<Rightarrow> as_str dm
      | None \<Rightarrow> Option.bind (json_get j ''defaultMode'') as_str)"

record skipped_permission =
  skipped_rule :: string
  skipped_reason :: string

definition parse_default_mode_claiming_scope :: "string \<Rightarrow> default_permission_mode \<times> skipped_permission list" where
  "parse_default_mode_claiming_scope raw =
     (case mode_from_str raw of
        Inr mode \<Rightarrow> (mode, [])
      | Inl invalid \<Rightarrow>
          (Default, [\<lparr>skipped_rule = ''defaultMode='' @ invalid, skipped_reason = ''unrecognized value; treated as default''\<rparr>]))"

definition parse_managed_settings_base :: "json \<Rightarrow> string \<Rightarrow> managed_settings" where
  "parse_managed_settings_base j path =
     managed_settings_default\<lparr>
       features := \<lparr>disable_telemetry = json_env_flag (json_get j ''env'') ''DISABLE_TELEMETRY'',
                    disable_feedback = json_env_flag (json_get j ''env'') ''DISABLE_FEEDBACK_COMMAND'',
                    disable_yolo = parse_disable_bypass_permissions j, features_path = Some path\<rparr>,
       managed_permissions := parse_managed_settings_permissions j path,
       managed_default_mode := map_option (\<lambda>raw. fst (parse_default_mode_claiming_scope raw)) (extract_default_mode j)\<rparr>"

section \<open>Folding the layers\<close>

text \<open>\<open>to_json\<close> converts the policy keys of a layer; \<open>None\<close> when it fails.\<close>

definition apply_layer ::
  "url_library \<Rightarrow> ((string \<times> 't) list \<Rightarrow> json option) \<Rightarrow> 't policy_layer \<Rightarrow> managed_settings \<Rightarrow> managed_settings" where
  "apply_layer lib to_json layer ms =
     (let policy_table = filter (\<lambda>(key, _). key \<in> set MANAGED_POLICY_CONFIG_KEYS)
            (case layer_table layer of Some t \<Rightarrow> t | None \<Rightarrow> [])
      in if policy_table = [] then ms
         else case to_json policy_table of
           Some j \<Rightarrow> apply_policy_source lib j (layer_path layer) (layer_tier layer) ms
         | None \<Rightarrow> apply_unreadable_policy_source lib (layer_path layer) (layer_tier layer) ms)"

definition resolve_managed_settings ::
  "url_library \<Rightarrow> ((string \<times> 't) list \<Rightarrow> json option) \<Rightarrow> (json \<times> string) option \<Rightarrow> 't policy_layer list \<Rightarrow>
   managed_settings" where
  "resolve_managed_settings lib to_json claude toml_layers =
     (let base = (case claude of Some (j, path) \<Rightarrow> parse_managed_settings_base j path | None \<Rightarrow> managed_settings_default);
          ms = fold (apply_layer lib to_json) (sort_key (tier_rank \<circ> layer_tier) toml_layers) base
      in case claude of Some (j, path) \<Rightarrow> apply_policy_source lib j path Vendor ms | None \<Rightarrow> ms)"

text \<open>The layers on disk, tagged with their tier; \<open>from_mdm\<close> is a layer that device management delivers.\<close>

record 't managed_config_layer =
  config_path :: string
  config_table :: "(string \<times> 't) list option"
  config_is_system :: bool

record 't requirements_layer =
  requirements_label :: string
  from_mdm :: bool
  requirements_table :: "(string \<times> 't) list option"
  requirements_is_system :: bool

definition managed_toml_policy_layers ::
  "'t managed_config_layer list \<Rightarrow> 't requirements_layer list \<Rightarrow> 't policy_layer list" where
  "managed_toml_policy_layers managed requirements =
     map (\<lambda>l. \<lparr>layer_tier = (if config_is_system l then SystemManaged else UserManaged),
               layer_path = config_path l, layer_table = config_table l\<rparr>) managed @
     map (\<lambda>l. \<lparr>layer_tier = (if from_mdm l then Mdm else if requirements_is_system l then SystemRequirementsTier
                             else UserRequirements),
               layer_path = requirements_label l, layer_table = requirements_table l\<rparr>) requirements"

section \<open>Verdicts\<close>

datatype mcp_block_reason =
  DeniedBy string | NotGranted string | Lockdown string | ProjectPin string

datatype mcp_verdict = Allowed | Blocked mcp_block_reason

fun reason_source :: "mcp_block_reason \<Rightarrow> string" where
  "reason_source (DeniedBy source) = source"
| "reason_source (NotGranted source) = source"
| "reason_source (Lockdown source) = source"
| "reason_source (ProjectPin source) = source"

fun reason_rule :: "mcp_block_reason \<Rightarrow> string" where
  "reason_rule (DeniedBy source) = ''matches deniedMcpServers''"
| "reason_rule (NotGranted source) = ''not in allowedMcpServers''"
| "reason_rule (Lockdown source) = ''locked down by policy''"
| "reason_rule (ProjectPin source) = ''project MCP disabled by enableAllProjectMcpServers = false''"

definition reason_display :: "mcp_block_reason \<Rightarrow> string" where
  "reason_display r = reason_rule r @ '' ('' @ reason_source r @ '')''"

definition user_facing_reason :: "mcp_block_reason \<Rightarrow> string" where
  "user_facing_reason r = reason_rule r @ '' ('' @ user_facing_policy_source (reason_source r) @ '')''"

record mcp_subject =
  subject_origin :: policy_subject_origin
  project_scoped :: bool

definition mcp_project_pin_block ::
  "url_library \<Rightarrow> managed_settings \<Rightarrow> mcp_server \<Rightarrow> mcp_subject \<Rightarrow> mcp_block_reason option" where
  "mcp_project_pin_block lib ms server subject =
     (case project_mcp ms of
        Unpinned \<Rightarrow> None
      | Disabled source owner \<Rightarrow>
          if \<not> project_scoped subject \<or> grants_exception lib (mcp_allowlist ms) server owner then None
          else Some (ProjectPin source))"

definition path_or_empty :: "string option \<Rightarrow> string" where
  "path_or_empty p = (case p of Some path \<Rightarrow> path | None \<Rightarrow> [])"

definition mcp_verdict :: "url_library \<Rightarrow> managed_settings \<Rightarrow> mcp_server \<Rightarrow> mcp_subject \<Rightarrow> mcp_verdict" where
  "mcp_verdict lib ms server subject =
     (case denying_source lib (mcp_allowlist ms) server (subject_origin subject) of
        Some s \<Rightarrow> Blocked (DeniedBy (path_or_empty (source_path s)))
      | None \<Rightarrow>
          (case blocking_allow_source lib (mcp_allowlist ms) server (subject_origin subject) of
             Some s \<Rightarrow>
               Blocked (if is_lockdown s then Lockdown (path_or_empty (source_path s))
                        else NotGranted (path_or_empty (source_path s)))
           | None \<Rightarrow>
               (case mcp_project_pin_block lib ms server subject of
                  Some reason \<Rightarrow> Blocked reason
                | None \<Rightarrow> Allowed)))"

end
