(* ===== verification/Url_Guarantees.thy ===== *)
theory Url_Guarantees
  imports Url_Match
begin

text \<open>
  What the matching of URLs promises: a denied host is denied under every spelling of the rest of the URL, and a pattern's
  path is compared in a normal form.
\<close>

section \<open>Reading a pattern\<close>

text \<open>A port behind a host, or none. Its text is not restricted to digits: a deny pattern may write a star there.\<close>

definition port_suffix :: "string \<Rightarrow> bool" where
  "port_suffix p \<longleftrightarrow>
     p = [] \<or> (\<exists>q. p = CHR '':'' # q \<and> q \<noteq> [] \<and> CHR '':'' \<notin> set q \<and> slash \<notin> set q \<and> CHR ''@'' \<notin> set q)"

text \<open>The ways a deny pattern may name a host: alone, after a scheme, after a scheme and user information; with any number
  of final dots, a port, and any number of slashes behind it.\<close>

inductive names_host :: "string \<Rightarrow> string \<Rightarrow> bool" where
  bare: "port_suffix port \<Longrightarrow> names_host host (host @ replicate k (CHR ''.'') @ port @ replicate n slash)"
| with_scheme: "port_suffix port \<Longrightarrow> CHR '':'' \<notin> set scheme \<Longrightarrow>
    names_host host (scheme @ ''://'' @ host @ replicate k (CHR ''.'') @ port @ replicate n slash)"
| with_user:
    "port_suffix port \<Longrightarrow> CHR '':'' \<notin> set scheme \<Longrightarrow> slash \<notin> set user \<Longrightarrow>
     names_host host (scheme @ ''://'' @ user @ ''@'' @ host @ replicate k (CHR ''.'') @ port @ replicate n slash)"

definition plain_host :: "string \<Rightarrow> bool" where
  "plain_host host \<longleftrightarrow>
     host \<noteq> [] \<and> last host \<noteq> CHR ''.'' \<and>
     list_all (\<lambda>c. byte c < 128 \<and> c \<notin> {CHR '':'', slash, CHR ''@'', CHR ''['', CHR ''%''}) host"

lemma find_str_absent: "CHR '':'' \<notin> set s \<Longrightarrow> find_str s ''://'' = None"
  by (induction s) auto

lemma find_str_first: "CHR '':'' \<notin> set s \<Longrightarrow> find_str (s @ ''://'' @ r) ''://'' = Some (length s)"
  by (induction s) auto

lemma find_char_absent: "c \<notin> set s \<Longrightarrow> find_char s c = None"
  by (induction s) auto

lemma split_authority_path_host:
  "slash \<notin> set a \<Longrightarrow> split_authority_path (a @ replicate n slash) = (a, replicate n slash)"
  by (cases n) (simp_all add: split_authority_path_def find_char_absent find_char_append)

lemma takeWhile_absent: "c \<notin> set s \<Longrightarrow> takeWhile (\<lambda>x. x \<noteq> c) s = s"
  by (induction s) auto

lemma takeWhile_first: "c \<notin> set s \<Longrightarrow> takeWhile (\<lambda>x. x \<noteq> c) (s @ c # t) = s"
  by (induction s) auto

lemma after_last_absent: "c \<notin> set s \<Longrightarrow> after_last c s = s"
  by (simp add: after_last_def takeWhile_absent)

lemma after_last_append: "c \<notin> set s \<Longrightarrow> after_last c (u @ c # s) = s"
  by (simp add: after_last_def takeWhile_first)

lemma lowercase_plain:
  assumes "plain_host host"
  shows "plain_host (to_ascii_lowercase host)"
proof -
  have keep: "byte (to_ascii_lowercase_char c) < 128" if "byte c < 128" for c
    using that by (auto simp: to_ascii_lowercase_char_def is_ascii_upper_def)
  have marks: "\<not> is_ascii_lower d \<and> \<not> is_ascii_upper d"
    if "d \<in> {CHR ''.'', CHR '':'', slash, CHR ''@'', CHR ''['', CHR ''%''}" for d
    using that by (auto simp: is_ascii_upper_def is_ascii_lower_def)
  show ?thesis
    using assms lowercase_char_other marks
    by (simp add: plain_host_def to_ascii_lowercase_def list_all_iff last_map keep)
qed

lemma trim_dots:
  assumes "plain_host host"
  shows "trim_end_char (host @ replicate k (CHR ''.'')) (CHR ''.'') = host"
proof -
  obtain cs c where host: "host = cs @ [c]" "c \<noteq> CHR ''.''"
    using assms by (cases host rule: rev_cases) (auto simp: plain_host_def)
  have "dropWhile (\<lambda>x. x = CHR ''.'') (replicate k (CHR ''.'') @ rev host) = rev host"
    using host by (induction k) auto
  then show ?thesis by (simp add: trim_end_char_def)
qed

lemmas trim_plain = trim_dots [where k = 0, simplified]

lemma plain_host_marks:
  assumes "plain_host host"
  shows "CHR '':'' \<notin> set host" "slash \<notin> set host" "CHR ''@'' \<notin> set host" "CHR ''['' \<notin> set host" "CHR ''%'' \<notin> set host"
    "host \<noteq> []" "is_ascii_text host"
  using assms by (auto simp: plain_host_def list_all_iff is_ascii_text_def)

lemma plain_deny_host_plain: "CHR '':'' \<notin> set host \<Longrightarrow> plain_deny_host host = host"
  by (simp add: plain_deny_host_def rsplit_once_def find_char_absent before_first_def takeWhile_absent)

text \<open>An IPv6 address has at least two colons, so a host with a port is not one.\<close>

abbreviation colons :: "string \<Rightarrow> nat" where
  "colons s \<equiv> count_list s (CHR '':'')"

lemma colons_drop: "colons (drop n s) \<le> colons s"
  by (metis append_take_drop_id count_list_append le_add2)

lemma read_number_colons: "read_number radix m z bound s = Some (v, rest) \<Longrightarrow> colons rest \<le> colons s"
  by (auto simp: read_number_def Let_def colons_drop split: if_splits)

lemma after_separator_colons: "after_separator c first s = Some rest \<Longrightarrow> colons rest \<le> colons s"
  by (auto simp: after_separator_def split: if_splits list.splits)

lemma colon_separator:
  "after_separator (CHR '':'') first s = Some rest \<Longrightarrow> Suc (colons rest) \<le> colons s + (if first then 1 else 0)"
  by (auto simp: after_separator_def split: if_splits list.splits)

lemma read_octets_colons: "read_octets n first s = Some (os, rest) \<Longrightarrow> colons rest \<le> colons s"
proof (induction n first s arbitrary: os rest rule: read_octets.induct)
  case (2 n first s)
  then obtain t o1 r1 os' where step: "after_separator (CHR ''.'') first s = Some t" "read_number 10 3 False 255 t = Some (o1, r1)"
    "read_octets n False r1 = Some (os', rest)"
    by (auto simp: bind_eq_Some_conv split: option.splits)
  have "colons rest \<le> colons r1" using 2(1) [of "(o1, r1)" o1 r1 os' rest] step by simp
  then show ?case
    using read_number_colons [OF step(2)] after_separator_colons [OF step(1)] by linarith
qed simp

lemma read_groups_colons:
  "read_groups n first s = (gs, v4, rest) \<Longrightarrow>
   length gs + colons rest \<le> colons s + (if first then 1 else 0) + (if v4 then 1 else 0) \<and> colons rest \<le> colons s"
proof (induction n arbitrary: first s gs v4 rest)
  case (Suc n)
  let ?sep = "after_separator (CHR '':'') first s"
  consider (v4) t a b c d r where "?sep = Some t" "read_ipv4 t = Some ([a, b, c, d], r)"
      "gs = [256 * a + b, 256 * c + d]" "v4" "rest = r"
    | (stop) "gs = []" "\<not> v4" "rest = s"
    | (group) t g r gs' where "?sep = Some t" "read_number 16 4 True 65535 t = Some (g, r)"
      "read_groups n False r = (gs', v4, rest)" "gs = g # gs'"
    using Suc.prems
    by (auto simp: bind_eq_Some_conv Let_def split: if_splits option.splits list.splits prod.splits)
  then show ?case
  proof cases
    case v4
    have "colons rest \<le> colons t" using v4(2,5) read_octets_colons by (auto simp: read_ipv4_def)
    then show ?thesis
      using v4(3,4) colon_separator [OF v4(1)] after_separator_colons [OF v4(1)] by simp
  next
    case stop
    then show ?thesis by simp
  next
    case group
    show ?thesis
      using Suc.IH [OF group(3)] read_number_colons [OF group(2)] colon_separator [OF group(1)] after_separator_colons [OF group(1)]
        group(4) by (auto split: if_splits)
  qed
qed simp

lemma one_colon_no_ipv6:
  assumes "colons s \<le> 1"
  shows "parse_ipv6 s = None"
proof -
  obtain gs v4 rest where read: "read_groups 8 True s = (gs, v4, rest)" by (cases "read_groups 8 True s")
  have few: "length gs \<noteq> 8" "colons rest \<le> 1" using read_groups_colons [OF read] assms by (auto split: if_splits)
  have "strip_prefix rest ''::'' = None"
  proof (rule ccontr)
    assume "strip_prefix rest ''::'' \<noteq> None"
    then obtain more where "rest = ''::'' @ more" by (auto simp: strip_prefix_eq_Some)
    then show False using few(2) by simp
  qed
  then show ?thesis by (simp add: parse_ipv6_def read_ipv6_def read few(1))
qed

lemma colons_absent: "CHR '':'' \<notin> set s \<Longrightarrow> colons s = 0"
  by (simp add: count_list_0_iff)

lemma plain_deny_host_port:
  assumes "port_suffix port" and host: "CHR '':'' \<notin> set host"
  shows "plain_deny_host (host @ port) = host"
proof (cases "port = []")
  case True
  then show ?thesis using plain_deny_host_plain [OF host] by simp
next
  case False
  then obtain q where port: "port = CHR '':'' # q" "CHR '':'' \<notin> set q" using assms(1) by (auto simp: port_suffix_def)
  have none: "parse_ipv6 (host @ port) = None" "parse_ipv6 host = None"
    using host port by (auto intro!: one_colon_no_ipv6 simp: colons_absent)
  have "before_first (CHR '':'') (host @ port) = host" using host port(1) by (simp add: before_first_def takeWhile_first)
  moreover have "rsplit_once (host @ port) (CHR '':'') = Some (host, q)"
    using rsplit_once_append [OF port(2)] by (simp add: port(1))
  ultimately show ?thesis by (simp add: plain_deny_host_def none)
qed

lemma find_str_port:
  assumes "port_suffix port" and "CHR '':'' \<notin> set s"
  shows "find_str (s @ port @ replicate n slash) ''://'' = None"
proof (cases "port = []")
  case True
  then show ?thesis using assms(2) by (auto intro: find_str_absent)
next
  case False
  then obtain c q where port: "port = CHR '':'' # c # q" "c \<noteq> slash" "CHR '':'' \<notin> set (c # q)"
    using assms(1) by (auto simp: port_suffix_def neq_Nil_conv)
  have "find_str (c # q @ replicate n slash) ''://'' = None"
    using port(3) find_str_absent [of "c # q @ replicate n slash"] by auto
  then have "find_str (port @ replicate n slash) ''://'' = None" using port(1,2) by simp
  then show ?thesis using assms(2) by (induction s) auto
qed

lemma split_host_path_named:
  assumes "names_host host pat" and plain: "plain_host host"
  shows "\<exists>n. split_host_path pat = (Some (to_ascii_lowercase host), replicate n slash)"
proof -
  note marks = plain_host_marks [OF plain]
  define authority where "authority port k = host @ replicate k (CHR ''.'') @ port" for port k
  have authority: "strip_prefix (authority port k) ''['' = None" "slash \<notin> set (authority port k)"
      "after_last (CHR ''@'') (authority port k) = authority port k"
      "after_last (CHR ''@'') (user @ CHR ''@'' # authority port k) = authority port k"
      "plain_deny_host (authority port k) = host @ replicate k (CHR ''.'')"
    if "port_suffix port" for port k user
  proof -
    show "strip_prefix (authority port k) ''['' = None"
      using marks(4,6) by (cases host) (auto simp: strip_prefix_def authority_def)
    show "slash \<notin> set (authority port k)" using marks(2) that by (auto simp: authority_def port_suffix_def)
    have "CHR ''@'' \<notin> set (authority port k)" using marks(3) that by (auto simp: authority_def port_suffix_def)
    then show "after_last (CHR ''@'') (authority port k) = authority port k"
      "after_last (CHR ''@'') (user @ CHR ''@'' # authority port k) = authority port k"
      by (rule after_last_absent, rule after_last_append)
    show "plain_deny_host (authority port k) = host @ replicate k (CHR ''.'')"
      using plain_deny_host_port [OF that, of "host @ replicate k (CHR ''.'')"] marks(1) by (auto simp: authority_def)
  qed
  have nonempty: "to_ascii_lowercase host \<noteq> []" using marks(6) by (simp add: to_ascii_lowercase_def)
  have split: "split_host_path pat = (Some (to_ascii_lowercase host), replicate n slash)"
    if "port_suffix port" "(case find_str pat ''://'' of Some i \<Rightarrow> drop (i + 3) pat | None \<Rightarrow> pat) = u @ authority port k @ replicate n slash"
      "u = [] \<or> (\<exists>user. u = user @ ''@'' \<and> slash \<notin> set user)" for port k n u
  proof -
    have whole: "split_authority_path (u @ authority port k @ replicate n slash) = (u @ authority port k, replicate n slash)"
      using split_authority_path_host [of "u @ authority port k" n] that(3) authority(2) [OF that(1), of k] by auto
    have "after_last (CHR ''@'') (u @ authority port k) = authority port k"
      using that(3) authority(3,4) [OF that(1)] by auto
    then show ?thesis
      unfolding split_host_path_def that(2)
      by (simp add: whole authority(1,5) [OF that(1)] trim_dots [OF plain] nonempty)
  qed
  show ?thesis using assms(1)
  proof cases
    case (bare port k n)
    have "find_str pat ''://'' = None"
      using find_str_port [OF bare(2), of "host @ replicate k (CHR ''.'')"] marks(1) by (auto simp: bare(1))
    then show ?thesis using split [OF bare(2), of "[]" k n] by (auto simp: bare(1) authority_def)
  next
    case (with_scheme port scheme k n)
    then show ?thesis
      using split [OF with_scheme(2), of "[]" k n] find_str_first [OF with_scheme(3), of "authority port k @ replicate n slash"]
      by (auto simp: authority_def)
  next
    case (with_user port scheme user k n)
    then show ?thesis
      using split [OF with_user(2), of "user @ ''@''" k n]
        find_str_first [OF with_user(3), of "user @ ''@'' @ authority port k @ replicate n slash"]
      by (auto simp: authority_def)
  qed
qed

section \<open>Denied hosts\<close>

lemma decode_plain: "CHR ''%'' \<notin> set s \<Longrightarrow> decode_unreserved_escapes s = s"
  by (induction s rule: decode_unreserved_escapes.induct) auto

lemma collapse_slashes: "collapse_loop [slash] (replicate n slash) = [slash]"
  by (induction n) (simp_all add: ends_with_def)

lemma canonical_slashes:
  "collapse_empty_segments (canonicalize_pattern_path (replicate n slash)) = (if n = 0 then [] else [slash])"
proof -
  have "\<not> contains_str (replicate n slash) ''/.''"
  proof
    assume "contains_str (replicate n slash) ''/.''"
    then have "CHR ''.'' \<in> set (replicate n slash)" unfolding contains_str_iff by (metis in_set_conv_decomp append_Cons append_Nil append_assoc)
    then show False by simp
  qed
  moreover have "\<not> list_ex needs_encoding (replicate n slash)" by (auto simp: list_ex_iff needs_encoding_def)
  ultimately have "canonicalize_pattern_path (replicate n slash) = replicate n slash"
    by (simp add: canonicalize_pattern_path_def resolve_pattern_dot_segments_def decode_plain)
  then show ?thesis
    by (cases n) (simp_all add: collapse_empty_segments_def collapse_slashes ends_with_def)
qed

text \<open>C12: A deny pattern that names a host and no path denies a URL exactly when the URL cannot be read or its host is
  the one named: by address when both are addresses, else by the pattern, compared without letter case. It does not
  depend on the URL's scheme, port and path, nor on the scheme, user information, final dots, port and slashes of the
  pattern. This is for hosts \<^emph>\<open>plain_host\<close> admits, ASCII text without colon, slash, at sign, percent sign and opening
  bracket (so no IPv6 address, no host outside ASCII and no character class), whose lower-case form compiles as a glob.\<close>

theorem denied_host_is_denied_everywhere:
  assumes "names_host host pat" "plain_host host" "glob_compiles lib (to_ascii_lowercase host)"
  shows "deny_url_matches lib (deny_url_matcher_new lib pat) url \<longleftrightarrow>
    (case Option.bind (url_parse lib url) parsed_host of
       None \<Rightarrow> True
     | Some h \<Rightarrow>
         let name = host_text \<lparr>run_scheme = [], run_host = h, run_port = None, run_path = []\<rparr>
         in case (parse_ip_host lib (to_ascii_lowercase host), parse_ip_host lib name) of
              (Some denied, Some actual) \<Rightarrow> denied = actual
            | _ \<Rightarrow> glob_accepts lib (to_ascii_lowercase host) False name)"
proof -
  obtain n where split: "split_host_path pat = (Some (to_ascii_lowercase host), replicate n slash)"
    using split_host_path_named [OF assms(1,2)] by blast
  have low: "plain_host (to_ascii_lowercase host)" using assms(2) by (rule lowercase_plain)
  have host: "canonicalize_pattern_host lib (to_ascii_lowercase host) = to_ascii_lowercase host"
    using plain_host_marks [OF low] trim_plain [OF low] by (simp add: canonicalize_pattern_host_def)
  have matcher: "deny_url_matcher_new lib pat =
      Some \<lparr>deny_ip = parse_ip_host lib (to_ascii_lowercase host), deny_host_of = GlobHost (to_ascii_lowercase host),
            deny_path_of = HostOnly\<rparr>"
    using assms(3) by (simp add: deny_url_matcher_new_def split host canonical_slashes Let_def)
  show ?thesis
    unfolding deny_url_matches_def matcher runtime_url_parse_def
    by (simp add: deny_path_matches_def deny_host_matches_def Let_def host_text_def split: option.split bind_splits)
qed

text \<open>A library for one URL, with globs that are literal but for a star at the end.\<close>

definition sample_urls :: url_library where
  "sample_urls =
     \<lparr>glob_compiles = (\<lambda>p. True),
      glob_accepts = (\<lambda>p cs t.
        case strip_suffix p ''*'' of
          Some stem \<Rightarrow> starts_with (if cs then t else to_ascii_lowercase t) (if cs then stem else to_ascii_lowercase stem)
        | None \<Rightarrow> if cs then t = p else eq_ignore_ascii_case t p),
      url_parse = (\<lambda>u.
        if u = ''https://docs.example:8443/x/y''
        then Some \<lparr>parsed_scheme = ''https'', parsed_host = Some (HostDomain ''docs.example''), parsed_port = Some 8443,
                   parsed_path = ''/x/y''\<rparr>
        else if u = ''https://[2001:db8::1]/x''
        then Some \<lparr>parsed_scheme = ''https'', parsed_host = Some (HostV6 [8193, 3512, 0, 0, 0, 0, 0, 1]), parsed_port = None,
                   parsed_path = ''/x''\<rparr>
        else None),
      host_parse = (\<lambda>h. if h = ''2001'' then Some (HostV4 [0, 0, 7, 209]) else Some (HostDomain h)),
      unicode_lowercase = to_ascii_lowercase\<rparr>"

lemma sample_url_fields [simp]:
  "glob_compiles sample_urls p"
  "url_parse sample_urls ''https://docs.example:8443/x/y'' =
     Some \<lparr>parsed_scheme = ''https'', parsed_host = Some (HostDomain ''docs.example''), parsed_port = Some 8443,
           parsed_path = ''/x/y''\<rparr>"
  "url_parse sample_urls ''https://[2001:db8::1]/x'' =
     Some \<lparr>parsed_scheme = ''https'', parsed_host = Some (HostV6 [8193, 3512, 0, 0, 0, 0, 0, 1]), parsed_port = None,
           parsed_path = ''/x''\<rparr>"
  by (simp_all add: sample_urls_def)

lemmas read_groups_numeral = read_groups.simps(2) [of "pred_numeral k" for k, folded numeral_eq_Suc]
lemmas read_octets_numeral = read_octets.simps(2) [of "pred_numeral k" for k, folded numeral_eq_Suc]

lemmas address_simps = parse_ip_host_def parse_ipv6_def read_ipv6_def read_ipv4_def read_groups_numeral read_octets_numeral
  after_separator_def read_number_def is_digit_of_def digit_value_def is_ascii_digit_def strip_prefix_def Let_def

lemma docs_is_no_address: "parse_ip_host sample_urls ''docs.example'' = None"
  by (simp add: address_simps sample_urls_def)

theorem denied_host_is_denied_everywhere_witness:
  "names_host ''Docs.Example'' ''http://me@Docs.Example.:8080//'' \<and> plain_host ''Docs.Example'' \<and>
   deny_url_matches sample_urls (deny_url_matcher_new sample_urls ''http://me@Docs.Example.:8080//'')
     ''https://docs.example:8443/x/y''"
proof -
  have named: "names_host ''Docs.Example'' ''http://me@Docs.Example.:8080//''"
    using with_user [of "'':8080''" "''http''" "''me''" "''Docs.Example''" 1 2] by (simp add: numeral_eq_Suc port_suffix_def)
  have plain: "plain_host ''Docs.Example''" by code_simp
  have low: "to_ascii_lowercase ''Docs.Example'' = ''docs.example''" by code_simp
  have "host_text \<lparr>run_scheme = [], run_host = HostDomain ''docs.example'', run_port = None, run_path = []\<rparr> = ''docs.example''"
    by code_simp
  moreover have "glob_accepts sample_urls ''docs.example'' False ''docs.example''" by code_simp
  ultimately show ?thesis
    using named plain
      denied_host_is_denied_everywhere [OF named plain, of sample_urls "''https://docs.example:8443/x/y''"]
    by (simp add: low docs_is_no_address)
qed

text \<open>An IPv6 address with a wildcard is no address, so a deny pattern is cut at its first colon: it then names another
  host and denies nothing it was meant for.\<close>

lemma ipv6_glob_is_cut:
  "split_host_path ''https://2001:db8*/x'' = (Some ''2001'', ''/x'') \<and>
   parse_ip_host sample_urls ''2001'' = Some (V4 [0, 0, 7, 209])"
  by (simp add: split_host_path_def split_authority_path_def after_last_def plain_deny_host_def rsplit_once_def
      before_first_def trim_end_char_def to_ascii_lowercase_def to_ascii_lowercase_char_def is_ascii_upper_def
      to_canonical_def address_simps sample_urls_def)

section \<open>The normal form of a pattern's path\<close>

definition dotless :: "string \<Rightarrow> bool" where
  "dotless s \<longleftrightarrow> ''.'' \<notin> set (split_slash s) \<and> ''..'' \<notin> set (split_slash s)"

lemma split_slash_prefix:
  "slash \<notin> set w \<Longrightarrow> split_slash (w @ t) = (w @ hd (split_slash t)) # tl (split_slash t)"
proof (induction w)
  case Nil
  then show ?case by (cases "split_slash t") (auto simp: split_slash_nonempty)
qed auto

lemma split_slash_join:
  "ws \<noteq> [] \<Longrightarrow> (\<forall>w\<in>set ws. slash \<notin> set w) \<Longrightarrow> split_slash (join [slash] ws) = ws"
  by (induction "[slash]" ws rule: join.induct) (simp_all add: split_slash_word split_slash_append)

lemma split_slash_last: "split_slash (s @ [slash]) = split_slash s @ [[]]"
  by (induction s) (auto split: list.splits)

lemma inner_segment: "w \<in> set (tl (split_slash s)) \<Longrightarrow> contains_str s (slash # w)"
proof (induction s)
  case (Cons c s)
  show ?case
  proof (cases "c = slash")
    case True
    have "w = hd (split_slash s) \<or> w \<in> set (tl (split_slash s))"
      using Cons.prems True by (cases "split_slash s") auto
    moreover have "starts_with s (hd (split_slash s))"
      by (induction s) (auto split: list.splits)
    ultimately show ?thesis using Cons.IH True by auto
  next
    case False
    then show ?thesis using Cons by (cases "split_slash s") auto
  qed
qed simp

lemma dot_segments_invariant:
  assumes "out \<noteq> []" "hd out = []" "\<forall>w\<in>set out. slash \<notin> set w \<and> w \<noteq> ''.'' \<and> w \<noteq> ''..''" "\<forall>w\<in>set ws. slash \<notin> set w"
  shows "foldl dot_segment_step out ws \<noteq> [] \<and> hd (foldl dot_segment_step out ws) = [] \<and>
    (\<forall>w\<in>set (foldl dot_segment_step out ws). slash \<notin> set w \<and> w \<noteq> ''.'' \<and> w \<noteq> ''..'')"
  using assms
proof (induction ws arbitrary: out)
  case (Cons w ws)
  let ?out = "dot_segment_step out w"
  have "?out \<noteq> []" "hd ?out = []" using Cons.prems by (cases out; auto simp: dot_segment_step_def)+
  moreover have "\<forall>w\<in>set ?out. slash \<notin> set w \<and> w \<noteq> ''.'' \<and> w \<noteq> ''..''"
    using Cons.prems by (auto simp: dot_segment_step_def dest: in_set_butlastD)
  moreover have "\<forall>v\<in>set ws. slash \<notin> set v" using Cons.prems(4) by simp
  ultimately show ?case unfolding foldl_Cons by (rule Cons.IH)
qed simp

lemma starts_slash: "starts_with s [slash] \<longleftrightarrow> (\<exists>t. s = slash # t)"
  by (cases s) auto

lemma dotless_resolved:
  assumes "starts_with path [slash]"
  shows "starts_with (resolve_pattern_dot_segments path) [slash] \<and> dotless (resolve_pattern_dot_segments path)"
proof -
  obtain rest where path: "path = slash # rest" using assms by (auto simp: starts_slash)
  show ?thesis
  proof (cases "contains_str path ''/.''")
    case False
    have "w \<notin> set (tl (split_slash path))" if dot: "w = CHR ''.'' # v" for w v
    proof
      assume "w \<in> set (tl (split_slash path))"
      then have "contains_str path (slash # w)" by (rule inner_segment)
      then obtain a b where "path = a @ ''/.'' @ (v @ b)" by (auto simp: contains_str_iff dot)
      then show False using False contains_str_iff by blast
    qed
    then show ?thesis using False assms by (simp add: resolve_pattern_dot_segments_def dotless_def path)
  next
    case True
    define out where "out = foldl dot_segment_step [] (split_slash path)"
    have "out = foldl dot_segment_step [[]] (split_slash rest)"
      by (simp add: out_def path dot_segment_step_def)
    then have out: "out \<noteq> []" "hd out = []" "\<forall>w\<in>set out. slash \<notin> set w \<and> w \<noteq> ''.'' \<and> w \<noteq> ''..''"
      using dot_segments_invariant [of "[[]]" "split_slash rest"] split_slash_pieces by auto
    define joined where "joined = (if join [slash] out = [] then [slash] else join [slash] out)"
    have "split_slash (join [slash] out) = out" using out by (intro split_slash_join) auto
    then have dots: "dotless joined" using out(3) by (auto simp: joined_def dotless_def)
    have "starts_with joined [slash]"
      using out(1,2) by (cases out rule: list.exhaust; cases "tl out") (auto simp: joined_def)
    moreover have "resolve_pattern_dot_segments path \<in> {joined, joined @ [slash]}"
      using True by (simp add: resolve_pattern_dot_segments_def Let_def out_def [symmetric] joined_def)
    ultimately show ?thesis
      using dots by (auto simp: dotless_def split_slash_last starts_slash)
  qed
qed

section \<open>Encoding and collapsing\<close>

lemma encode_slash [simp]: "percent_encode slash = [slash]"
  by (simp add: percent_encode_def needs_encoding_def)

lemma plain_byte:
  assumes "48 \<le> byte x \<and> byte x \<le> 57 \<or> 65 \<le> byte x \<and> byte x \<le> 70"
  shows "\<not> needs_encoding x \<and> x \<noteq> slash"
  using assms by (auto simp: needs_encoding_def)

lemma encoded_digit:
  assumes "n < 16"
  shows "\<not> needs_encoding (to_ascii_uppercase_char (hex_digit n)) \<and> to_ascii_uppercase_char (hex_digit n) \<noteq> slash"
proof (rule plain_byte, cases "n < 10")
  case True
  then show "48 \<le> byte (to_ascii_uppercase_char (hex_digit n)) \<and> byte (to_ascii_uppercase_char (hex_digit n)) \<le> 57 \<or>
      65 \<le> byte (to_ascii_uppercase_char (hex_digit n)) \<and> byte (to_ascii_uppercase_char (hex_digit n)) \<le> 70"
    by (simp add: hex_digit_def to_ascii_uppercase_char_def is_ascii_lower_def)
next
  case False
  then show "48 \<le> byte (to_ascii_uppercase_char (hex_digit n)) \<and> byte (to_ascii_uppercase_char (hex_digit n)) \<le> 57 \<or>
      65 \<le> byte (to_ascii_uppercase_char (hex_digit n)) \<and> byte (to_ascii_uppercase_char (hex_digit n)) \<le> 70"
    using assms by (simp add: hex_digit_def to_ascii_uppercase_char_def is_ascii_lower_def)
qed

lemma byte_digits: "byte c div 16 < 16" "byte c mod 16 < 16"
  using nat_of_char_less_256 [of c] by (auto simp: less_mult_imp_div_less)

lemma percent_encode_clean: "x \<in> set (percent_encode c) \<Longrightarrow> \<not> needs_encoding x"
  using encoded_digit [OF byte_digits(1), of c] encoded_digit [OF byte_digits(2), of c]
  by (auto simp: percent_encode_def needs_encoding_def [of "CHR ''%''"] split: if_splits)

lemma percent_encode_slash: "c \<noteq> slash \<Longrightarrow> slash \<notin> set (percent_encode c)"
  using encoded_digit [OF byte_digits(1), of c] encoded_digit [OF byte_digits(2), of c]
  by (simp add: percent_encode_def eq_commute [of slash])

abbreviation encoded :: "string \<Rightarrow> string" where
  "encoded s \<equiv> concat (map percent_encode s)"

lemma encoded_plain: "\<not> list_ex needs_encoding s \<Longrightarrow> encoded s = s"
  by (induction s) (auto simp: percent_encode_def)

lemma canonical_encoded:
  "canonicalize_pattern_path raw = encoded (resolve_pattern_dot_segments (decode_unreserved_escapes raw))"
  by (simp add: canonicalize_pattern_path_def Let_def encoded_plain)

lemma split_slash_encoded: "split_slash (encoded s) = map encoded (split_slash s)"
proof (induction s)
  case (Cons c s)
  show ?case
  proof (cases "c = slash")
    case False
    then show ?thesis
      using Cons by (cases "split_slash s") (auto simp: split_slash_prefix [OF percent_encode_slash])
  qed (use Cons in simp)
qed simp

lemma encoded_Nil: "encoded v = [] \<Longrightarrow> v = []"
  by (cases v) (auto simp: percent_encode_def split: if_splits)

lemma encoded_dot: "encoded w = CHR ''.'' # u \<Longrightarrow> \<exists>v. w = CHR ''.'' # v \<and> encoded v = u"
  by (cases w) (auto simp: percent_encode_def split: if_splits)

lemma encoded_dots: "encoded w = ''.'' \<Longrightarrow> w = ''.''" "encoded w = ''..'' \<Longrightarrow> w = ''..''"
  by (blast dest: encoded_dot encoded_Nil)+

lemma dotless_encoded: "dotless s \<Longrightarrow> dotless (encoded s)"
  by (auto simp: dotless_def split_slash_encoded dest: encoded_dots [OF sym])

text \<open>Collapsing, with the last byte written as the state.\<close>

fun collapsed :: "bool \<Rightarrow> string \<Rightarrow> string" where
  "collapsed b [] = []"
| "collapsed b (c # s) = (if c = slash \<and> b then collapsed b s else c # collapsed (c = slash) s)"

lemma collapse_loop_collapsed: "collapse_loop out s = out @ collapsed (ends_with out [slash]) s"
  by (induction s arbitrary: out) (auto simp: ends_with_def)

lemma collapsed_True: "\<not> starts_with (collapsed True s) [slash]"
  by (induction s) auto

lemma collapsed_no_double: "\<not> contains_str (collapsed b s) ''//''"
proof (induction s arbitrary: b)
  case (Cons c s)
  have "\<not> starts_with (slash # collapsed True s) ''//''"
    using collapsed_True [of s] by (cases "collapsed True s") auto
  then show ?case using Cons [of True] Cons [of False] by (cases "c = slash") auto
qed simp

lemma collapsed_segments:
  "set (split_slash (collapsed True s)) \<subseteq> set (split_slash s) \<and>
   hd (split_slash (collapsed False s)) = hd (split_slash s) \<and>
   set (tl (split_slash (collapsed False s))) \<subseteq> set (tl (split_slash s))"
proof (induction s)
  case (Cons c s)
  show ?case
  proof (cases "c = slash")
    case True
    then show ?thesis using Cons by auto
  next
    case False
    obtain v vs w ws where segs: "split_slash s = v # vs" "split_slash (collapsed False s) = w # ws"
      using split_slash_nonempty by (metis list.exhaust)
    then show ?thesis using Cons False by auto
  qed
qed simp

lemma collapse_is_collapsed: "collapse_empty_segments s = collapsed False s"
  by (simp add: collapse_empty_segments_def collapse_loop_collapsed ends_with_def)

lemma dotless_collapse: "dotless s \<Longrightarrow> dotless (collapse_empty_segments s)"
  using collapsed_segments [of s] split_slash_nonempty [of s] split_slash_nonempty [of "collapsed False s"]
  by (cases "split_slash s"; cases "split_slash (collapsed False s)") (auto simp: dotless_def collapse_is_collapsed)

lemma collapsed_set: "set (collapsed b s) \<subseteq> set s"
  by (induction s arbitrary: b) auto

lemma decode_starts: "starts_with s [slash] \<Longrightarrow> starts_with (decode_unreserved_escapes s) [slash]"
  by (cases s rule: decode_unreserved_escapes.cases) auto

text \<open>C37: The path of a deny pattern is compared in a normal form. Whatever path a pattern spells after its host, with
  escapes, dot segments and repeated slashes, the compiled path starts with a slash, has no segment that is a dot or two
  dots, no two slashes in a row, and no byte that a URL would escape.\<close>

theorem pattern_path_normal_form:
  assumes "starts_with raw [slash]"
  shows "let path = collapse_empty_segments (canonicalize_pattern_path raw)
    in starts_with path [slash] \<and> ''.'' \<notin> set (split_slash path) \<and> ''..'' \<notin> set (split_slash path) \<and>
       \<not> contains_str path ''//'' \<and> \<not> list_ex needs_encoding path"
proof -
  define resolved where "resolved = resolve_pattern_dot_segments (decode_unreserved_escapes raw)"
  have resolved: "starts_with resolved [slash]" "dotless resolved"
    using dotless_resolved [OF decode_starts [OF assms]] by (simp_all add: resolved_def)
  then have "starts_with (encoded resolved) [slash]" by (auto simp: starts_slash)
  then have "starts_with (collapse_empty_segments (encoded resolved)) [slash]"
    by (auto simp: starts_slash collapse_is_collapsed)
  moreover have "dotless (collapse_empty_segments (encoded resolved))"
    using resolved(2) by (intro dotless_collapse dotless_encoded)
  moreover have "\<not> list_ex needs_encoding (collapse_empty_segments (encoded resolved))"
    using collapsed_set [of False "encoded resolved"] percent_encode_clean
    by (fastforce simp: list_ex_iff collapse_is_collapsed)
  ultimately show ?thesis
    using collapsed_no_double [of False "encoded resolved"]
    by (simp add: canonical_encoded resolved_def [symmetric] collapse_is_collapsed dotless_def)
qed

theorem pattern_path_normal_form_witness:
  "starts_with ''/a/%2E./b//%7ec d'' ''/'' \<and>
   collapse_empty_segments (canonicalize_pattern_path ''/a/%2E./b//%7ec d'') = ''/b/~c%20d'' \<and>
   ''..'' \<notin> set (split_slash (collapse_empty_segments (canonicalize_pattern_path ''/a/%2E./b//%7ec d'')))"
proof -
  have slash: "starts_with ''/a/%2E./b//%7ec d'' ''/''" by code_simp
  have "collapse_empty_segments (canonicalize_pattern_path ''/a/%2E./b//%7ec d'') = ''/b/~c%20d''" by code_simp
  then show ?thesis using slash pattern_path_normal_form [OF slash] by (simp add: Let_def)
qed

end
