(* ===== verification/Managed_Guarantees.thy ===== *)
theory Managed_Guarantees
  imports Managed_Policy Url_Guarantees
begin

text \<open>
  What managed policy promises: when exactly a server may run, that settings owned by the user never loosen what an
  administrator's settings decide, that policy that cannot be read locks down, that a denied host stays denied however a
  URL spells the rest, and that patterns are compared in a normal form.
\<close>

section \<open>When a server may run\<close>

definition source_admits :: "url_library \<Rightarrow> mcp_server_policy \<Rightarrow> mcp_server \<Rightarrow> mcp_server_allowlist \<Rightarrow> bool" where
  "source_admits lib p server s \<longleftrightarrow>
     \<not> is_server_denied lib s server \<and> allows_ignoring_managed_only lib s server \<and>
     (managed_only s \<longrightarrow> grants_exception lib p server (ownership s))"

definition pin_admits :: "url_library \<Rightarrow> managed_settings \<Rightarrow> mcp_server \<Rightarrow> mcp_subject \<Rightarrow> bool" where
  "pin_admits lib ms server subject \<longleftrightarrow>
     (case project_mcp ms of
        Unpinned \<Rightarrow> True
      | Disabled src owner \<Rightarrow> project_scoped subject \<longrightarrow> grants_exception lib (mcp_allowlist ms) server owner)"

lemma find_None: "List.find P xs = None \<longleftrightarrow> (\<forall>x\<in>set xs. \<not> P x)"
  by (induction xs) auto

lemma blocking_allow_source_None:
  "blocking_allow_source lib p server origin = None \<longleftrightarrow>
     (\<forall>s\<in>set (binding_sources p origin). allows_ignoring_managed_only lib s server \<and>
        (managed_only s \<longrightarrow> grants_exception lib p server (ownership s)))"
proof -
  have "blocking_allow_source lib p server origin = None \<longleftrightarrow>
      List.find (\<lambda>s. managed_only s \<and> \<not> grants_exception lib p server (ownership s)) (binding_sources p origin) = None \<and>
      List.find (\<lambda>s. \<not> allows_ignoring_managed_only lib s server) (binding_sources p origin) = None"
    unfolding blocking_allow_source_def by (simp split: option.split)
  then show ?thesis by (auto simp: find_None)
qed

lemma is_server_allowed_iff:
  "is_server_allowed lib p server origin \<longleftrightarrow> (\<forall>s\<in>set (binding_sources p origin). source_admits lib p server s)"
  unfolding is_server_allowed_def policy_is_server_denied_def denying_source_def source_admits_def
    blocking_allow_source_None
  by (auto simp: find_None)

lemma verdict_allowed_iff:
  "mcp_verdict lib ms server subject = Allowed \<longleftrightarrow>
     is_server_allowed lib (mcp_allowlist ms) server (subject_origin subject) \<and> pin_admits lib ms server subject"
  unfolding mcp_verdict_def mcp_project_pin_block_def pin_admits_def is_server_allowed_def policy_is_server_denied_def
  by (auto split: option.splits policy_pin.splits if_splits)

section \<open>Layers of the user\<close>

text \<open>A fold of steps, some of them owned by an administrator: what a view of the state that only an administrator's
  steps change depends on.\<close>

locale owned_view =
  fixes step :: "'l \<Rightarrow> 's \<Rightarrow> 's"
    and admin :: "'l \<Rightarrow> bool"
    and view :: "'s \<Rightarrow> 'v"
  assumes user_step: "\<not> admin l \<Longrightarrow> view (step l s) = view s"
    and admin_step: "admin l \<Longrightarrow> view s = view t \<Longrightarrow> view (step l s) = view (step l t)"
begin

lemma fold_admin: "view s = view t \<Longrightarrow> view (fold step ls s) = view (fold step (filter admin ls) t)"
proof (induction ls arbitrary: s t)
  case (Cons l ls)
  show ?case
  proof (cases "admin l")
    case True
    then show ?thesis using Cons.IH [OF admin_step [OF True Cons.prems]] by simp
  next
    case False
    then show ?thesis using Cons.IH [of "step l s" t] user_step [OF False, of s] Cons.prems by simp
  qed
qed simp

end

definition admin_layer :: "'t policy_layer \<Rightarrow> bool" where
  "admin_layer l \<longleftrightarrow> tier_ownership (layer_tier l) = Admin"

definition admin_sources :: "managed_settings \<Rightarrow> mcp_server_allowlist list" where
  "admin_sources ms = filter (\<lambda>s. ownership s = Admin) (mcp_allowlist ms)"

fun admin_pinned :: "policy_pin \<Rightarrow> bool" where
  "admin_pinned (Disabled src owner) = (owner = Admin)"
| "admin_pinned Unpinned = False"

definition admin_pins :: "managed_settings \<Rightarrow> bool \<times> bool \<times> bool" where
  "admin_pins ms =
     (admin_pinned (project_mcp ms), admin_pinned (plugin_auto_update ms), admin_pinned (non_managed_hooks ms))"

definition admin_marketplace :: "managed_marketplace list \<Rightarrow> string \<Rightarrow> managed_marketplace option" where
  "admin_marketplace ms name =
     (case List.find (\<lambda>m. market_name m = name) ms of
        Some m \<Rightarrow> if market_ownership m = Admin then Some m else None
      | None \<Rightarrow> None)"

definition admin_marketplaces :: "managed_settings \<Rightarrow> string \<Rightarrow> managed_marketplace option" where
  "admin_marketplaces ms = admin_marketplace (extra_known ms)"

text \<open>What one source adds.\<close>

lemma change_pin_frame [simp]:
  "mcp_allowlist (change_pin f p ms) = mcp_allowlist ms"
  "market_allowlist (change_pin f p ms) = market_allowlist ms"
  "extra_known (change_pin f p ms) = extra_known ms"
  by (cases p; simp)+

lemma engage_pin_frame [simp]:
  "mcp_allowlist (engage_pin j path owner p ms) = mcp_allowlist ms"
  "market_allowlist (engage_pin j path owner p ms) = market_allowlist ms"
  "extra_known (engage_pin j path owner p ms) = extra_known ms"
  by (simp_all add: engage_pin_def)

lemma apply_policy_source_frame [simp]:
  "mcp_allowlist (apply_policy_source lib j path tier ms) = mcp_allowlist ms @ mcp_source lib j path tier"
  "market_allowlist (apply_policy_source lib j path tier ms) = market_allowlist ms @ market_source j path tier"
  "extra_known (apply_policy_source lib j path tier ms) =
     fold claim_marketplace (extra_entries (parse_extra_marketplaces j (tier_ownership tier))) (extra_known ms)"
  by (simp_all add: apply_policy_source_def Let_def ALL_PINS_def)

lemma apply_unreadable_frame [simp]:
  "market_allowlist (apply_unreadable_policy_source lib path tier ms) =
     market_allowlist ms @ [\<lparr>allowed_urls = [], market_source_path = Some path, market_authority = tier_authority tier\<rparr>]"
  "extra_known (apply_unreadable_policy_source lib path tier ms) = extra_known ms"
  "mcp_allowlist (apply_unreadable_policy_source lib path tier ms) =
     mcp_allowlist ms @ [(allowlist_new lib [] [] (Some path))\<lparr>authority := tier_authority tier,
       ownership := tier_ownership tier, is_lockdown := True\<rparr>]"
  by (simp_all add: apply_unreadable_policy_source_def ALL_PINS_def)

lemma mcp_source_owner: "s \<in> set (mcp_source lib j path tier) \<Longrightarrow> ownership s = tier_ownership tier"
  by (auto simp: mcp_source_def Let_def split: if_splits)

lemma admin_pinned_pin_disabled [simp]:
  "admin_pinned (pin_disabled path owner pin) \<longleftrightarrow> owner = Admin \<or> admin_pinned pin"
  by (cases pin; cases owner) (auto simp: pin_disabled_def split: policy_layer_ownership.splits)

lemma admin_sources_policy [simp]:
  "admin_sources (apply_policy_source lib j path tier ms) =
     admin_sources ms @ (if tier_ownership tier = Admin then mcp_source lib j path tier else [])"
  using mcp_source_owner [of _ lib j path tier] by (auto simp: admin_sources_def filter_empty_conv filter_id_conv)

lemma admin_sources_unreadable [simp]:
  "admin_sources (apply_unreadable_policy_source lib path tier ms) =
     admin_sources ms @ (if tier_ownership tier = Admin then [(allowlist_new lib [] [] (Some path))\<lparr>
       authority := tier_authority tier, ownership := tier_ownership tier, is_lockdown := True\<rparr>] else [])"
  by (simp add: admin_sources_def)

definition engages :: "json \<Rightarrow> bool_pin \<Rightarrow> bool" where
  "engages j p \<longleftrightarrow> policy_bool j (pin_keys p) (engages_on p) = Some (engages_on p)"

lemma admin_pins_engage [simp]:
  "admin_pinned (project_mcp (engage_pin j path owner p ms)) \<longleftrightarrow>
     admin_pinned (project_mcp ms) \<or> owner = Admin \<and> p = ProjectMcp \<and> engages j p"
  "admin_pinned (plugin_auto_update (engage_pin j path owner p ms)) \<longleftrightarrow>
     admin_pinned (plugin_auto_update ms) \<or> owner = Admin \<and> p = PluginAutoUpdate \<and> engages j p"
  "admin_pinned (non_managed_hooks (engage_pin j path owner p ms)) \<longleftrightarrow>
     admin_pinned (non_managed_hooks ms) \<or> owner = Admin \<and> p = NonManagedHooks \<and> engages j p"
  by (cases p; auto simp: engage_pin_def engages_def)+

lemma admin_pins_policy [simp]:
  "admin_pins (apply_policy_source lib j path tier ms) =
     (case admin_pins ms of (a, b, c) \<Rightarrow>
        if tier_ownership tier = Admin
        then (a \<or> engages j ProjectMcp,
              b \<or> engages j PluginAutoUpdate \<or> pin_auto_update_off (parse_extra_marketplaces j Admin),
              c \<or> engages j NonManagedHooks)
        else (a, b, c))"
  by (auto simp: admin_pins_def apply_policy_source_def Let_def ALL_PINS_def)

lemma admin_pins_unreadable [simp]:
  "admin_pins (apply_unreadable_policy_source lib path tier ms) =
     (if tier_ownership tier = Admin then (True, True, True) else admin_pins ms)"
  by (auto simp: admin_pins_def apply_unreadable_policy_source_def ALL_PINS_def)

lemma admin_marketplace_claim:
  "admin_marketplace (claim_marketplace e ms) =
     (if market_ownership e = Admin \<and> admin_marketplace ms (market_name e) = None
      then (admin_marketplace ms)(market_name e \<mapsto> e) else admin_marketplace ms)"
proof (rule ext, induction ms)
  case Nil
  then show ?case by (cases "market_ownership e") (auto simp: admin_marketplace_def)
next
  case (Cons m ms)
  then show ?case
    by (cases "market_ownership e"; cases "market_ownership m") (auto simp: admin_marketplace_def split: if_splits)
qed

lemma claim_congruence:
  assumes "admin_marketplace ms = admin_marketplace ns"
  shows "admin_marketplace (fold claim_marketplace es ms) = admin_marketplace (fold claim_marketplace es ns)"
  using assms by (induction es arbitrary: ms ns) (simp_all add: admin_marketplace_claim)

lemma claim_user:
  assumes "\<forall>e\<in>set es. market_ownership e = User"
  shows "admin_marketplace (fold claim_marketplace es ms) = admin_marketplace ms"
  using assms by (induction es arbitrary: ms) (simp_all add: admin_marketplace_claim)

lemma extra_entries_owner:
  "\<forall>e\<in>set (extra_entries (parse_extra_marketplaces j owner)). market_ownership e = owner"
  by (auto simp: parse_extra_marketplaces_def extra_marketplace_def Let_def
      split: policy_key.splits option.splits prod.splits)

text \<open>The laws of the view, once for a readable source and once for a layer.\<close>

definition admin_view ::
  "managed_settings \<Rightarrow> mcp_server_allowlist list \<times> (bool \<times> bool \<times> bool) \<times> (string \<Rightarrow> managed_marketplace option)" where
  "admin_view ms = (admin_sources ms, admin_pins ms, admin_marketplaces ms)"

lemma source_user_step:
  assumes "tier_ownership tier = User"
  shows "admin_view (apply_policy_source lib j path tier ms) = admin_view ms"
  using assms claim_user [OF extra_entries_owner [of j User, simplified]]
  by (simp add: admin_view_def admin_marketplaces_def split: prod.splits)

lemma source_admin_step:
  assumes "admin_view ms = admin_view ns"
  shows "admin_view (apply_policy_source lib j path tier ms) = admin_view (apply_policy_source lib j path tier ns)"
  using assms claim_congruence [of "extra_known ms" "extra_known ns"] by (simp add: admin_view_def admin_marketplaces_def)

lemma owner_not_Admin: "tier_ownership tier \<noteq> Admin \<longleftrightarrow> tier_ownership tier = User"
  by (cases "tier_ownership tier") simp_all

interpretation layers: owned_view "apply_layer lib to_json" admin_layer admin_view for lib to_json
proof
  fix l :: "'a policy_layer" and s t
  show "admin_view (apply_layer lib to_json l s) = admin_view s" if "\<not> admin_layer l"
    using that source_user_step
    by (simp add: apply_layer_def Let_def admin_layer_def owner_not_Admin admin_view_def admin_marketplaces_def
        split: option.split)
  show "admin_view (apply_layer lib to_json l s) = admin_view (apply_layer lib to_json l t)" if "admin_view s = admin_view t"
    using that source_admin_step [OF that]
    by (simp add: apply_layer_def Let_def split: option.split) (simp add: admin_view_def admin_marketplaces_def)
qed

lemma resolved_admin_view:
  "admin_view (resolve_managed_settings lib to_json claude layers) =
   admin_view (resolve_managed_settings lib to_json claude (filter admin_layer layers))"
proof -
  let ?base = "case claude of Some (j, path) \<Rightarrow> parse_managed_settings_base j path | None \<Rightarrow> managed_settings_default"
  let ?fold = "\<lambda>ls. fold (apply_layer lib to_json) (sort_key (tier_rank \<circ> layer_tier) ls) ?base"
  have "admin_view (?fold layers) = admin_view (?fold (filter admin_layer layers))"
    using layers.fold_admin [of ?base ?base lib to_json "sort_key (tier_rank \<circ> layer_tier) layers"]
    by (simp add: filter_sort)
  note same = this source_admin_step [OF this]
  show ?thesis
  proof (cases claude)
    case None
    then show ?thesis using same(1) by (simp add: resolve_managed_settings_def)
  next
    case (Some settings)
    then show ?thesis using same(2) [of lib "fst settings" "snd settings" Vendor]
      by (cases settings) (simp add: resolve_managed_settings_def)
  qed
qed

text \<open>With layers of an administrator only, everything is the administrator's.\<close>

definition admin_only :: "managed_settings \<Rightarrow> bool" where
  "admin_only ms \<longleftrightarrow>
     list_all (\<lambda>s. ownership s = Admin) (mcp_allowlist ms) \<and>
     list_all (\<lambda>pin. pin = Unpinned \<or> admin_pinned pin) [project_mcp ms, plugin_auto_update ms, non_managed_hooks ms] \<and>
     list_all (\<lambda>m. market_ownership m = Admin) (extra_known ms)"

lemma list_all_claim:
  "list_all P ms \<Longrightarrow> list_all P es \<Longrightarrow> list_all P (fold claim_marketplace es ms)"
proof (induction es arbitrary: ms)
  case (Cons e es)
  have "list_all P (claim_marketplace e ms)"
    using Cons.prems by (induction ms) auto
  then show ?case using Cons by simp
qed simp

lemma unpinned_or_admin [simp]:
  "pin_disabled path Admin pin = Unpinned \<longleftrightarrow> False"
  by (cases pin) (simp_all add: pin_disabled_def split: policy_layer_ownership.splits)

lemma admin_only_policy:
  assumes "admin_only ms" "tier_ownership tier = Admin"
  shows "admin_only (apply_policy_source lib j path tier ms)"
proof -
  have "list_all (\<lambda>s. ownership s = Admin) (mcp_source lib j path tier)"
    using assms(2) mcp_source_owner [of _ lib j path tier] by (simp add: list_all_iff)
  moreover have "list_all (\<lambda>m. market_ownership m = Admin)
      (fold claim_marketplace (extra_entries (parse_extra_marketplaces j Admin)) (extra_known ms))"
    using assms(1) extra_entries_owner [of j Admin] by (intro list_all_claim) (simp_all add: admin_only_def list_all_iff)
  moreover have "list_all (\<lambda>pin. pin = Unpinned \<or> admin_pinned pin)
      [project_mcp (apply_policy_source lib j path tier ms), plugin_auto_update (apply_policy_source lib j path tier ms),
       non_managed_hooks (apply_policy_source lib j path tier ms)]"
    using assms by (auto simp: admin_only_def apply_policy_source_def Let_def ALL_PINS_def engage_pin_def)
  ultimately show ?thesis using assms by (simp add: admin_only_def)
qed

lemma admin_only_unreadable:
  assumes "admin_only ms" "tier_ownership tier = Admin"
  shows "admin_only (apply_unreadable_policy_source lib path tier ms)"
  using assms by (auto simp: admin_only_def apply_unreadable_policy_source_def ALL_PINS_def)

lemma admin_only_layers:
  "admin_only ms \<Longrightarrow> list_all admin_layer ls \<Longrightarrow> admin_only (fold (apply_layer lib to_json) ls ms)"
  by (induction ls arbitrary: ms)
    (auto simp: apply_layer_def admin_layer_def Let_def admin_only_policy admin_only_unreadable split: option.split)

lemma admin_only_resolved: "admin_only (resolve_managed_settings lib to_json claude (filter admin_layer layers))"
proof -
  have base: "admin_only managed_settings_default" "admin_only (parse_managed_settings_base j path)" for j path
    by (simp_all add: admin_only_def managed_settings_default_def parse_managed_settings_base_def)
  have "list_all admin_layer (sort_key (tier_rank \<circ> layer_tier) (filter admin_layer layers))"
    by (simp add: list_all_iff)
  then show ?thesis
    using base by (auto simp: resolve_managed_settings_def admin_only_layers admin_only_policy tier_ownership_def
        split: option.split)
qed

section \<open>What an administrator decides stands\<close>

lemma grants_exception_Admin:
  "grants_exception lib (mcp_allowlist ms) server Admin \<longleftrightarrow>
     list_ex (\<lambda>s. matches_allow_entry lib s server) (admin_sources ms)"
  by (auto simp: grants_exception_def accepts_grant_from_def admin_sources_def list_ex_iff)

lemma admin_only_sources: "admin_only ms \<Longrightarrow> admin_sources ms = mcp_allowlist ms"
  by (simp add: admin_only_def admin_sources_def list_all_iff filter_id_conv)

lemma allowed_for_admin:
  assumes "admin_only adm" and same: "admin_sources ms = admin_sources adm"
    and allowed: "is_server_allowed lib (mcp_allowlist ms) server origin"
  shows "is_server_allowed lib (mcp_allowlist adm) server origin"
proof -
  have mine: "s \<in> set (mcp_allowlist ms) \<and> ownership s = Admin" if "s \<in> set (mcp_allowlist adm)" for s
    using that same admin_only_sources [OF assms(1)]
    by (metis (mono_tags, lifting) admin_sources_def mem_Collect_eq set_filter)
  have "source_admits lib (mcp_allowlist adm) server s" if "s \<in> set (binding_sources (mcp_allowlist adm) origin)" for s
  proof -
    have s: "s \<in> set (binding_sources (mcp_allowlist ms) origin)" "ownership s = Admin"
      using that mine by (auto simp: binding_sources_def)
    then have "source_admits lib (mcp_allowlist ms) server s" using allowed by (simp add: is_server_allowed_iff)
    then show ?thesis using s(2) by (simp add: source_admits_def grants_exception_Admin same)
  qed
  then show ?thesis by (simp add: is_server_allowed_iff)
qed

lemma verdict_for_admin:
  assumes adm: "admin_only adm" and view: "admin_view ms = admin_view adm"
    and allowed: "mcp_verdict lib ms server subject = Allowed"
  shows "mcp_verdict lib adm server subject = Allowed"
proof -
  have same: "admin_sources ms = admin_sources adm" and pins: "admin_pins ms = admin_pins adm"
    using view by (simp_all add: admin_view_def)
  have "pin_admits lib adm server subject"
  proof (cases "project_mcp adm")
    case (Disabled path owner)
    then have "owner = Admin" "admin_pinned (project_mcp ms)" using adm pins by (simp_all add: admin_only_def admin_pins_def)
    moreover from this obtain p where "project_mcp ms = Disabled p Admin" by (cases "project_mcp ms") auto
    ultimately show ?thesis
      using allowed Disabled by (simp add: verdict_allowed_iff pin_admits_def grants_exception_Admin same)
  qed (simp add: pin_admits_def)
  then show ?thesis using allowed allowed_for_admin [OF adm same] by (simp add: verdict_allowed_iff)
qed

text \<open>The marketplace lists of the layers, each of which must allow a source.\<close>

definition layer_markets :: "((string \<times> 't) list \<Rightarrow> json option) \<Rightarrow> 't policy_layer \<Rightarrow> marketplace_allowlist list" where
  "layer_markets to_json l = market_allowlist (apply_layer undefined to_json l managed_settings_default)"

lemma layer_markets_step:
  "market_allowlist (apply_layer lib to_json l ms) = market_allowlist ms @ layer_markets to_json l"
  by (simp add: layer_markets_def apply_layer_def Let_def managed_settings_default_def split: option.split)

lemma fold_markets:
  "market_allowlist (fold (apply_layer lib to_json) ls ms) = market_allowlist ms @ concat (map (layer_markets to_json) ls)"
  by (induction ls arbitrary: ms) (simp_all add: layer_markets_step)

lemma resolved_markets:
  "set (market_allowlist (resolve_managed_settings lib to_json claude (filter P layers)))
     \<subseteq> set (market_allowlist (resolve_managed_settings lib to_json claude layers))"
  by (auto simp: resolve_managed_settings_def Let_def fold_markets split: option.split)

lemma admin_pin_disabled:
  assumes "pin = Unpinned \<or> admin_pinned pin" "admin_pinned pin' = admin_pinned pin"
  shows "is_disabled pin \<Longrightarrow> is_disabled pin'"
  using assms by (cases pin'; cases pin) simp_all

lemma admin_pins_disabled:
  assumes "admin_only adm" "admin_pins ms = admin_pins adm"
  shows "is_disabled (project_mcp adm) \<Longrightarrow> is_disabled (project_mcp ms)"
    and "is_disabled (plugin_auto_update adm) \<Longrightarrow> is_disabled (plugin_auto_update ms)"
    and "is_disabled (non_managed_hooks adm) \<Longrightarrow> is_disabled (non_managed_hooks ms)"
  using assms admin_pin_disabled [of "project_mcp adm" "project_mcp ms"]
    admin_pin_disabled [of "plugin_auto_update adm" "plugin_auto_update ms"]
    admin_pin_disabled [of "non_managed_hooks adm" "non_managed_hooks ms"]
  by (simp_all add: admin_only_def admin_pins_def)

text \<open>C3: Settings a user owns never loosen what an administrator's settings decide. For any layers in any order, with
  or without a vendor file: a server that may run under all layers may run under the administrator's layers alone; so is
  a marketplace that is allowed; a switch the administrator's layers turn off is off; and a marketplace they register
  keeps their definition.\<close>

theorem users_only_tighten:
  fixes lib to_json claude layers
  defines "everything \<equiv> resolve_managed_settings lib to_json claude layers"
    and "admins \<equiv> resolve_managed_settings lib to_json claude (filter admin_layer layers)"
  shows "(mcp_verdict lib everything server subject = Allowed \<longrightarrow> mcp_verdict lib admins server subject = Allowed) \<and>
    (is_url_allowed (market_allowlist everything) url origin \<longrightarrow> is_url_allowed (market_allowlist admins) url origin) \<and>
    (is_disabled (project_mcp admins) \<longrightarrow> is_disabled (project_mcp everything)) \<and>
    (is_disabled (plugin_auto_update admins) \<longrightarrow> is_disabled (plugin_auto_update everything)) \<and>
    (is_disabled (non_managed_hooks admins) \<longrightarrow> is_disabled (non_managed_hooks everything)) \<and>
    (List.find (\<lambda>m. market_name m = name) (extra_known admins) = Some m \<longrightarrow>
       List.find (\<lambda>m. market_name m = name) (extra_known everything) = Some m)"
proof (intro conjI impI)
  have view: "admin_view everything = admin_view admins"
    unfolding everything_def admins_def by (rule resolved_admin_view)
  have adm: "admin_only admins" unfolding admins_def by (rule admin_only_resolved)
  show "mcp_verdict lib admins server subject = Allowed" if "mcp_verdict lib everything server subject = Allowed"
    using verdict_for_admin [OF adm view that] .
  show "is_url_allowed (market_allowlist admins) url origin" if "is_url_allowed (market_allowlist everything) url origin"
    using that resolved_markets [of lib to_json claude admin_layer layers]
    by (auto simp: is_url_allowed_def everything_def admins_def list_all_iff)
  have pins: "admin_pins everything = admin_pins admins" using view by (simp add: admin_view_def)
  show "is_disabled (project_mcp admins) \<Longrightarrow> is_disabled (project_mcp everything)"
    "is_disabled (plugin_auto_update admins) \<Longrightarrow> is_disabled (plugin_auto_update everything)"
    "is_disabled (non_managed_hooks admins) \<Longrightarrow> is_disabled (non_managed_hooks everything)"
    by (rule admin_pins_disabled [OF adm pins]; assumption)+
  have "admin_marketplaces everything name = admin_marketplaces admins name" using view by (simp add: admin_view_def)
  moreover assume found: "List.find (\<lambda>m. market_name m = name) (extra_known admins) = Some m"
  moreover have "m \<in> set (extra_known admins)" using found by (auto simp: find_Some_iff)
  then have "market_ownership m = Admin" using adm by (simp add: admin_only_def list_all_iff)
  ultimately show "List.find (\<lambda>m. market_name m = name) (extra_known everything) = Some m"
    by (simp add: admin_marketplaces_def admin_marketplace_def split: option.splits if_splits)
qed

text \<open>A system layer that admits its own server only, and a user layer that claims more.\<close>

definition sample_json :: "(string \<times> json) list \<Rightarrow> json option" where
  "sample_json kvs = Some (JObject kvs)"

definition system_layer :: "json policy_layer" where
  "system_layer =
     \<lparr>layer_tier = SystemManaged, layer_path = ''/etc/grok/managed_config.toml'',
      layer_table = Some
        [(''allowManagedMcpServersOnly'', JBool True),
         (''allowedMcpServers'', JArray [JObject [(''serverName'', JString ''docs'')]]),
         (''enableAllProjectMcpServers'', JBool False), (''pluginAutoUpdate'', JBool False),
         (''allowManagedHooksOnly'', JBool True),
         (''strictKnownMarketplaces'',
            JArray [JObject [(''source'', JString ''git''), (''url'', JString ''https://git.example/tools'')]]),
         (''extraKnownMarketplaces'',
            JObject [(''tools'', JObject [(''source'', JObject [(''source'', JString ''local''), (''path'', JString ''/opt'')])])])]\<rparr>"

definition user_layer :: "json policy_layer" where
  "user_layer =
     \<lparr>layer_tier = UserManaged, layer_path = ''/home/me/.grok/managed_config.toml'',
      layer_table = Some
        [(''allowedMcpServers'',
            JArray [JObject [(''serverName'', JString ''docs'')], JObject [(''serverName'', JString ''mine'')]]),
         (''extraKnownMarketplaces'',
            JObject [(''tools'', JObject [(''source'', JObject [(''source'', JString ''local''), (''path'', JString ''/tmp'')])])])]\<rparr>"

definition sample_settings :: managed_settings where
  "sample_settings = resolve_managed_settings sample_urls sample_json None [user_layer, system_layer]"

theorem users_only_tighten_witness:
  "mcp_verdict sample_urls sample_settings (StdioServer ''docs'' ''docs'' []) \<lparr>subject_origin = GrokNative, project_scoped = True\<rparr>
     = Allowed \<and>
   mcp_verdict sample_urls sample_settings (StdioServer ''mine'' ''mine'' []) \<lparr>subject_origin = GrokNative, project_scoped = True\<rparr>
     \<noteq> Allowed \<and>
   mcp_verdict sample_urls (resolve_managed_settings sample_urls sample_json None [system_layer])
     (StdioServer ''docs'' ''docs'' []) \<lparr>subject_origin = GrokNative, project_scoped = True\<rparr> = Allowed \<and>
   is_disabled (project_mcp sample_settings) \<and>
   List.find (\<lambda>m. market_name m = ''tools'') (extra_known sample_settings) =
     Some \<lparr>market_name = ''tools'', market_kind = Local ''/opt'', market_ownership = Admin\<rparr>"
proof -
  let ?docs = "StdioServer ''docs'' ''docs'' []"
  let ?subject = "\<lparr>subject_origin = GrokNative, project_scoped = True\<rparr>"
  let ?admins = "resolve_managed_settings sample_urls sample_json None [system_layer]"
  have filtered: "filter admin_layer [user_layer, system_layer] = [system_layer]" by code_simp
  have "mcp_verdict sample_urls sample_settings ?docs ?subject = Allowed" by code_simp
  moreover have "mcp_verdict sample_urls sample_settings (StdioServer ''mine'' ''mine'' []) ?subject \<noteq> Allowed" by code_simp
  moreover have "is_disabled (project_mcp ?admins)" by code_simp
  moreover have "List.find (\<lambda>m. market_name m = ''tools'') (extra_known ?admins) =
      Some \<lparr>market_name = ''tools'', market_kind = Local ''/opt'', market_ownership = Admin\<rparr>" by code_simp
  ultimately show ?thesis
    using users_only_tighten [of sample_urls sample_json None "[user_layer, system_layer]" ?docs ?subject "[]" GrokNative
        "''tools''" "\<lparr>market_name = ''tools'', market_kind = Local ''/opt'', market_ownership = Admin\<rparr>"]
    unfolding filtered sample_settings_def by blast
qed

section \<open>Every verdict has its reason\<close>

lemma find_Some_member: "List.find P xs = Some x \<Longrightarrow> x \<in> set xs \<and> P x"
  by (induction xs) (auto split: if_splits)

lemma blocking_allow_source_Some:
  assumes "blocking_allow_source lib p server origin = Some s"
  shows "s \<in> set (binding_sources p origin) \<and>
    (managed_only s \<and> \<not> grants_exception lib p server (ownership s) \<or> \<not> allows_ignoring_managed_only lib s server)"
  using assms unfolding blocking_allow_source_def by (auto split: option.splits dest: find_Some_member)

lemma denying_source_None:
  "denying_source lib p server origin = None \<longleftrightarrow> (\<forall>s\<in>set (binding_sources p origin). \<not> is_server_denied lib s server)"
  by (simp add: denying_source_def find_None)

text \<open>C11: A server is allowed only when every source of policy that binds it does not deny it, allows it, and, where
  the source admits managed servers only, has an entry for it from a layer entitled to grant one, and when the project
  switch admits it. A blocked server is blocked for the reason given: a source that denies it, and only if none does a
  source that does not grant it or is locked down, and only if all sources admit it the project switch.\<close>

theorem mcp_verdict_gives_reason:
  fixes lib ms server subject
  defines "p \<equiv> mcp_allowlist ms" and "sources \<equiv> set (binding_sources (mcp_allowlist ms) (subject_origin subject))"
  shows "case mcp_verdict lib ms server subject of
      Allowed \<Rightarrow> (\<forall>s\<in>sources. source_admits lib p server s) \<and> pin_admits lib ms server subject
    | Blocked (DeniedBy path) \<Rightarrow> \<exists>s\<in>sources. is_server_denied lib s server \<and> path = path_or_empty (source_path s)
    | Blocked (NotGranted path) \<Rightarrow>
        (\<forall>s\<in>sources. \<not> is_server_denied lib s server) \<and>
        (\<exists>s\<in>sources. \<not> source_admits lib p server s \<and> \<not> is_lockdown s \<and> path = path_or_empty (source_path s))
    | Blocked (Lockdown path) \<Rightarrow>
        (\<forall>s\<in>sources. \<not> is_server_denied lib s server) \<and>
        (\<exists>s\<in>sources. is_lockdown s \<and> path = path_or_empty (source_path s))
    | Blocked (ProjectPin path) \<Rightarrow>
        (\<forall>s\<in>sources. source_admits lib p server s) \<and> project_scoped subject \<and>
        (\<exists>owner. project_mcp ms = Disabled path owner \<and> \<not> grants_exception lib p server owner)"
proof (cases "denying_source lib p server (subject_origin subject)")
  case (Some s)
  then have "s \<in> sources \<and> is_server_denied lib s server"
    unfolding denying_source_def sources_def p_def by (auto dest: find_Some_member)
  then show ?thesis using Some by (auto simp: mcp_verdict_def p_def)
next
  case None
  then have clean: "\<forall>s\<in>sources. \<not> is_server_denied lib s server" by (simp add: denying_source_None sources_def p_def)
  show ?thesis
  proof (cases "blocking_allow_source lib p server (subject_origin subject)")
    case (Some s)
    then show ?thesis
      using None clean blocking_allow_source_Some [OF Some]
      by (auto simp: mcp_verdict_def sources_def p_def source_admits_def)
  next
    case unblocked: None
    then have "\<forall>s\<in>sources. source_admits lib p server s"
      using clean by (simp add: blocking_allow_source_None source_admits_def sources_def p_def)
    then show ?thesis
      using None unblocked
      by (auto simp: mcp_verdict_def mcp_project_pin_block_def pin_admits_def p_def split: policy_pin.split)
  qed
qed

theorem mcp_verdict_gives_reason_witness:
  "mcp_verdict sample_urls sample_settings (StdioServer ''mine'' ''mine'' []) \<lparr>subject_origin = GrokNative, project_scoped = True\<rparr>
     = Blocked (NotGranted ''/etc/grok/managed_config.toml'') \<and>
   (\<exists>s\<in>set (binding_sources (mcp_allowlist sample_settings) GrokNative).
      \<not> source_admits sample_urls (mcp_allowlist sample_settings) (StdioServer ''mine'' ''mine'' []) s \<and>
      source_path s = Some ''/etc/grok/managed_config.toml'')"
proof -
  let ?mine = "StdioServer ''mine'' ''mine'' []"
  let ?subject = "\<lparr>subject_origin = GrokNative, project_scoped = True\<rparr>"
  have verdict: "mcp_verdict sample_urls sample_settings ?mine ?subject = Blocked (NotGranted ''/etc/grok/managed_config.toml'')"
    by code_simp
  then obtain s where "s \<in> set (binding_sources (mcp_allowlist sample_settings) GrokNative)"
      "\<not> source_admits sample_urls (mcp_allowlist sample_settings) ?mine s"
      "''/etc/grok/managed_config.toml'' = path_or_empty (source_path s)"
    using mcp_verdict_gives_reason [where lib = sample_urls and ms = sample_settings and server = ?mine and subject = ?subject]
    by auto
  then show ?thesis using verdict by (cases "source_path s") (auto simp: path_or_empty_def)
qed

section \<open>Policy that cannot be used locks down\<close>

text \<open>The policy keys of a layer, as JSON; what a value means that the reader cannot use.\<close>

definition policy_keys_of :: "'t policy_layer \<Rightarrow> (string \<times> 't) list" where
  "policy_keys_of l =
     filter (\<lambda>(key, _). key \<in> set MANAGED_POLICY_CONFIG_KEYS) (case layer_table l of Some t \<Rightarrow> t | None \<Rightarrow> [])"

definition unusable_list :: "(json \<Rightarrow> bool) \<Rightarrow> bool \<Rightarrow> json \<Rightarrow> string list \<Rightarrow> bool" where
  "unusable_list usable strict j keys \<longleftrightarrow>
     (case policy_field j keys of
        Absent \<Rightarrow> False
      | Malformed \<Rightarrow> True
      | Present (_, v) \<Rightarrow>
          (case as_array v of
             None \<Rightarrow> True
           | Some es \<Rightarrow> if strict then list_ex (\<lambda>e. \<not> usable e) es else list_all (\<lambda>e. \<not> usable e) es))"

definition mcp_unusable :: "url_library \<Rightarrow> json \<Rightarrow> bool" where
  "mcp_unusable lib j \<longleftrightarrow>
     unusable_list (\<lambda>e. parse_mcp_entry lib e AllowList \<noteq> None) False j (list_keys AllowList) \<or>
     unusable_list (\<lambda>e. parse_mcp_entry lib e DenyList \<noteq> None) True j (list_keys DenyList)"

definition market_unusable :: "json \<Rightarrow> bool" where
  "market_unusable j \<longleftrightarrow>
     unusable_list (\<lambda>e. \<exists>url r. marketplace_source_from_json e = Some (Git url r)) False j
       [''strictKnownMarketplaces'', ''strict_known_marketplaces'']"

definition pin_unusable :: "json \<Rightarrow> bool_pin \<Rightarrow> bool" where
  "pin_unusable j p \<longleftrightarrow>
     (case policy_field j (pin_keys p) of
        Absent \<Rightarrow> False
      | Malformed \<Rightarrow> True
      | Present (_, v) \<Rightarrow> as_bool v \<noteq> Some (\<not> engages_on p))"

fun pin_of :: "bool_pin \<Rightarrow> managed_settings \<Rightarrow> policy_pin" where
  "pin_of ProjectMcp ms = project_mcp ms"
| "pin_of PluginAutoUpdate ms = plugin_auto_update ms"
| "pin_of NonManagedHooks ms = non_managed_hooks ms"

lemma map_filter_Nil: "List.map_filter f xs = [] \<longleftrightarrow> (\<forall>x\<in>set xs. f x = None)"
  by (induction xs) (auto simp: List.map_filter_simps split: option.splits)

lemma mcp_unusable_locks:
  assumes "mcp_unusable lib j"
  shows "\<exists>s. mcp_source lib j path tier = [s] \<and> is_lockdown s \<and> authority s = tier_authority tier"
proof -
  have "locks_down (parse_mcp_entry_list lib j AllowList) \<or> parse_mcp_entry_list lib j DenyList = Malformed"
    using assms unfolding mcp_unusable_def unusable_list_def
    by (auto simp: parse_mcp_entry_list_def policy_array_def parse_mcp_entries_def locks_down_def map_filter_Nil
        list_all_iff list_ex_iff split: policy_key.splits option.splits)
  then show ?thesis by (auto simp: mcp_source_def Let_def)
qed

lemma market_unusable_locks:
  assumes "market_unusable j"
  shows "market_source j path tier =
    [\<lparr>allowed_urls = [], market_source_path = Some path, market_authority = tier_authority tier\<rparr>]"
  using assms unfolding market_unusable_def unusable_list_def
  by (auto simp: market_source_def Let_def parse_strict_marketplaces_def policy_array_def policy_key_map_def map_filter_Nil
      list_all_iff split: policy_key.splits option.splits managed_marketplace_kind.splits)

lemma pin_unusable_engages: "pin_unusable j p \<Longrightarrow> engages j p"
  by (cases p) (auto simp: pin_unusable_def engages_def policy_bool_def split: policy_key.splits option.splits)

lemma disabled_pin_disabled [simp]: "is_disabled (pin_disabled path owner pin)"
  by (cases pin) (simp_all add: pin_disabled_def)

lemma pin_of_engage [simp]:
  "is_disabled (pin_of p (engage_pin j path owner q ms)) \<longleftrightarrow> is_disabled (pin_of p ms) \<or> p = q \<and> engages j p"
  by (cases p; cases q) (auto simp: engage_pin_def engages_def)

lemma pin_of_frame [simp]:
  "pin_of p (ms\<lparr>mcp_allowlist := a\<rparr>) = pin_of p ms"
  "pin_of p (ms\<lparr>market_allowlist := b\<rparr>) = pin_of p ms"
  "pin_of p (ms\<lparr>extra_known := c\<rparr>) = pin_of p ms"
  by (cases p; simp)+

lemma pin_of_change: "is_disabled (pin_of p (change_pin (pin_disabled path owner) q ms)) \<longleftrightarrow> is_disabled (pin_of p ms) \<or> p = q"
  by (cases p; cases q) auto

lemma pin_of_policy:
  "is_disabled (pin_of p ms) \<or> engages j p \<Longrightarrow> is_disabled (pin_of p (apply_policy_source lib j path tier ms))"
  by (cases p) (auto simp: apply_policy_source_def Let_def ALL_PINS_def pin_of_change simp del: pin_of.simps change_pin.simps)

lemma pin_of_unreadable: "is_disabled (pin_of p (apply_unreadable_policy_source lib path tier ms))"
  by (cases p) (auto simp: apply_unreadable_policy_source_def ALL_PINS_def pin_of_change simp del: pin_of.simps change_pin.simps)

lemma pin_of_layer: "is_disabled (pin_of p ms) \<Longrightarrow> is_disabled (pin_of p (apply_layer lib to_json l ms))"
  by (simp add: apply_layer_def Let_def pin_of_policy pin_of_unreadable split: option.split)

lemma pin_of_layers: "is_disabled (pin_of p ms) \<Longrightarrow> is_disabled (pin_of p (fold (apply_layer lib to_json) ls ms))"
  by (induction ls arbitrary: ms) (simp_all add: pin_of_layer)

lemma pin_of_member:
  assumes "l \<in> set ls" "\<And>ms. is_disabled (pin_of p (apply_layer lib to_json l ms))"
  shows "is_disabled (pin_of p (fold (apply_layer lib to_json) ls ms))"
  using assms(1) by (induction ls arbitrary: ms) (auto simp: assms(2) pin_of_layers)

definition layer_sources ::
  "url_library \<Rightarrow> ((string \<times> 't) list \<Rightarrow> json option) \<Rightarrow> 't policy_layer \<Rightarrow> mcp_server_allowlist list" where
  "layer_sources lib to_json l = mcp_allowlist (apply_layer lib to_json l managed_settings_default)"

lemma layer_sources_step:
  "mcp_allowlist (apply_layer lib to_json l ms) = mcp_allowlist ms @ layer_sources lib to_json l"
  by (simp add: layer_sources_def apply_layer_def Let_def managed_settings_default_def split: option.split)

lemma fold_sources:
  "mcp_allowlist (fold (apply_layer lib to_json) ls ms) =
     mcp_allowlist ms @ concat (map (layer_sources lib to_json) ls)"
  by (induction ls arbitrary: ms) (simp_all add: layer_sources_step)

lemma resolved_member:
  assumes "l \<in> set layers"
  shows "set (layer_sources lib to_json l) \<subseteq> set (mcp_allowlist (resolve_managed_settings lib to_json claude layers))"
    and "set (layer_markets to_json l) \<subseteq> set (market_allowlist (resolve_managed_settings lib to_json claude layers))"
    and "(\<And>ms. is_disabled (pin_of p (apply_layer lib to_json l ms))) \<Longrightarrow>
      is_disabled (pin_of p (resolve_managed_settings lib to_json claude layers))"
  using assms pin_of_member [of l "sort_key (tier_rank \<circ> layer_tier) layers" p lib to_json]
  by (auto simp: resolve_managed_settings_def Let_def fold_sources fold_markets pin_of_policy split: option.split)

lemma locked_source_blocks:
  assumes "s \<in> set (mcp_allowlist ms)" "is_lockdown s" "authority s = Native"
  shows "mcp_verdict lib ms server subject \<noteq> Allowed"
proof -
  have "s \<in> set (binding_sources (mcp_allowlist ms) (subject_origin subject))"
    using assms by (simp add: binding_sources_def binds_def)
  moreover have "\<not> source_admits lib (mcp_allowlist ms) server s"
    using assms by (simp add: source_admits_def allows_ignoring_managed_only_def)
  ultimately show ?thesis by (auto simp: verdict_allowed_iff is_server_allowed_iff)
qed

lemma locked_market_blocks:
  assumes "s \<in> set p" "allowed_urls s = []" "market_authority s = Native"
  shows "\<not> is_url_allowed p url origin"
  using assms by (auto simp: is_url_allowed_def list_all_iff source_allows_url_def market_binds_def Let_def)

text \<open>The policy of a layer cannot be read at all, or has the fault \<open>bad\<close>.\<close>

definition faulty :: "((string \<times> 't) list \<Rightarrow> json option) \<Rightarrow> (json \<Rightarrow> bool) \<Rightarrow> 't policy_layer \<Rightarrow> bool" where
  "faulty to_json bad l \<longleftrightarrow>
     policy_keys_of l \<noteq> [] \<and> (case to_json (policy_keys_of l) of None \<Rightarrow> True | Some j \<Rightarrow> bad j)"

lemma faulty_source:
  assumes "faulty to_json (mcp_unusable lib) l"
  shows "\<exists>s\<in>set (layer_sources lib to_json l). is_lockdown s \<and> authority s = tier_authority (layer_tier l)"
  using assms mcp_unusable_locks [of lib _ "layer_path l" "layer_tier l"]
  by (fastforce simp: faulty_def layer_sources_def apply_layer_def Let_def policy_keys_of_def split: option.splits)

lemma faulty_market:
  assumes "faulty to_json market_unusable l"
  shows "\<exists>s\<in>set (layer_markets to_json l). allowed_urls s = [] \<and> market_authority s = tier_authority (layer_tier l)"
  using assms market_unusable_locks [of _ "layer_path l" "layer_tier l"]
  by (fastforce simp: faulty_def layer_markets_def apply_layer_def Let_def policy_keys_of_def split: option.splits)

lemma faulty_pin:
  assumes "faulty to_json (\<lambda>j. pin_unusable j p) l"
  shows "is_disabled (pin_of p (apply_layer lib to_json l ms))"
  using assms pin_unusable_engages [of _ p]
  by (auto simp: faulty_def apply_layer_def Let_def policy_keys_of_def pin_of_policy pin_of_unreadable
      simp del: pin_of.simps split: option.splits)

text \<open>C10: Policy that cannot be used locks down, whatever the other layers say. When the policy keys of a layer other
  than the vendor's cannot be converted, or its list of allowed servers is spelled twice with different values, is not a list or has no entry that can
  be used, or its list of denied servers is so or has one entry that cannot be used, no server may run. A list
  of known marketplaces with the faults of a list of allowed servers admits none. A switch whose value is not the boolean that leaves it on is off.\<close>

theorem unusable_policy_locks_down:
  fixes lib to_json claude layers
  defines "ms \<equiv> resolve_managed_settings lib to_json claude layers"
  assumes layer: "l \<in> set layers" "layer_tier l \<noteq> Vendor"
  shows "(faulty to_json (mcp_unusable lib) l \<longrightarrow> mcp_verdict lib ms server subject \<noteq> Allowed) \<and>
    (faulty to_json market_unusable l \<longrightarrow> \<not> is_url_allowed (market_allowlist ms) url origin) \<and>
    (faulty to_json (\<lambda>j. pin_unusable j p) l \<longrightarrow> is_disabled (pin_of p ms))"
proof (intro conjI impI)
  have native: "tier_authority (layer_tier l) = Native" using layer(2) by (simp add: tier_authority_def)
  show "mcp_verdict lib ms server subject \<noteq> Allowed" if "faulty to_json (mcp_unusable lib) l"
    using faulty_source [OF that] resolved_member(1) [OF layer(1), of lib to_json claude] native
      locked_source_blocks [of _ ms lib server subject]
    by (auto simp: ms_def)
  show "\<not> is_url_allowed (market_allowlist ms) url origin" if "faulty to_json market_unusable l"
    using faulty_market [OF that] resolved_member(2) [OF layer(1), of to_json lib claude] native locked_market_blocks
    by (auto simp: ms_def)
  show "is_disabled (pin_of p ms)" if "faulty to_json (\<lambda>j. pin_unusable j p) l"
    unfolding ms_def by (rule resolved_member(3) [OF layer(1) faulty_pin [OF that]])
qed

definition broken_layer :: "json policy_layer" where
  "broken_layer =
     \<lparr>layer_tier = UserManaged, layer_path = ''/home/me/.grok/managed_config.toml'',
      layer_table = Some
        [(''deniedMcpServers'', JArray [JObject [(''serverName'', JString ''x'')], JObject [(''serverNam'', JString ''y'')]]),
         (''strictKnownMarketplaces'', JString ''none''), (''allowManagedHooksOnly'', JString ''true'')]\<rparr>"

theorem unusable_policy_locks_down_witness:
  "faulty sample_json (mcp_unusable sample_urls) broken_layer \<and> faulty sample_json market_unusable broken_layer \<and>
   faulty sample_json (\<lambda>j. pin_unusable j NonManagedHooks) broken_layer \<and>
   mcp_verdict sample_urls (resolve_managed_settings sample_urls sample_json None [broken_layer, system_layer])
     (StdioServer ''docs'' ''docs'' []) \<lparr>subject_origin = GrokNative, project_scoped = False\<rparr> \<noteq> Allowed \<and>
   \<not> is_url_allowed (market_allowlist (resolve_managed_settings sample_urls sample_json None [broken_layer, system_layer]))
     ''https://git.example/tools'' GrokNative"
proof -
  have "faulty sample_json (mcp_unusable sample_urls) broken_layer" by code_simp
  moreover have "faulty sample_json market_unusable broken_layer"
    by (simp add: faulty_def policy_keys_of_def broken_layer_def MANAGED_POLICY_CONFIG_KEYS_def sample_json_def
        market_unusable_def unusable_list_def policy_field_def List.map_filter_simps)
  moreover have "faulty sample_json (\<lambda>j. pin_unusable j NonManagedHooks) broken_layer" by code_simp
  moreover have "broken_layer \<in> set [broken_layer, system_layer]" "layer_tier broken_layer \<noteq> Vendor"
    by (simp_all add: broken_layer_def)
  ultimately show ?thesis
    using unusable_policy_locks_down [where l = broken_layer and layers = "[broken_layer, system_layer]" and to_json = sample_json
        and lib = sample_urls and claude = None and server = "StdioServer ''docs'' ''docs'' []"
        and subject = "\<lparr>subject_origin = GrokNative, project_scoped = False\<rparr>"
        and url = "''https://git.example/tools''" and origin = GrokNative and p = NonManagedHooks]
    by blast
qed

end
