(* ===== verification/Spec2Isabelle.thy ===== *)
theory Spec2Isabelle
  imports Circuit_Breaker Delivery Interjection Prompt_Queue Token_Estimation Hunk_Loc
    Exec_Guarantees Protected_Edits Gate_Preflight Managed_Guarantees
begin

text \<open>
  \<^bold>\<open>A verification library for the core crates of a terminal coding agent.\<close>

  The repository is a Rust workspace of about a hundred crates: a terminal interface, a session shell, tools that run
  commands and edit files, and small core crates that decide what is allowed and keep state. This development models
  the deciding cores as HOL functions and proves what they promise to the rest of the program. Paths below are
  relative to \<^verbatim>\<open>src/crates\<close>.

  \<^bold>\<open>Parts and how they interact.\<close>

  \<^item> \<^emph>\<open>Permissions\<close> (\<^verbatim>\<open>codegen/xai-grok-permission-rules\<close>). Every tool call is an access. Rules from the
    configuration (\<^verbatim>\<open>rules.rs\<close>) are compiled to a policy (\<^verbatim>\<open>policy.rs\<close>), and an access is rejected, asked about or allowed.
    A shell command is an access too: it is parsed to a syntax tree, split into commands
    (\<^verbatim>\<open>bash_command_splitting.rs\<close>), wrappers such as \<^verbatim>\<open>timeout\<close>, \<^verbatim>\<open>env\<close> or \<^verbatim>\<open>exec\<close> are peeled off, nested \<^verbatim>\<open>sh -c\<close> scripts are
    entered, and each command meets the rules (\<^verbatim>\<open>policy/bash_commands.rs\<close>). The files it touches meet the file rules
    (\<^verbatim>\<open>shell_access.rs\<close>), under the path spellings of \<^verbatim>\<open>policy/path_match.rs\<close>. A few reader scripts are recovered although they
    have variables (\<^verbatim>\<open>bash_permission_script.rs\<close>), and \<^verbatim>\<open>exec_risk.rs\<close> and \<^verbatim>\<open>git_content_filters.rs\<close> find flags and repository
    settings that run programs behind a harmless command. The preflight (\<^verbatim>\<open>gate_preflight.rs\<close>) evaluates rules and both
    gates once per request and says which questions the auto-mode classifier may answer.
  \<^item> \<^emph>\<open>Managed policy\<close> (\<^verbatim>\<open>managed_policy\<close> of the same crate). Settings layers of an administrator and of the user are folded into lists of
    allowed and denied servers and marketplaces and into switches. A verdict on a server names its reason.
  \<^item> \<^emph>\<open>Hunk tracker\<close> (\<^verbatim>\<open>codegen/xai-hunk-tracker\<close>). An actor that knows for each file a baseline and a current content,
    shows their difference as hunks, and accepts or rejects hunks. A sink turns its events into line counts.
  \<^item> \<^emph>\<open>Messages and prompts\<close> (\<^verbatim>\<open>common/xai-message-delivery-core\<close>, \<^verbatim>\<open>common/xai-interjection-core\<close>, \<^verbatim>\<open>codegen/xai-prompt-queue\<close>,
    \<^verbatim>\<open>codegen/xai-token-estimation\<close>). Messages between agents, text typed during a turn, queued prompts, and the estimate that
    decides when a conversation is compacted.
  \<^item> \<^emph>\<open>Circuit breaker\<close> (\<^verbatim>\<open>common/xai-circuit-breaker\<close>). Sheds requests to a failing service.

  \<^bold>\<open>Theories.\<close>

  \<^item> \<^verbatim>\<open>Rust_Prelude\<close>: the standard library the code uses (byte strings, UTF-8 boundaries, trimming, saturating arithmetic, association
    lists as maps, ordered inserts) with its simplification collections. \<^verbatim>\<open>Machines\<close>: the contracts of stateful components as locales: an
    invariant every operation keeps, one that guarded operations keep, a frame of untouched components, and custody
    of items that are neither lost nor duplicated. \<^verbatim>\<open>Float64\<close>: the one floating-point quotient the code decides on.
  \<^item> \<^verbatim>\<open>Circuit_Breaker\<close>, \<^verbatim>\<open>Delivery\<close>, \<^verbatim>\<open>Interjection\<close>, \<^verbatim>\<open>Prompt_Queue\<close>, \<^verbatim>\<open>Token_Estimation\<close>: one crate each; the record of its state, one
    definition per operation, and its properties.
  \<^item> \<^verbatim>\<open>Perm_Rules\<close>: types and the rule parser. \<^verbatim>\<open>Bash_Wrappers\<close>: command words. \<^verbatim>\<open>Bash_Tree\<close>: decomposition of a syntax tree.
    \<^verbatim>\<open>Perm_Script\<close>: recovered scripts. \<^verbatim>\<open>Path_Match\<close>: path spellings. \<^verbatim>\<open>Perm_Patterns\<close>: what a rule matches. \<^verbatim>\<open>Perm_Policy\<close>: the
    evaluator and the command gate. \<^verbatim>\<open>Perm_Guarantees\<close>: its properties.
  \<^item> \<^verbatim>\<open>Exec_Risk\<close>: execution risk and git filters. \<^verbatim>\<open>Shell_Access\<close>: the files a command touches and the file gate.
    \<^verbatim>\<open>Exec_Guarantees\<close>, \<^verbatim>\<open>Shell_Guarantees\<close>: their properties. \<^verbatim>\<open>Protected_Edits\<close>: edit targets that always ask. \<^verbatim>\<open>Gate_Preflight\<close>: the
    preflight, and the composition of rules, gates and classifier.
  \<^item> \<^verbatim>\<open>Url_Match\<close>, \<^verbatim>\<open>Url_Guarantees\<close>: patterns of server URLs. \<^verbatim>\<open>Managed_Policy\<close>, \<^verbatim>\<open>Managed_Guarantees\<close>: layers, policy keys, server and
    marketplace policy, verdicts, and their properties.
  \<^item> \<^verbatim>\<open>Hunk_Diff\<close>: hunks and patches. \<^verbatim>\<open>Hunk_Tracker\<close>: the actor, one definition per handler, and its loop. \<^verbatim>\<open>Hunk_Invariant\<close>,
    \<^verbatim>\<open>Hunk_Guarantees\<close>: its invariant and properties. \<^verbatim>\<open>Hunk_Loc\<close>: the line-count sink.

  \<^bold>\<open>How code becomes definitions.\<close> A \<^verbatim>\<open>str\<close> is the list of its UTF-8 bytes; an integer that cannot overflow is a \<^typ>\<open>nat\<close> and
  saturation, wrap-around and underflow are written out where they can happen. A \<^verbatim>\<open>HashMap\<close> is an association list, a \<^verbatim>\<open>HashSet\<close> a list
  without repetitions, a \<^verbatim>\<open>BTreeSet\<close> an ordered list. Errors and early returns are values of option or sum types. State is
  passed explicitly; events, disk writes and replies of the hunk tracker are logs in its state. A loop is a structural
  recursion, or a function with a termination proof; the loop over an explicit stack of tree nodes ends because the
  nodes on the stack get fewer. Definitions keep the names of the source.

  \<^bold>\<open>Code outside the repository\<close> is a parameter, a field of the records \<^verbatim>\<open>policy_env\<close>, \<^verbatim>\<open>git_library\<close>, \<^verbatim>\<open>url_library\<close>, \<^verbatim>\<open>diff_env\<close> and \<^verbatim>\<open>world\<close>: the
  bash grammar of tree-sitter, glob matching, URL parsing, Unicode lower-casing, the file system, libgit2, and the line
  diff of the crate \<^verbatim>\<open>similar\<close>. Nothing is assumed about them, except in the properties of the hunk tracker, whose
  hypothesis is the documented contract of a line diff (its changes spell out the two texts), and in that of denied hosts, where the glob
  of the host compiles.

  \<^bold>\<open>Bounds.\<close> \<^verbatim>\<open>MAX_INLINE_SHELL_DEPTH\<close> (8), \<^verbatim>\<open>MAX_NORMALIZE_ROUNDS\<close> (16), the wrapper and prefix depths (8 each) and
  \<^verbatim>\<open>MAX_SYMLINK_DEPTH\<close> are the code's own; where they are used up the code has a branch of its own and so has the model. There is no other
  fuel: every other recursion is proved to end.

  \<^bold>\<open>What is shown.\<close>

  \<^item> Permissions: deny before ask before allow; the order of rules does not matter; more restrictions never weaken a
    decision; a deny rule reaches commands nested in scripts, behind wrappers and under every spelling of a file;
    an allowed script has every command covered; symbolic links only escalate; operands that cannot be read make the
    gate ask; what decomposition returns is complete; rules print and parse back; the classifier does not answer a
    rule that binds within the nesting bound; scripts recovered as eligible only read and have vetted assignments; read-only git queries and
    harmless edits are characterised, and a script without ambient risk meets no repository setting that runs a program.
  \<^item> Managed policy: layers of the user only tighten what an administrator decides; verdicts have their reasons; policy
    that cannot be used locks down; a denied plain host is denied whatever surrounds it in the pattern and in the URL; patterns have normal forms.
  \<^item> Hunk tracker: over any run without \<^verbatim>\<open>SetWorkingDir\<close> and \<^verbatim>\<open>RestoreState\<close>, hunks are exactly those of the diff of baseline and content,
    and identifiers are unique; in such runs rejecting restores the baseline and accepting adopts the content, on texts of the shape the
    theorems name, and showing hunks does not underflow; accepting never writes; coalescing of notifications keeps the
    last word on each path; the loop answers every request it takes, and all of them unless it is cancelled; line counts of undone
    hunks sum to zero.
  \<^item> Messages: custody and at-most-once commit over any run; minted tokens read back; nothing lost in the event queue.
  \<^item> Breaker: consistency over any run, when it trips exactly, shedding, and recovery.

  \<^bold>\<open>Limits of the model.\<close> The world does not change while the tracker handles one command, and parallel reads that fail in a refresh are
  not modelled. The loop of the tracker is driven by a list of events, at each poll what has been sent or that the token is cancelled; a
  command sent during a round is seen at the next poll. The scan for ambient risk is judged on scripts whose commands run one after
  the other. Paths are Unix paths in UTF-8. The breaker is called by one caller at a time; its atomics are
  plain fields. Serde derivations are not modelled.

  \<^bold>\<open>Not modelled.\<close> The terminal interface, rendering, network clients, login, telemetry, sandboxes, build and test
  support are mostly input and output around libraries that are not in the repository. Other parts have decisions of their own that this
  development does not reach: the merge of all permission sources and the folder-trust store of the permission crate, the layering of
  configuration, the session shell and its chat state, the tools, hooks, workflows and the compaction engine. The
  manifest lists the parts one by one.
\<close>

end
